theory Spec2Isabelle
  imports Main
begin

section \<open>The model graph read by the DDL generator\<close>

text \<open>
  The generator (\<^verbatim>\<open>generator.js\<close>, class \<^verbatim>\<open>DDLGenerator\<close>) walks a StarUML
  entity-relationship model and writes PostgreSQL DDL text. The objects it reads are
  modelled as records holding exactly the fields the code reads. JavaScript strings are
  \<open>string\<close> (ASCII characters), the column length is a number or absent
  (\<open>int option\<close>), a documentation field is a string or absent (\<open>string option\<close>).
\<close>

datatype tag_kind = TK_STRING | TK_REFERENCE | TK_BOOLEAN | TK_NUMBER | TK_HIDDEN

text \<open>
  The element a reference tag points to: the code reads its \<^verbatim>\<open>name\<close>, its
  \<^verbatim>\<open>value\<close> and the \<^verbatim>\<open>name\<close> of its own \<^verbatim>\<open>reference\<close> (when it has one).
\<close>

record tag_ref =
  rf_name :: string
  rf_value :: string
  rf_reference :: "string option"

record tag =
  tg_name :: string
  tg_kind :: tag_kind
  tg_value :: string
  tg_number :: int
  tg_checked :: bool
  tg_reference :: "tag_ref option"

datatype elem_kind = KProject | KDataModel | KDiagram | KEntity | KOther

text \<open>
  An owner chain, as \<^verbatim>\<open>schemaName\<close> and the foreign-key block walk it through
  \<^verbatim>\<open>_parent\<close>: the class of the element (what \<^verbatim>\<open>instanceof\<close> tests), its tags
  and its parent.
\<close>

datatype node = Node (nd_kind: elem_kind) (nd_tags: "tag list") (nd_parent: "node option")

text \<open>
  The target of \<^verbatim>\<open>col.referenceTo\<close>: the referenced column (name and tags), the
  entity that owns it (name and tags) and that entity's owner chain. None of these
  fields is written during generation, so the copy held here equals the shared object.
\<close>

record ref_target =
  rt_column_name :: string
  rt_column_tags :: "tag list"
  rt_table_name :: string
  rt_table_tags :: "tag list"
  rt_table_parent :: "node option"

record column =
  col_name :: string
  col_tags :: "tag list"
  col_type :: string
  col_length :: "int option"
  col_primaryKey :: bool
  col_unique :: bool
  col_foreignKey :: bool
  col_nullable :: bool
  col_documentation :: "string option"
  col_is_enum :: bool
  col_referenceTo :: "ref_target option"

record entity =
  en_name :: string
  en_tags :: "tag list"
  en_columns :: "column list"
  en_documentation :: "string option"

record diagram =
  dg_name :: string
  dg_tags :: "tag list"
  dg_ownedElements :: "entity list"

text \<open>
  What a data model owns: \<^verbatim>\<open>generateTables\<close> tests each owned element for
  \<^verbatim>\<open>ERDDiagram\<close>, then for \<^verbatim>\<open>ERDEntity\<close>, and skips anything else.
\<close>

datatype dm_owned = OwnedDiagram diagram | OwnedEntity entity | OwnedOther

record data_model =
  dm_name :: string
  dm_tags :: "tag list"
  dm_documentation :: "string option"
  dm_ownedElements :: "dm_owned list"



record options =
  opt_useTab :: bool
  opt_indentSpaces :: nat
  opt_owner :: string
  opt_encoding :: string
  opt_tablespace :: string
  opt_collation :: string
  opt_dropStatements :: bool
  opt_foreignKeyConstraint :: bool
  opt_tableInserts :: bool
  opt_trigger :: string
  opt_function :: string
  opt_procedure :: string

section \<open>Effects: diagnostics, dialogs, files, exceptions\<close>

datatype severity = Info | Warning | Error

text \<open>
  A thrown exception. \<open>TypeError\<close> names the expression that failed.
  \<open>Unmodelled\<close> marks a run that has left the modelled fragment: a lookup
  \<^verbatim>\<open>map[elem.type]\<close> or \<^verbatim>\<open>acc[idx.idxName]\<close> whose key is a member inherited from
  \<^verbatim>\<open>Object.prototype\<close> or \<^verbatim>\<open>Array.prototype\<close>; what the code does there depends
  on the inherited member and is not described here.
\<close>

datatype error = TypeError string | Unmodelled string

datatype dialog = InfoDialog string | ErrorDialog error

text \<open>
  The world outside the generator: the toasts shown (\<^verbatim>\<open>app.toast\<close>), the dialogs
  shown (\<^verbatim>\<open>app.dialogs\<close>) and the files written (\<^verbatim>\<open>fs.writeFileSync\<close>, each
  write recorded in order as path and content; a later write to a path replaces the
  earlier one on disk). A write is taken to succeed.
\<close>

record world =
  toasts :: "(severity \<times> string) list"
  dialogs :: "dialog list"
  files :: "(string \<times> string) list"

definition toast :: "severity \<Rightarrow> string \<Rightarrow> world \<Rightarrow> world" where
  "toast sev msg w = w\<lparr>toasts := toasts w @ [(sev, msg)]\<rparr>"

definition writeFileSync :: "string \<Rightarrow> string \<Rightarrow> world \<Rightarrow> world" where
  "writeFileSync file data w = w\<lparr>files := files w @ [(file, data)]\<rparr>"

section \<open>String primitives of the JavaScript runtime\<close>

definition upper_chars :: string where
  "upper_chars = ''ABCDEFGHIJKLMNOPQRSTUVWXYZ''"

definition lower_chars :: string where
  "lower_chars = ''abcdefghijklmnopqrstuvwxyz''"

definition digit_chars :: string where
  "digit_chars = ''0123456789''"

definition toLowerChar :: "char \<Rightarrow> char" where
  "toLowerChar c = (case map_of (zip upper_chars lower_chars) c of Some d \<Rightarrow> d | None \<Rightarrow> c)"

definition toLowerCase :: "string \<Rightarrow> string" where
  "toLowerCase s = map toLowerChar s"

fun startsWith :: "string \<Rightarrow> string \<Rightarrow> bool" where
  "startsWith s [] = True"
| "startsWith [] (p # ps) = False"
| "startsWith (c # cs) (p # ps) = (c = p \<and> startsWith cs ps)"

text \<open>\<^verbatim>\<open>s.indexOf(p)\<close>, counted from \<open>i\<close>: the first position where \<open>p\<close> starts, or \<open>-1\<close>.\<close>

fun indexOf_from :: "int \<Rightarrow> string \<Rightarrow> string \<Rightarrow> int" where
  "indexOf_from i [] p = (if p = [] then i else - 1)"
| "indexOf_from i (c # cs) p = (if startsWith (c # cs) p then i else indexOf_from (i + 1) cs p)"

definition indexOf :: "string \<Rightarrow> string \<Rightarrow> int" where
  "indexOf s p = indexOf_from 0 s p"

text \<open>\<^verbatim>\<open>xs.join(sep)\<close>.\<close>

fun join :: "string \<Rightarrow> string list \<Rightarrow> string" where
  "join sep [] = []"
| "join sep [x] = x"
| "join sep (x # y # ys) = x @ sep @ join sep (y # ys)"

text \<open>\<^verbatim>\<open>s.split(c)\<close> for a one-character separator: never empty, \<open>''''\<close> gives \<open>['''']\<close>.\<close>

fun split :: "char \<Rightarrow> string \<Rightarrow> string list" where
  "split c [] = [[]]"
| "split c (x # xs) =
     (if x = c then [] # split c xs
      else (case split c xs of [] \<Rightarrow> [[x]] | p # ps \<Rightarrow> (x # p) # ps))"

definition newline :: char where
  "newline = CHR 0x0A"

definition is_whitespace :: "char \<Rightarrow> bool" where
  "is_whitespace c = (c = CHR '' '' \<or> c = CHR 0x09 \<or> c = CHR 0x0A \<or> c = CHR 0x0B
     \<or> c = CHR 0x0C \<or> c = CHR 0x0D)"

definition trim :: "string \<Rightarrow> string" where
  "trim s = rev (dropWhile is_whitespace (rev (dropWhile is_whitespace s)))"

text \<open>
  A number spliced into a string (\<^verbatim>\<open>"(" + elem.length + ")"\<close>): its decimal digits,
  after a minus sign when it is negative.
\<close>

fun decimal :: "nat \<Rightarrow> string" where
  "decimal k = (if 10 \<le> k then decimal (k div 10) else []) @ [digit_chars ! (k mod 10)]"

declare decimal.simps [simp del]

definition numberToString :: "int \<Rightarrow> string" where
  "numberToString i = (if i < 0 then CHR ''-'' # decimal (nat (- i)) else decimal (nat i))"

section \<open>The type mapper\<close>

text \<open>
  \<^verbatim>\<open>"(" + elem.length + ")"\<close>: an absent length is spliced in as \<^verbatim>\<open>undefined\<close>.
\<close>

definition varLenFunc :: "column \<Rightarrow> string" where
  "varLenFunc elem =
     ''('' @ (case col_length elem of None \<Rightarrow> ''undefined'' | Some n \<Rightarrow> numberToString n) @ '')''"

definition noLenFunc :: "column \<Rightarrow> string" where
  "noLenFunc elem = ''''"

definition typeOf :: "string \<Rightarrow> (column \<Rightarrow> string) \<Rightarrow> column \<Rightarrow> string" where
  "typeOf ty lenFunc elem = ty @ lenFunc elem"

definition typeOfWithOverride ::
  "string \<Rightarrow> string \<Rightarrow> (column \<Rightarrow> string) \<Rightarrow> column \<Rightarrow> string" where
  "typeOfWithOverride ty override lenFunc elem =
     (if col_length elem = Some (- 1) then override @ lenFunc elem else ty @ lenFunc elem)"

definition dataType_map :: "(string \<times> (column \<Rightarrow> string)) list" where
  "dataType_map =
    [(''VARCHAR'', typeOf ''varchar'' varLenFunc),
     (''BOOLEAN'', typeOf ''boolean'' noLenFunc),
     (''INTEGER'', typeOfWithOverride ''integer'' ''serial'' noLenFunc),
     (''CHAR'', typeOf ''char'' varLenFunc),
     (''BINARY'', typeOf ''bytea'' noLenFunc),
     (''VARBINARY'', typeOf ''bytea'' noLenFunc),
     (''BLOB'', typeOf ''bytea'' noLenFunc),
     (''TEXT'', typeOf ''text'' noLenFunc),
     (''SMALLINT'', typeOfWithOverride ''smallint'' ''smallserial'' noLenFunc),
     (''BIGINT'', typeOfWithOverride ''bigint'' ''bigserial'' noLenFunc),
     (''DECIMAL'', typeOf ''numeric'' varLenFunc),
     (''NUMERIC'', typeOf ''numeric'' varLenFunc),
     (''FLOAT'', typeOf ''real'' noLenFunc),
     (''DOUBLE'', typeOf ''double precision'' noLenFunc),
     (''BIT'', typeOf ''bit'' varLenFunc),
     (''DATE'', typeOf ''date'' noLenFunc),
     (''TIME'', typeOf ''time without time zone'' noLenFunc),
     (''DATETIME'', typeOf ''timestamp with time zone'' noLenFunc),
     (''TIMESTAMPTZ'', typeOf ''timestamp with time zone'' noLenFunc),
     (''TIMESTAMP'', typeOf ''timestamp without time zone'' noLenFunc),
     (''POINT'', typeOf ''point'' noLenFunc),
     (''POLYGON'', typeOf ''polygon'' noLenFunc),
     (''CIDR'', typeOf ''cidr'' noLenFunc),
     (''INET'', typeOf ''inet'' noLenFunc)]"

text \<open>
  The names every object literal inherits from \<^verbatim>\<open>Object.prototype\<close>: for these
  \<^verbatim>\<open>typeof map[elem.type]\<close> is not \<^verbatim>\<open>"undefined"\<close> although the literal has no
  such key.
\<close>

definition object_prototype_names :: "string list" where
  "object_prototype_names =
    [''constructor'', ''hasOwnProperty'', ''isPrototypeOf'', ''propertyIsEnumerable'',
     ''toLocaleString'', ''toString'', ''valueOf'', ''__proto__'', ''__defineGetter__'',
     ''__defineSetter__'', ''__lookupGetter__'', ''__lookupSetter__'']"

definition dataType :: "column \<Rightarrow> error + string" where
  "dataType elem =
     (case map_of dataType_map (col_type elem) of
        Some f \<Rightarrow> Inr (f elem)
      | None \<Rightarrow>
          if col_type elem \<in> set object_prototype_names
          then Inl (Unmodelled (''map.'' @ col_type elem))
          else Inr (col_type elem))"

section \<open>The helper module \<^verbatim>\<open>codegen-utils\<close>\<close>

text \<open>
  \<^verbatim>\<open>generator.js\<close> requires \<^verbatim>\<open>./codegen-utils\<close>, a module of the repository
  whose source is not available. Its functions are modelled from the specification where it describes
  them; \<^verbatim>\<open>asComment\<close> and \<^verbatim>\<open>enumAsList\<close>, whose output the specification does
  not describe, are parameters.
\<close>

record codegen =
  cg_asComment :: "string \<Rightarrow> string"
  cg_enumAsList :: "string \<Rightarrow> string"

text \<open>
  Modelled from the spec: \<^verbatim>\<open>codegen.tag\<close> is missing. The first annotation of the
  element declared under the given key, or none; the lookup is linear over the
  annotation list.
\<close>

definition tag :: "string \<Rightarrow> tag list \<Rightarrow> tag option" where
  "tag key ts = find (\<lambda>t. tg_name t = key) ts"

text \<open>
  Modelled from the spec: \<^verbatim>\<open>codegen.stringTag\<close> is missing. The value of the string
  annotation under the given key; the empty string when there is none (the callers
  concatenate the result and test it with \<^verbatim>\<open>!\<close>).
\<close>

definition stringTag :: "string \<Rightarrow> tag list \<Rightarrow> string" where
  "stringTag key ts = (case tag key ts of None \<Rightarrow> '''' | Some t \<Rightarrow> tg_value t)"

text \<open>
  Modelled from the spec: \<^verbatim>\<open>codegen.tagsByValue\<close> and \<^verbatim>\<open>codegen.tagByValue\<close> are
  missing. All annotations (the first annotation) of the element whose value is the
  given marker; an index annotation has the value \<^verbatim>\<open>index\<close>, and the code reads the
  index name from its \<^verbatim>\<open>name\<close>, the sequence from \<^verbatim>\<open>number\<close> and the descending
  flag from \<^verbatim>\<open>checked\<close>.
\<close>

definition tagsByValue :: "string \<Rightarrow> tag list \<Rightarrow> tag list" where
  "tagsByValue v ts = filter (\<lambda>t. tg_value t = v) ts"

definition tagByValue :: "string \<Rightarrow> tag list \<Rightarrow> tag option" where
  "tagByValue v ts = find (\<lambda>t. tg_value t = v) ts"

text \<open>
  Modelled from the spec: \<^verbatim>\<open>codegen.replaceAll\<close> is missing. Every occurrence of one
  character is replaced by another (the code only replaces a space or a dash by an
  underscore).
\<close>

definition replaceAll :: "string \<Rightarrow> char \<Rightarrow> char \<Rightarrow> string" where
  "replaceAll s a b = map (\<lambda>c. if c = a then b else c) s"

text \<open>
  Modelled from the spec: \<^verbatim>\<open>codegen.isValidIdentifier\<close> is missing. True iff the name
  is non-empty and consists only of letters, digits and underscores.
\<close>

definition identifier_chars :: string where
  "identifier_chars = upper_chars @ lower_chars @ digit_chars @ ''_''"

definition isValidIdentifier :: "string \<Rightarrow> bool" where
  "isValidIdentifier s = (s \<noteq> [] \<and> list_all (\<lambda>c. c \<in> set identifier_chars) s)"

text \<open>
  Modelled from the spec: \<^verbatim>\<open>codegen.CodeWriter\<close> is missing. An indentation-tracking
  line accumulator: \<^verbatim>\<open>writeLine\<close> appends one line, prefixed by the current
  indentation (an empty or absent line is appended empty), \<^verbatim>\<open>indent\<close> and
  \<^verbatim>\<open>outdent\<close> move the indentation by one step, \<^verbatim>\<open>hasContent\<close> tells whether a
  line was written, \<^verbatim>\<open>getData\<close> joins the lines with newlines.
\<close>

record code_writer =
  cw_lines :: "string list"
  cw_indentations :: "string list"
  cw_indentString :: string

definition CodeWriter :: "string \<Rightarrow> code_writer" where
  "CodeWriter indentString = \<lparr>cw_lines = [], cw_indentations = [], cw_indentString = indentString\<rparr>"

definition indent :: "code_writer \<Rightarrow> code_writer" where
  "indent cw = cw\<lparr>cw_indentations := cw_indentations cw @ [cw_indentString cw]\<rparr>"

definition outdent :: "code_writer \<Rightarrow> code_writer" where
  "outdent cw = cw\<lparr>cw_indentations := butlast (cw_indentations cw)\<rparr>"

definition writeLine :: "string \<Rightarrow> code_writer \<Rightarrow> code_writer" where
  "writeLine line cw =
     (if line \<noteq> [] then cw\<lparr>cw_lines := cw_lines cw @ [concat (cw_indentations cw) @ line]\<rparr>
      else cw\<lparr>cw_lines := cw_lines cw @ ['''']\<rparr>)"

fun writeLines :: "string list \<Rightarrow> code_writer \<Rightarrow> code_writer" where
  "writeLines [] cw = cw"
| "writeLines (l # ls) cw = writeLines ls (writeLine l cw)"

definition hasContent :: "code_writer \<Rightarrow> bool" where
  "hasContent cw = (cw_lines cw \<noteq> [])"

definition getData :: "code_writer \<Rightarrow> string" where
  "getData cw = join [newline] (cw_lines cw)"

section \<open>Identifiers, defaults and column lines\<close>

definition getIndentString :: "options \<Rightarrow> string" where
  "getIndentString opts =
     (if opt_useTab opts then [CHR 0x09] else concat (replicate (opt_indentSpaces opts) '' ''))"

text \<open>
  \<^verbatim>\<open>tableName\<close>, \<^verbatim>\<open>columnName\<close> read the name and the tags of an element; they
  return the resolved identifier (empty on failure) and the world with the error toast.
\<close>

definition tableName :: "string \<Rightarrow> tag list \<Rightarrow> world \<Rightarrow> string \<times> world" where
  "tableName elem_name elem_tags w =
     (let dbName0 = (case tag ''table'' elem_tags of Some t \<Rightarrow> tg_value t | None \<Rightarrow> '''');
          dbName = (if dbName0 = '''' then replaceAll elem_name CHR '' '' CHR ''_'' else dbName0)
      in if \<not> isValidIdentifier dbName
         then ('''', toast Error (''Table name is not valid: '' @ dbName
                 @ '', please edit the table tag for '' @ elem_name) w)
         else (toLowerCase dbName, w))"

definition columnName :: "string \<Rightarrow> tag list \<Rightarrow> world \<Rightarrow> string \<times> world" where
  "columnName elem_name elem_tags w =
     (let dbName0 = (case tag ''column'' elem_tags of Some t \<Rightarrow> tg_value t | None \<Rightarrow> '''');
          dbName = (if dbName0 = '''' then replaceAll elem_name CHR '' '' CHR ''_'' else dbName0)
      in if \<not> isValidIdentifier dbName
         then ('''', toast Error (''Column name is not valid: '' @ dbName
                 @ '', please edit the column tag for '' @ elem_name) w)
         else (toLowerCase dbName, w))"

text \<open>
  \<^verbatim>\<open>routineName\<close> is called on a tag. Its replacement branch runs only for an empty
  name, which it leaves empty.
\<close>

definition routineName :: "tag \<Rightarrow> world \<Rightarrow> string \<times> world" where
  "routineName elem w =
     (let routineName0 = tg_name elem;
          routineName1 = (if routineName0 = ''''
             then replaceAll (replaceAll routineName0 CHR '' '' CHR ''_'') CHR ''-'' CHR ''_''
             else routineName0)
      in if \<not> isValidIdentifier routineName1
         then ('''', toast Error (''Routine name is not valid: '' @ routineName1
                 @ '', please edit the name for '' @ tg_name elem) w)
         else (toLowerCase routineName1, w))"

definition columnDefault :: "column \<Rightarrow> string" where
  "columnDefault elem =
     (case tag ''default'' (col_tags elem) of
        None \<Rightarrow> ''''
      | Some t \<Rightarrow> '' DEFAULT '' @ tg_value t)"

text \<open>
  \<^verbatim>\<open>columnDeclaration\<close> returns the line; it also pushes onto \<^verbatim>\<open>comments\<close> and
  resets the type of an enum column, so the model returns the column and the comment
  list as they are afterwards. A documentation is used when it is present and non-empty.
\<close>

definition truthy :: "string option \<Rightarrow> bool" where
  "truthy d = (case d of None \<Rightarrow> False | Some s \<Rightarrow> s \<noteq> [])"

definition columnDeclaration ::
  "codegen \<Rightarrow> string \<Rightarrow> column \<Rightarrow> (string \<times> string) list \<Rightarrow> string
     \<Rightarrow> error + (string \<times> column \<times> (string \<times> string) list)" where
  "columnDeclaration cg column_name elem comments defaultValue =
     (case dataType elem of
        Inl e \<Rightarrow> Inl e
      | Inr ty \<Rightarrow>
          (let line0 = column_name @ '' '' @ ty;
               line1 = (if col_primaryKey elem \<or> \<not> col_nullable elem
                        then line0 @ '' NOT NULL'' else line0);
               line2 = (if indexOf ty ''serial'' = - 1 then line1 @ defaultValue else line1);
               comments' = (if truthy (col_documentation elem)
                            then comments @ [(column_name, cg_asComment cg (the (col_documentation elem)))]
                            else comments);
               elem' = (if col_is_enum elem then elem\<lparr>col_type := ''enum''\<rparr> else elem)
           in Inr (line2, elem', comments')))"

section \<open>Loops with exceptions\<close>

text \<open>
  A function that can throw returns \<open>Inl\<close> the exception or \<open>Inr\<close> its result,
  paired with the world as it is at that moment (toasts shown before a throw stay
  shown). \<open>forEach\<close> is \<^verbatim>\<open>Array.prototype.forEach\<close> with a callback that updates
  the variables \<open>s\<close> of the enclosing function: it stops at the first throw.
\<close>

type_synonym 'a outcome = "(error + 'a) \<times> world"

fun forEach :: "('a \<Rightarrow> 's \<Rightarrow> world \<Rightarrow> 's outcome) \<Rightarrow> 'a list \<Rightarrow> 's \<Rightarrow> world \<Rightarrow> 's outcome" where
  "forEach f [] s w = (Inr s, w)"
| "forEach f (x # xs) s w =
     (case f x s w of
        (Inl e, w') \<Rightarrow> (Inl e, w')
      | (Inr s', w') \<Rightarrow> forEach f xs s' w')"

section \<open>Schema names\<close>

definition schemaName :: "node option \<Rightarrow> world \<Rightarrow> string \<times> world" where
  "schemaName elem w =
     (let elem1 = (case elem of Some (Node KDiagram ts p) \<Rightarrow> p | _ \<Rightarrow> elem)
      in case elem1 of
           Some (Node KDataModel ts p) \<Rightarrow>
             (let dbName = stringTag ''schema'' ts
              in if dbName = '''' then (''public'', w)
                 else if \<not> isValidIdentifier dbName
                 then (dbName, toast Warning (''Schema name not valid: '' @ dbName) w)
                 else (dbName, w))
         | _ \<Rightarrow> (''public'', w))"

section \<open>User indexes\<close>

definition getIndexColumns :: "column list \<Rightarrow> column list" where
  "getIndexColumns cols = filter (\<lambda>col. tagByValue ''index'' (col_tags col) \<noteq> None) cols"

record idx =
  idx_column :: string
  idx_idxName :: string
  idx_seq :: int
  idx_desc :: bool

text \<open>
  The first loop of \<^verbatim>\<open>writeUserIndexes\<close>: one entry per index tag of each index
  column, in column order. \<^verbatim>\<open>columnName\<close> is called once per column.
\<close>

definition idxDef_body :: "column \<Rightarrow> idx list \<Rightarrow> world \<Rightarrow> idx list \<times> world" where
  "idxDef_body col idxDef w =
     (let idxTags = tagsByValue ''index'' (col_tags col);
          (colName, w1) = columnName (col_name col) (col_tags col) w
      in (idxDef @ map (\<lambda>t. \<lparr>idx_column = colName, idx_idxName = tg_name t,
                               idx_seq = tg_number t, idx_desc = tg_checked t\<rparr>) idxTags, w1))"

fun idxDef_loop :: "column list \<Rightarrow> idx list \<Rightarrow> world \<Rightarrow> idx list \<times> world" where
  "idxDef_loop [] idxDef w = (idxDef, w)"
| "idxDef_loop (col # cols) idxDef w =
     (case idxDef_body col idxDef w of (idxDef', w') \<Rightarrow> idxDef_loop cols idxDef' w')"

text \<open>
  The accumulator of the \<^verbatim>\<open>reduce\<close> is an array (\<^verbatim>\<open>[]\<close>) that the callback
  indexes by the index name, a string. The model keeps every property the callback
  sets, in the order they are first set. A key is an element of the array only when it
  is the canonical decimal spelling of a number below \<open>2^32 - 1\<close>; any other key is a
  plain property of the array object, which \<^verbatim>\<open>forEach\<close> never visits.
\<close>

definition digit_value :: "char \<Rightarrow> int" where
  "digit_value c = (of_char c :: int) - 48"

definition int_of_digits :: "string \<Rightarrow> int" where
  "int_of_digits s = foldl (\<lambda>n c. 10 * n + digit_value c) 0 s"

definition array_index :: "string \<Rightarrow> int option" where
  "array_index s =
     (if s \<noteq> [] \<and> list_all (\<lambda>c. c \<in> set digit_chars) s \<and> (s = ''0'' \<or> hd s \<noteq> CHR ''0'')
         \<and> int_of_digits s < 4294967295
      then Some (int_of_digits s) else None)"

text \<open>
  The names an empty array already answers to: its own \<^verbatim>\<open>length\<close> and the members
  of \<^verbatim>\<open>Array.prototype\<close> and \<^verbatim>\<open>Object.prototype\<close>. For such an index name
  \<^verbatim>\<open>acc[idx.idxName]\<close> is not the group, and the run leaves the modelled fragment.
\<close>

definition array_prototype_names :: "string list" where
  "array_prototype_names =
    [''length'', ''at'', ''concat'', ''copyWithin'', ''entries'', ''every'', ''fill'', ''filter'',
     ''find'', ''findIndex'', ''findLast'', ''findLastIndex'', ''flat'', ''flatMap'', ''forEach'',
     ''includes'', ''indexOf'', ''join'', ''keys'', ''lastIndexOf'', ''map'', ''pop'', ''push'',
     ''reduce'', ''reduceRight'', ''reverse'', ''shift'', ''slice'', ''some'', ''sort'', ''splice'',
     ''toReversed'', ''toSorted'', ''toSpliced'', ''unshift'', ''values'', ''with'']
    @ object_prototype_names"

fun acc_push :: "string \<Rightarrow> idx \<Rightarrow> (string \<times> idx list) list \<Rightarrow> (string \<times> idx list) list" where
  "acc_push k v [] = [(k, [v])]"
| "acc_push k v ((k', g) # rest) =
     (if k' = k then (k', g @ [v]) # rest else (k', g) # acc_push k v rest)"

definition reduce_body ::
  "idx \<Rightarrow> (string \<times> idx list) list \<Rightarrow> world \<Rightarrow> ((string \<times> idx list) list) outcome" where
  "reduce_body i acc w =
     (if idx_idxName i \<in> set array_prototype_names
      then (Inl (Unmodelled (''acc.'' @ idx_idxName i)), w)
      else (Inr (acc_push (idx_idxName i) i acc), w))"

text \<open>
  The elements \<^verbatim>\<open>idxDef.forEach\<close> visits: the properties whose key is an array index,
  in ascending index order.
\<close>

definition array_elements :: "(string \<times> idx list) list \<Rightarrow> idx list list" where
  "array_elements acc =
     map snd (sort_key (\<lambda>(k, g). the (array_index k)) (filter (\<lambda>(k, g). array_index k \<noteq> None) acc))"

text \<open>
  The body of \<^verbatim>\<open>idxDef.forEach\<close>. \<^verbatim>\<open>o.sort\<close> with the comparator on \<^verbatim>\<open>seq\<close> is a
  stable sort by \<^verbatim>\<open>seq\<close>. A visited group is never empty, so \<^verbatim>\<open>o[0]\<close> exists.
\<close>

definition index_body :: "string \<Rightarrow> idx list \<Rightarrow> code_writer \<Rightarrow> code_writer" where
  "index_body table_name o_group cw =
     (let sorted_group = sort_key idx_seq o_group;
          cols = map (\<lambda>obj. if idx_desc obj then idx_column obj @ '' DESC'' else idx_column obj) sorted_group;
          idxName = idx_idxName (hd sorted_group);
          cw1 = writeLine ('' -- Index: '' @ idxName) cw;
          cw2 = writeLine (''CREATE INDEX ON '' @ table_name) cw1;
          cw3 = indent cw2;
          cw4 = writeLine (''('' @ join '', '' cols @ '');'') cw3
      in outdent cw4)"

definition writeUserIndexes ::
  "code_writer \<Rightarrow> string \<Rightarrow> column list \<Rightarrow> world \<Rightarrow> code_writer outcome" where
  "writeUserIndexes codeWriter table_name elem_columns w =
     (let idxCols = getIndexColumns elem_columns;
          (idxDef, w1) = idxDef_loop idxCols [] w
      in case forEach reduce_body idxDef [] w1 of
           (Inl e, w2) \<Rightarrow> (Inl e, w2)
         | (Inr acc, w2) \<Rightarrow>
             (Inr (writeLine '''' (fold (index_body table_name) (array_elements acc) codeWriter)), w2))"

section \<open>One table\<close>

text \<open>
  The local variables of \<^verbatim>\<open>generateTable\<close> that its loops update, and
  \<^verbatim>\<open>elem.columns\<close> as the loops leave it (a column's \<^verbatim>\<open>type\<close> and \<^verbatim>\<open>is_enum\<close>
  are written in place).
\<close>

record table_vars =
  tv_lines :: "string list"
  tv_primaryKeys :: "string list"
  tv_foreignKeys :: "string list"
  tv_foreignKeyCtr :: "column list"
  tv_uniques :: "string list"
  tv_comments :: "(string \<times> string) list"
  tv_columns :: "column list"

text \<open>The loop \<^verbatim>\<open>// create enums\<close>: its state is the writer, \<^verbatim>\<open>drop_enums\<close> and the columns seen so far.\<close>

definition enums_body ::
  "codegen \<Rightarrow> string \<Rightarrow> column \<Rightarrow> code_writer \<times> string list \<times> column list \<Rightarrow> world
     \<Rightarrow> (code_writer \<times> string list \<times> column list) outcome" where
  "enums_body cg table col s w =
     (case s of (codeWriter, drop_enums, cols) \<Rightarrow>
      (case dataType col of
         Inl e \<Rightarrow> (Inl e, w)
       | Inr ty \<Rightarrow>
           if ty \<noteq> '''' \<and> toLowerCase ty = ''enum'' \<and> stringTag ty (col_tags col) \<noteq> ''''
           then (let enums = stringTag ty (col_tags col);
                     (column, w1) = columnName (col_name col) (col_tags col) w;
                     typeName = table @ ''_'' @ column;
                     enumDecl = cg_enumAsList cg enums;
                     cw1 = writeLine (''CREATE TYPE '' @ typeName @ '' AS ENUM('' @ enumDecl @ '');''
                             @ [newline]) codeWriter;
                     cw2 = writeLine (''CREATE CAST (CHARACTER VARYING AS '' @ typeName
                             @ '') WITH INOUT AS IMPLICIT;'' @ [newline]) cw1;
                     col' = col\<lparr>col_type := typeName, col_is_enum := True\<rparr>
                 in (Inr (cw2, drop_enums @ [''DROP TYPE '' @ typeName @ '' CASCADE;''], cols @ [col']), w1))
           else (Inr (codeWriter, drop_enums, cols @ [col]), w)))"

text \<open>The loop \<^verbatim>\<open>// Columns\<close>.\<close>

definition columns_body ::
  "codegen \<Rightarrow> options \<Rightarrow> column \<Rightarrow> table_vars \<Rightarrow> world \<Rightarrow> table_vars outcome" where
  "columns_body cg opts col tv w =
     (let (column, w1) = columnName (col_name col) (col_tags col) w;
          tv1 = (if column \<noteq> '''' then
                   (if col_primaryKey col then tv\<lparr>tv_primaryKeys := tv_primaryKeys tv @ [column]\<rparr>
                    else if col_unique col then tv\<lparr>tv_uniques := tv_uniques tv @ [column]\<rparr>
                    else if column \<noteq> '''' \<and> col_foreignKey col \<and> \<not> col_primaryKey col
                    then tv\<lparr>tv_foreignKeys := tv_foreignKeys tv @ [column]\<rparr>
                    else tv)
                 else tv);
          tv2 = (if column \<noteq> '''' \<and> opt_foreignKeyConstraint opts \<and> col_referenceTo col \<noteq> None
                 then tv1\<lparr>tv_foreignKeyCtr := tv_foreignKeyCtr tv1 @ [col]\<rparr> else tv1);
          defaultValue = columnDefault col
      in if column \<noteq> '''' then
           (case columnDeclaration cg column col (tv_comments tv2) defaultValue of
              Inl e \<Rightarrow> (Inl e, w1)
            | Inr (line, col', comments') \<Rightarrow>
                (Inr (tv2\<lparr>tv_lines := tv_lines tv2 @ [line], tv_comments := comments',
                          tv_columns := tv_columns tv2 @ [col']\<rparr>), w1))
         else (Inr (tv2\<lparr>tv_columns := tv_columns tv2 @ [col]\<rparr>), w1))"

text \<open>\<^verbatim>\<open>// Write lines\<close>: every line but the last gets a comma.\<close>

fun with_commas :: "string list \<Rightarrow> string list" where
  "with_commas [] = []"
| "with_commas [x] = [x]"
| "with_commas (x # y # ys) = (x @ '','') # with_commas (y # ys)"

text \<open>
  The foreign-key block: one \<^verbatim>\<open>ALTER TABLE\<close> statement per column of
  \<^verbatim>\<open>foreignKeyCtr\<close>, pushed onto \<^verbatim>\<open>refs\<close>. A column is in \<^verbatim>\<open>foreignKeyCtr\<close> only
  with a reference target.
\<close>

definition refs_body ::
  "string \<Rightarrow> string \<Rightarrow> column \<Rightarrow> string list \<times> world \<Rightarrow> string list \<times> world" where
  "refs_body table table_name col s =
     (case s of (refs, w) \<Rightarrow>
      (case col_referenceTo col of
         None \<Rightarrow> (refs, w)
       | Some refCol \<Rightarrow>
          (let (colName, w1) = columnName (col_name col) (col_tags col) w;
               (refColName, w2) = columnName (rt_column_name refCol) (rt_column_tags refCol) w1;
               (refTableName0, w3) = tableName (rt_table_name refCol) (rt_table_tags refCol) w2;
               refTableName = (case rt_table_parent refCol of
                                 Some (Node KDiagram ts p) \<Rightarrow> stringTag ''prefix'' ts @ refTableName0
                               | _ \<Rightarrow> refTableName0);
               (refSchemaName, w4) = schemaName (rt_table_parent refCol) w3
           in (refs @ [''ALTER TABLE '' @ table @ '' ADD CONSTRAINT FK_'' @ table_name @ ''__'' @ colName
                       @ '' FOREIGN KEY ('' @ colName @ '') REFERENCES '' @ refSchemaName @ ''.''
                       @ refTableName @ ''('' @ refColName @ '');''], w4))))"

text \<open>\<^verbatim>\<open>// generate simple FK indexes\<close>.\<close>

definition fk_index_body :: "string \<Rightarrow> string \<Rightarrow> code_writer \<Rightarrow> code_writer" where
  "fk_index_body table fk cw =
     outdent (writeLine (''('' @ fk @ '');'') (indent (writeLine (''CREATE INDEX ON '' @ table) cw)))"

definition comment_body :: "string \<Rightarrow> string \<times> string \<Rightarrow> code_writer \<Rightarrow> code_writer" where
  "comment_body table comment cw =
     outdent (writeLine (''IS '' @ snd comment @ '';'')
       (indent (writeLine (''COMMENT ON COLUMN '' @ table @ ''.'' @ fst comment) cw)))"

text \<open>\<^verbatim>\<open>//generate triggers\<close>: the loop over \<^verbatim>\<open>elem.tags\<close>.\<close>

definition is_trigger_tag :: "options \<Rightarrow> tag \<Rightarrow> bool" where
  "is_trigger_tag opts t =
     (tg_kind t = TK_REFERENCE \<and>
      (case tg_reference t of
         None \<Rightarrow> False
       | Some r \<Rightarrow> (case rf_reference r of None \<Rightarrow> False | Some n \<Rightarrow> n = opt_trigger opts)))"

definition trigger_body ::
  "options \<Rightarrow> string \<Rightarrow> string \<Rightarrow> tag \<Rightarrow> code_writer \<times> world \<Rightarrow> code_writer \<times> world" where
  "trigger_body opts table table_name t s =
     (case s of (cw, w) \<Rightarrow>
      if is_trigger_tag opts t then
        (let (rn, w1) = routineName t w;
             cw1 = writeLine (''CREATE TRIGGER '' @ table_name @ ''_'' @ rn @ ''  ''
                     @ rf_value (the (tg_reference t)) @ '' ON '' @ table) cw;
             cw2 = indent cw1;
             cw3 = writeLine (tg_value t) cw2;
             cw4 = writeLine '''' cw3;
             cw5 = writeLine '''' cw4
         in (outdent cw5, w1))
      else (cw, w))"

text \<open>
  \<^verbatim>\<open>// generate inserts\<close>. The header lists the column names (an invalid one is the
  empty string and raises its toast again); each line of the text becomes one statement,
  a field that is missing or empty becomes \<^verbatim>\<open>null\<close>.
\<close>

fun insertInto_loop :: "column list \<Rightarrow> string \<Rightarrow> world \<Rightarrow> string \<times> world" where
  "insertInto_loop [] insertInto w = (insertInto, w)"
| "insertInto_loop (col # cols) insertInto w =
     (case columnName (col_name col) (col_tags col) w of
        (column, w1) \<Rightarrow>
          insertInto_loop cols (insertInto @ column @ (if cols \<noteq> [] then '','' else '''')) w1)"

definition insert_field :: "string list \<Rightarrow> nat \<Rightarrow> nat \<Rightarrow> string" where
  "insert_field insertData colLength i =
     (if i < length insertData \<and> insertData ! i \<noteq> ''''
      then '' '' @ [CHR 0x27] @ insertData ! i @ [CHR 0x27] @ '' '' else '' null '')
     @ (if i + 1 < colLength then '','' else '''')"

definition insert_line :: "string \<Rightarrow> nat \<Rightarrow> string \<Rightarrow> string" where
  "insert_line insertInto colLength e =
     insertInto @ concat (map (insert_field (split (CHR ''|'') e) colLength) [0..<colLength]) @ '' ); ''"

definition insert_body :: "string \<Rightarrow> nat \<Rightarrow> string \<Rightarrow> code_writer \<Rightarrow> code_writer" where
  "insert_body insertInto colLength e cw = writeLine '''' (writeLine (insert_line insertInto colLength e) cw)"

definition generateInserts ::
  "options \<Rightarrow> string \<Rightarrow> string option \<Rightarrow> column list \<Rightarrow> code_writer \<Rightarrow> world \<Rightarrow> code_writer outcome" where
  "generateInserts opts table documentation cols cw w =
     (if opt_tableInserts opts then
        (case documentation of
           None \<Rightarrow> (Inl (TypeError ''elem.documentation.trim''), w)
         | Some d \<Rightarrow>
            (let text = trim d
             in if length text > 0 then
                  (let cw1 = writeLine '''' cw;
                       (insertInto0, w1) = insertInto_loop cols (''INSERT INTO '' @ table @ '' ('') w;
                       insertInto = insertInto0 @ '' ) VALUES ( '';
                       insertLines = split newline text;
                       cw2 = fold (insert_body insertInto (length cols)) insertLines cw1
                   in (Inr (writeLine '''' cw2), w1))
                else (Inr cw, w)))
      else (Inr cw, w))"

text \<open>
  The blocks of \<^verbatim>\<open>generateTable\<close> that write to \<^verbatim>\<open>codeWriter\<close> once the
  \<^verbatim>\<open>// Columns\<close> loop is done, each named after the comment that heads it in the source:
  \<^verbatim>\<open>// Primary Keys\<close> with \<^verbatim>\<open>// Write lines\<close> (which closes the statement),
  \<^verbatim>\<open>// uniques (combined?)\<close>, \<^verbatim>\<open>// generate simple FK indexes\<close>, and the table and
  column comments.
\<close>

definition writeTableBody :: "table_vars \<Rightarrow> code_writer \<Rightarrow> code_writer" where
  "writeTableBody tv cw =
     (let lines = (if length (tv_primaryKeys tv) > 0
                   then tv_lines tv @ [''PRIMARY KEY ('' @ join '', '' (tv_primaryKeys tv) @ '')'']
                   else tv_lines tv);
          cw1 = writeLines (with_commas lines) cw
      in writeLine '''' (writeLine '');'' (outdent cw1)))"

definition writeUniques :: "string \<Rightarrow> string list \<Rightarrow> code_writer \<Rightarrow> code_writer" where
  "writeUniques table uniques cw =
     (if length uniques > 0
      then writeLine '''' (outdent (writeLine (''ADD UNIQUE ('' @ join '', '' uniques @ '');'')
             (indent (writeLine (''ALTER TABLE '' @ table) cw))))
      else cw)"

definition writeForeignKeyIndexes :: "string \<Rightarrow> string list \<Rightarrow> code_writer \<Rightarrow> code_writer" where
  "writeForeignKeyIndexes table foreignKeys cw =
     (if length foreignKeys > 0
      then writeLine '''' (fold (fk_index_body table) foreignKeys cw)
      else cw)"

definition writeComments ::
  "codegen \<Rightarrow> options \<Rightarrow> string \<Rightarrow> string option \<Rightarrow> (string \<times> string) list \<Rightarrow> code_writer
     \<Rightarrow> code_writer" where
  "writeComments cg opts table documentation comments cw =
     (let cw1 = (if truthy documentation \<and> \<not> opt_tableInserts opts
                 then outdent (writeLine (''IS '' @ cg_asComment cg (the documentation) @ '';'')
                        (indent (writeLine (''COMMENT ON TABLE '' @ table) cw)))
                 else cw)
      in fold (comment_body table) comments cw1)"

text \<open>
  What \<^verbatim>\<open>generateTable\<close> leaves behind: both writers, the shared \<^verbatim>\<open>refs\<close> array
  and the entity's columns. The function itself returns nothing.
\<close>

record table_result =
  tr_codeWriter :: code_writer
  tr_dropWriter :: code_writer
  tr_refs :: "string list"
  tr_columns :: "column list"

definition generateTable ::
  "codegen \<Rightarrow> code_writer \<Rightarrow> code_writer \<Rightarrow> entity \<Rightarrow> options \<Rightarrow> string \<Rightarrow> string \<Rightarrow> string list
     \<Rightarrow> world \<Rightarrow> table_result outcome" where
  "generateTable cg codeWriter dropWriter elem opts schema_name prefix refs w =
     (let (tn, w1) = tableName (en_name elem) (en_tags elem) w;
          table_name = prefix @ tn;
          table = schema_name @ ''.'' @ table_name
      in case forEach (enums_body cg table) (en_columns elem) (codeWriter, [], []) w1 of
           (Inl e, w2) \<Rightarrow> (Inl e, w2)
         | (Inr (cw1, drop_enums, cols1), w2) \<Rightarrow>
          (let cw2 = indent (writeLine (''CREATE TABLE '' @ table @ '' ('') cw1);
               dw1 = writeLines drop_enums
                       (writeLine (''DROP TABLE IF EXISTS '' @ table @ '' CASCADE;'') dropWriter)
           in case forEach (columns_body cg opts) cols1
                     \<lparr>tv_lines = [], tv_primaryKeys = [], tv_foreignKeys = [], tv_foreignKeyCtr = [],
                      tv_uniques = [], tv_comments = [], tv_columns = []\<rparr> w2 of
                (Inl e, w3) \<Rightarrow> (Inl e, w3)
              | (Inr tv, w3) \<Rightarrow>
               (let cw4 = writeTableBody tv cw2;
                    cw5 = writeUniques table (tv_uniques tv) cw4;
                    (refs1, w4) = fold (refs_body table table_name) (tv_foreignKeyCtr tv) (refs, w3);
                    cw6 = writeForeignKeyIndexes table (tv_foreignKeys tv) cw5
                in case writeUserIndexes cw6 table (tv_columns tv) w4 of
                     (Inl e, w5) \<Rightarrow> (Inl e, w5)
                   | (Inr cw7, w5) \<Rightarrow>
                    (let documentation = en_documentation elem;
                         cw9 = writeComments cg opts table documentation (tv_comments tv) cw7;
                         (cw10, w6) = fold (trigger_body opts table table_name) (en_tags elem) (cw9, w5)
                     in case generateInserts opts table documentation (tv_columns tv) cw10 w6 of
                          (Inl e, w7) \<Rightarrow> (Inl e, w7)
                        | (Inr cw11, w7) \<Rightarrow>
                            (Inr \<lparr>tr_codeWriter =
                                    (if \<not> truthy documentation \<and> length (tv_comments tv) = 0
                                     then cw11 else writeLine '''' cw11),
                                  tr_dropWriter = dw1, tr_refs = refs1, tr_columns = tv_columns tv\<rparr>,
                             w7)))))"

section \<open>The tables of a data model\<close>

text \<open>
  The body of \<^verbatim>\<open>diagram.ownedElements.forEach\<close> and of the flat-entity branch: the
  info toast, then \<^verbatim>\<open>generateTable\<close> on the shared writers and the shared reference
  list. \<^verbatim>\<open>generateTable\<close> returns nothing, so the callback's \<^verbatim>\<open>return false\<close>
  always runs; inside \<^verbatim>\<open>forEach\<close> it only ends that call of the callback.
\<close>

definition entity_body ::
  "codegen \<Rightarrow> options \<Rightarrow> string \<Rightarrow> string \<Rightarrow> entity
     \<Rightarrow> code_writer \<times> code_writer \<times> string list \<Rightarrow> world
     \<Rightarrow> (code_writer \<times> code_writer \<times> string list) outcome" where
  "entity_body cg opts schema prefix ent s w =
     (case s of (codeWriter, dropWriter, refs) \<Rightarrow>
      (case generateTable cg codeWriter dropWriter ent opts schema prefix refs
              (toast Info (''Generate table DDL for '' @ en_name ent) w) of
         (Inl e, w') \<Rightarrow> (Inl e, w')
       | (Inr r, w') \<Rightarrow> (Inr (tr_codeWriter r, tr_dropWriter r, tr_refs r), w')))"

text \<open>
  The variables of \<^verbatim>\<open>generateTables\<close> that outlive one owned element:
  \<^verbatim>\<open>tableCodeWriter\<close>, \<^verbatim>\<open>tableDropWriter\<close>, \<^verbatim>\<open>refs\<close> and \<^verbatim>\<open>tableRefs\<close>. All four
  are created once, before the loop over the owned elements.
\<close>

record tables_vars =
  gv_tableCodeWriter :: code_writer
  gv_tableDropWriter :: code_writer
  gv_refs :: "string list"
  gv_tableRefs :: "string list"

definition diagram_body ::
  "codegen \<Rightarrow> string \<Rightarrow> options \<Rightarrow> string \<Rightarrow> string \<Rightarrow> diagram \<Rightarrow> tables_vars \<Rightarrow> world
     \<Rightarrow> tables_vars outcome" where
  "diagram_body cg path opts schema dataModelName dg gv w =
     (let codeWriter = CodeWriter (getIndentString opts);
          dropWriter = CodeWriter (getIndentString opts);
          prefix = stringTag ''prefix'' (dg_tags dg)
      in case forEach (entity_body cg opts schema prefix) (dg_ownedElements dg)
                (codeWriter, dropWriter, gv_refs gv) w of
           (Inl e, w1) \<Rightarrow> (Inl e, w1)
         | (Inr (cw1, dw1, refs1), w1) \<Rightarrow>
            (let cw2 = writeLines refs1 cw1;
                 diagName = toLowerCase (replaceAll (dg_name dg) CHR '' '' CHR ''_'');
                 w2 = (if hasContent cw2 then
                         (let w' = writeFileSync (path @ ''/'' @ dataModelName @ ''_'' @ diagName
                                     @ ''_create.sql'') (getData cw2) w1
                          in if opt_dropStatements opts
                             then writeFileSync (path @ ''/'' @ dataModelName @ ''_'' @ diagName
                                    @ ''_drop.sql'') (getData dw1) w'
                             else w')
                       else w1)
             in (Inr (gv\<lparr>gv_refs := refs1\<rparr>), w2)))"

definition owned_body ::
  "codegen \<Rightarrow> string \<Rightarrow> options \<Rightarrow> string \<Rightarrow> string \<Rightarrow> dm_owned \<Rightarrow> tables_vars \<Rightarrow> world
     \<Rightarrow> tables_vars outcome" where
  "owned_body cg path opts schema dataModelName ow gv w =
     (case ow of
        OwnedDiagram dg \<Rightarrow> diagram_body cg path opts schema dataModelName dg gv w
      | OwnedEntity ent \<Rightarrow>
          (case entity_body cg opts schema '''' ent
                  (gv_tableCodeWriter gv, gv_tableDropWriter gv, gv_tableRefs gv) w of
             (Inl e, w1) \<Rightarrow> (Inl e, w1)
           | (Inr (cw1, dw1, refs1), w1) \<Rightarrow>
               (Inr (gv\<lparr>gv_tableCodeWriter := cw1, gv_tableDropWriter := dw1, gv_tableRefs := refs1\<rparr>), w1))
      | OwnedOther \<Rightarrow> (Inr gv, w))"

definition generateTables ::
  "codegen \<Rightarrow> data_model \<Rightarrow> string \<Rightarrow> options \<Rightarrow> string \<Rightarrow> string \<Rightarrow> world \<Rightarrow> bool outcome" where
  "generateTables cg elem path opts schema dataModelName w =
     (case forEach (owned_body cg path opts schema dataModelName) (dm_ownedElements elem)
             \<lparr>gv_tableCodeWriter = CodeWriter (getIndentString opts),
              gv_tableDropWriter = CodeWriter (getIndentString opts),
              gv_refs = [], gv_tableRefs = []\<rparr> w of
        (Inl e, w1) \<Rightarrow> (Inl e, w1)
      | (Inr gv, w1) \<Rightarrow>
          (if hasContent (gv_tableCodeWriter gv) then
             (let cw = writeLines (gv_tableRefs gv) (gv_tableCodeWriter gv);
                  w2 = writeFileSync (path @ ''/'' @ dataModelName @ ''_table_create.sql'') (getData cw) w1
              in (Inr True,
                  if opt_dropStatements opts
                  then writeFileSync (path @ ''/'' @ dataModelName @ ''_table_drop.sql'')
                         (getData (gv_tableDropWriter gv)) w2
                  else w2))
           else (Inr True, w1)))"

section \<open>Functions and procedures\<close>





section \<open>Schemas, the database, and the whole run\<close>






section \<open>Notions used to state the properties\<close>

text \<open>
  The identifier \<^verbatim>\<open>columnName\<close> resolves for a column (empty when validation fails);
  it does not depend on the world the call starts in.
\<close>

definition column_identifier :: "column \<Rightarrow> string" where
  "column_identifier c =
     fst (columnName (col_name c) (col_tags c) \<lparr>toasts = [], dialogs = [], files = []\<rparr>)"

text \<open>The columns whose name resolves, and among them the key and the unique columns.\<close>

definition named_columns :: "column list \<Rightarrow> column list" where
  "named_columns cols = filter (\<lambda>c. column_identifier c \<noteq> '''') cols"

definition primaryKey_names :: "column list \<Rightarrow> string list" where
  "primaryKey_names cols =
     map column_identifier (filter (\<lambda>c. col_primaryKey c \<and> column_identifier c \<noteq> '''') cols)"

definition unique_names :: "column list \<Rightarrow> string list" where
  "unique_names cols =
     map column_identifier
       (filter (\<lambda>c. col_unique c \<and> \<not> col_primaryKey c \<and> column_identifier c \<noteq> '''') cols)"

text \<open>
  Frame conditions. A block \<open>extends\<close> a writer when it only appends lines and leaves
  the indentation as it found it; two columns are the \<open>same_ident\<close> when they differ at
  most in the two fields the generator writes (\<^verbatim>\<open>type\<close>, \<^verbatim>\<open>is_enum\<close>); toasts only grow.
\<close>

definition extends :: "code_writer \<Rightarrow> code_writer \<Rightarrow> bool" where
  "extends cw cw' =
     ((\<exists>ys. cw_lines cw' = cw_lines cw @ ys) \<and> cw_indentations cw' = cw_indentations cw
      \<and> cw_indentString cw' = cw_indentString cw)"

definition same_ident :: "column \<Rightarrow> column \<Rightarrow> bool" where
  "same_ident c c' = (c' = c\<lparr>col_type := col_type c', col_is_enum := col_is_enum c'\<rparr>)"

definition toasts_grow :: "world \<Rightarrow> world \<Rightarrow> bool" where
  "toasts_grow w w' = (\<exists>ts. toasts w' = toasts w @ ts)"

text \<open>
  Two columns are the \<open>same_but_flags\<close> when they differ at most in \<^verbatim>\<open>unique\<close> and
  \<^verbatim>\<open>foreignKey\<close>. The columns that get a simple index of their own are the foreign
  keys that are neither unique nor part of the key, again with a name that resolves.
\<close>

definition same_but_flags :: "column \<Rightarrow> column \<Rightarrow> bool" where
  "same_but_flags c c' = (c' = c\<lparr>col_unique := col_unique c', col_foreignKey := col_foreignKey c'\<rparr>)"

definition foreignKey_names :: "column list \<Rightarrow> string list" where
  "foreignKey_names cols =
     map column_identifier
       (filter (\<lambda>c. col_foreignKey c \<and> \<not> col_unique c \<and> \<not> col_primaryKey c
                  \<and> column_identifier c \<noteq> '''') cols)"

text \<open>
  A writer with lines put in front of its own. What a block appends depends on the
  indentation only, so a block commutes with \<open>prepend\<close>.
\<close>

definition prepend :: "string list \<Rightarrow> code_writer \<Rightarrow> code_writer" where
  "prepend ls cw = cw\<lparr>cw_lines := ls @ cw_lines cw\<rparr>"

text \<open>
  How the world changes. \<open>only_toasts\<close>: toasts are added and nothing else changes;
  \<open>world_grows\<close>: toasts and files are added, none is taken away. \<open>added_toasts\<close> and
  \<open>added_files\<close> are what the second world has beyond the first.
\<close>

definition only_toasts :: "world \<Rightarrow> world \<Rightarrow> bool" where
  "only_toasts w w' =
     ((\<exists>ts. toasts w' = toasts w @ ts) \<and> files w' = files w \<and> dialogs w' = dialogs w)"

definition world_grows :: "world \<Rightarrow> world \<Rightarrow> bool" where
  "world_grows w w' = ((\<exists>ts. toasts w' = toasts w @ ts) \<and> (\<exists>fs. files w' = files w @ fs))"







text \<open>
  What a run leaves behind. A text \<open>occurs_in\<close> another when \<^verbatim>\<open>indexOf\<close> finds it; a
  writer \<open>wrote\<close> a statement that occurs in one of its lines; \<open>file_with\<close> says that a
  file of the given name was written whose content has the statement. A table is
  generated when its info toast was shown and its \<^verbatim>\<open>CREATE TABLE\<close> line is in the
  create file; a routine, when its toast was shown and its \<^verbatim>\<open>CREATE OR REPLACE\<close> line is
  in the create file of its kind. A data model is generated when all its function and
  procedure tags, all its entities (its own and those of its diagrams) are, and when a
  schema other than \<^verbatim>\<open>public\<close> has its \<^verbatim>\<open>CREATE SCHEMA\<close> line in the schema file.
\<close>

definition occurs_in :: "string \<Rightarrow> string \<Rightarrow> bool" where
  "occurs_in p s = (indexOf s p \<noteq> - 1)"

definition wrote :: "code_writer \<Rightarrow> string \<Rightarrow> bool" where
  "wrote cw stmt = (\<exists>l \<in> set (cw_lines cw). occurs_in stmt l)"







section \<open>Example models\<close>

text \<open>Concrete inputs on which the theorems below are evaluated.\<close>

definition ex_codegen :: codegen where
  "ex_codegen = \<lparr>cg_asComment = (\<lambda>s. [CHR 0x27] @ s @ [CHR 0x27]), cg_enumAsList = (\<lambda>s. s)\<rparr>"

definition ex_options :: options where
  "ex_options =
     \<lparr>opt_useTab = False, opt_indentSpaces = 2, opt_owner = ''postgres'', opt_encoding = ''UTF8'',
      opt_tablespace = ''pg_default'', opt_collation = ''default'', opt_dropStatements = True,
      opt_foreignKeyConstraint = True, opt_tableInserts = False, opt_trigger = ''trigger'',
      opt_function = ''function'', opt_procedure = ''procedure''\<rparr>"

definition ex_world :: world where
  "ex_world = \<lparr>toasts = [], dialogs = [], files = []\<rparr>"

definition ex_column :: "string \<Rightarrow> string \<Rightarrow> column" where
  "ex_column n ty =
     \<lparr>col_name = n, col_tags = [], col_type = ty, col_length = None, col_primaryKey = False,
      col_unique = False, col_foreignKey = False, col_nullable = True, col_documentation = None,
      col_is_enum = False, col_referenceTo = None\<rparr>"

definition ex_tag :: "string \<Rightarrow> string \<Rightarrow> tag" where
  "ex_tag n v =
     \<lparr>tg_name = n, tg_kind = TK_STRING, tg_value = v, tg_number = 0, tg_checked = False,
      tg_reference = None\<rparr>"

text \<open>
  An auto-increment key (\<^verbatim>\<open>INTEGER\<close>, length \<open>-1\<close>) that also carries a
  \<^verbatim>\<open>default\<close> annotation, and a text column with one.
\<close>

definition ex_id_column :: column where
  "ex_id_column = (ex_column ''id'' ''INTEGER'')\<lparr>col_length := Some (- 1), col_primaryKey := True,
     col_nullable := False, col_tags := [ex_tag ''default'' ''5'']\<rparr>"

definition ex_note_column :: column where
  "ex_note_column = (ex_column ''note'' ''TEXT'')\<lparr>col_tags := [ex_tag ''default'' ''0'']\<rparr>"


definition ex_entity :: "string \<Rightarrow> column list \<Rightarrow> entity" where
  "ex_entity n cols = \<lparr>en_name = n, en_tags = [], en_columns = cols, en_documentation = Some ''''\<rparr>"

definition ex_writer :: code_writer where
  "ex_writer = CodeWriter ''  ''"

text \<open>An entity whose display name does not normalise to an identifier, and a sibling.\<close>

definition ex_bad_entity :: entity where
  "ex_bad_entity = ex_entity ''Order Item!'' [ex_id_column]"

definition ex_customer_entity :: entity where
  "ex_customer_entity = ex_entity ''Customer'' [ex_id_column]"

text \<open>
  A data model with two diagrams: the first holds a table with a foreign key, the
  second a table without any.
\<close>

definition ex_customer_ref :: ref_target where
  "ex_customer_ref = \<lparr>rt_column_name = ''id'', rt_column_tags = [], rt_table_name = ''Customer'',
     rt_table_tags = [], rt_table_parent = Some (Node KDiagram [] (Some (Node KDataModel [] None)))\<rparr>"

definition ex_orders_entity :: entity where
  "ex_orders_entity = ex_entity ''Orders''
     [ex_id_column,
      (ex_column ''customer id'' ''INTEGER'')\<lparr>col_foreignKey := True,
         col_referenceTo := Some ex_customer_ref\<rparr>]"

definition ex_audit_entity :: entity where
  "ex_audit_entity = ex_entity ''Audit'' [ex_column ''note'' ''TEXT'']"

definition ex_shop :: data_model where
  "ex_shop = \<lparr>dm_name = ''Shop'', dm_tags = [], dm_documentation = None,
     dm_ownedElements =
       [OwnedDiagram \<lparr>dg_name = ''Sales'', dg_tags = [], dg_ownedElements = [ex_orders_entity]\<rparr>,
        OwnedDiagram \<lparr>dg_name = ''Log'', dg_tags = [], dg_ownedElements = [ex_audit_entity]\<rparr>]\<rparr>"


text \<open>
  Columns \<^verbatim>\<open>A\<close> (sequence 2, ascending) and \<^verbatim>\<open>B\<close> (sequence 1, descending) tagged
  with one index name.
\<close>

definition ex_index_tag :: "string \<Rightarrow> int \<Rightarrow> bool \<Rightarrow> tag" where
  "ex_index_tag n k b = \<lparr>tg_name = n, tg_kind = TK_STRING, tg_value = ''index'', tg_number = k,
     tg_checked = b, tg_reference = None\<rparr>"

definition ex_index_columns :: "string \<Rightarrow> column list" where
  "ex_index_columns idxName =
     [(ex_column ''A'' ''TEXT'')\<lparr>col_tags := [ex_index_tag idxName 2 False]\<rparr>,
      (ex_column ''B'' ''TEXT'')\<lparr>col_tags := [ex_index_tag idxName 1 True]\<rparr>]"

text \<open>
  A key column and a unique column whose names fail validation, and a table with a
  two-column key and two unique columns.
\<close>

definition ex_lost_key_entity :: entity where
  "ex_lost_key_entity = ex_entity ''Invoice''
     [(ex_column ''invoice no!'' ''INTEGER'')\<lparr>col_primaryKey := True, col_nullable := False\<rparr>,
      ex_column ''note'' ''TEXT'']"

definition ex_lost_unique_entity :: entity where
  "ex_lost_unique_entity = ex_entity ''Member''
     [ex_id_column, (ex_column ''nick name!'' ''TEXT'')\<lparr>col_unique := True\<rparr>]"

definition ex_keys_entity :: entity where
  "ex_keys_entity = ex_entity ''Booking''
     [(ex_column ''room'' ''INTEGER'')\<lparr>col_primaryKey := True, col_unique := True,
         col_nullable := False\<rparr>,
      (ex_column ''day'' ''DATE'')\<lparr>col_primaryKey := True, col_nullable := False\<rparr>,
      (ex_column ''email'' ''TEXT'')\<lparr>col_unique := True\<rparr>,
      (ex_column ''code'' ''TEXT'')\<lparr>col_unique := True\<rparr>,
      ex_column ''note'' ''TEXT'']"

text \<open>Seed data for a two-column table, and the option that turns it into inserts.\<close>

definition ex_seed_entity :: entity where
  "ex_seed_entity = \<lparr>en_name = ''person'', en_tags = [],
     en_columns = [ex_column ''name'' ''TEXT'', ex_column ''age'' ''INTEGER''],
     en_documentation = Some (''Alice|30'' @ [newline] @ ''Bob|'')\<rparr>"

definition ex_insert_options :: options where
  "ex_insert_options = ex_options\<lparr>opt_tableInserts := True\<rparr>"




text \<open>The booking table with every \<^verbatim>\<open>unique\<close> flag cleared.\<close>

definition ex_keys_plain_columns :: "column list" where
  "ex_keys_plain_columns = map (\<lambda>c. c\<lparr>col_unique := False\<rparr>) (en_columns ex_keys_entity)"

section \<open>Facts about the string primitives\<close>

lemma startsWith_iff: "startsWith s p \<longleftrightarrow> (\<exists>b. s = p @ b)"
  by (induction s p rule: startsWith.induct) auto

lemma indexOf_from_none:
  "indexOf_from i s p = - 1 \<longleftrightarrow> \<not> (\<exists>a b. s = a @ p @ b)" if "0 \<le> i"
  using that
proof (induction i s p rule: indexOf_from.induct)
  case (1 i p)
  then show ?case by auto
next
  case (2 i c cs p)
  show ?case
  proof (cases "startsWith (c # cs) p")
    case True
    then obtain b where "c # cs = [] @ p @ b"
      by (auto simp: startsWith_iff)
    then have "\<exists>a b. c # cs = a @ p @ b"
      by blast
    with True 2 show ?thesis
      by auto
  next
    case False
    have "(\<exists>a b. c # cs = a @ p @ b) \<longleftrightarrow> (\<exists>a b. cs = a @ p @ b)"
    proof
      assume "\<exists>a b. c # cs = a @ p @ b"
      then obtain a b where ab: "c # cs = a @ p @ b"
        by blast
      show "\<exists>a b. cs = a @ p @ b"
      proof (cases a)
        case Nil
        with ab have "startsWith (c # cs) p"
          by (auto simp: startsWith_iff)
        with False show ?thesis
          by simp
      next
        case (Cons x a')
        with ab have "cs = a' @ p @ b"
          by simp
        then show ?thesis
          by blast
      qed
    next
      assume "\<exists>a b. cs = a @ p @ b"
      then obtain a b where "c # cs = (c # a) @ p @ b"
        by auto
      then show "\<exists>a b. c # cs = a @ p @ b"
        by blast
    qed
    with False 2 show ?thesis
      by simp
  qed
qed

text \<open>\<^verbatim>\<open>s.indexOf(p) == -1\<close> says exactly that \<open>p\<close> does not occur in \<open>s\<close>.\<close>

lemma indexOf_none: "indexOf s p = - 1 \<longleftrightarrow> \<not> (\<exists>a b. s = a @ p @ b)"
  by (simp add: indexOf_def indexOf_from_none)

section \<open>Facts about the writer, the loops and the table statement\<close>

lemma writeLine_lines [simp]:
  "cw_lines (writeLine l cw) = cw_lines cw @ [if l = [] then [] else concat (cw_indentations cw) @ l]"
  by (simp add: writeLine_def)

lemma writeLine_frame [simp]:
  "cw_indentations (writeLine l cw) = cw_indentations cw"
  "cw_indentString (writeLine l cw) = cw_indentString cw"
  by (simp_all add: writeLine_def)

lemma indent_simps [simp]:
  "cw_lines (indent cw) = cw_lines cw"
  "cw_indentations (indent cw) = cw_indentations cw @ [cw_indentString cw]"
  "cw_indentString (indent cw) = cw_indentString cw"
  by (simp_all add: indent_def)

lemma outdent_simps [simp]:
  "cw_lines (outdent cw) = cw_lines cw"
  "cw_indentations (outdent cw) = butlast (cw_indentations cw)"
  "cw_indentString (outdent cw) = cw_indentString cw"
  by (simp_all add: outdent_def)

lemma writeLines_lines [simp]:
  "cw_lines (writeLines ls cw) =
     cw_lines cw @ map (\<lambda>l. if l = [] then [] else concat (cw_indentations cw) @ l) ls"
  "cw_indentations (writeLines ls cw) = cw_indentations cw"
  "cw_indentString (writeLines ls cw) = cw_indentString cw"
  by (induction ls arbitrary: cw) simp_all

lemma extends_refl [simp]: "extends cw cw"
  by (simp add: extends_def)

lemma extends_trans: "extends a b \<Longrightarrow> extends b c \<Longrightarrow> extends a c"
  by (auto simp: extends_def)

lemma extends_writeLine [simp]: "extends cw (writeLine l cw)"
  by (simp add: extends_def)

lemma extends_writeLine_trans: "extends a b \<Longrightarrow> extends a (writeLine l b)"
  by (auto simp: extends_def)

lemma extends_fold:
  assumes "\<And>x cw. extends cw (f x cw)"
  shows "extends cw (fold f xs cw)"
proof (induction xs arbitrary: cw)
  case Nil
  show ?case by simp
next
  case (Cons x xs)
  from assms [of cw x] Cons [of "f x cw"] show ?case
    by (auto intro: extends_trans)
qed

lemma extends_fk_index_body: "extends cw (fk_index_body table fk cw)"
  by (simp add: extends_def fk_index_body_def)

lemma extends_comment_body: "extends cw (comment_body table c cw)"
  by (simp add: extends_def comment_body_def)

lemma extends_index_body: "extends cw (index_body table g cw)"
  by (simp add: extends_def index_body_def Let_def)

lemma extends_insert_body: "extends cw (insert_body h n e cw)"
  by (simp add: extends_def insert_body_def)

lemma extends_writeUniques: "extends cw (writeUniques table us cw)"
  by (simp add: extends_def writeUniques_def)

lemma extends_writeForeignKeyIndexes: "extends cw (writeForeignKeyIndexes table fks cw)"
  unfolding writeForeignKeyIndexes_def
  by (auto intro!: extends_writeLine_trans extends_fold extends_fk_index_body)

lemma extends_writeComments: "extends cw (writeComments cg opts table d cs cw)"
proof -
  have "extends cw (if truthy d \<and> \<not> opt_tableInserts opts
                 then outdent (writeLine (''IS '' @ cg_asComment cg (the d) @ '';'')
                        (indent (writeLine (''COMMENT ON TABLE '' @ table) cw)))
                 else cw)" (is "extends cw ?c")
    by (simp add: extends_def)
  moreover have "extends ?c (fold (comment_body table) cs ?c)"
    by (rule extends_fold) (rule extends_comment_body)
  ultimately show ?thesis
    unfolding writeComments_def Let_def by (rule extends_trans)
qed

lemma extends_writeUserIndexes:
  assumes "writeUserIndexes cw table cols w = (Inr cw', w')"
  shows "extends cw cw'"
proof -
  have "extends cw (writeLine '''' (fold (index_body table) gs cw))" for gs
    by (intro extends_writeLine_trans extends_fold extends_index_body)
  with assms show ?thesis
    by (auto simp: writeUserIndexes_def Let_def split: prod.splits sum.splits)
qed

lemma trigger_fold_extends:
  "fold (trigger_body opts table tn) ts (cw, w) = (cw', w') \<Longrightarrow> extends cw cw'"
proof (induction ts arbitrary: cw w)
  case Nil
  then show ?case by simp
next
  case (Cons t ts)
  obtain cw1 w1 where step: "trigger_body opts table tn t (cw, w) = (cw1, w1)"
    by (cases "trigger_body opts table tn t (cw, w)")
  then have "extends cw cw1"
    by (auto simp: trigger_body_def extends_def Let_def split: if_splits prod.splits)
  moreover from Cons.prems step have "extends cw1 cw'"
    by (auto intro: Cons.IH)
  ultimately show ?case
    by (rule extends_trans)
qed

lemma insert_line_nonempty [simp]: "insert_line h n e \<noteq> []"
  by (simp add: insert_line_def)

lemma fold_insert_body:
  "cw_lines (fold (insert_body h n) ls cw) =
     cw_lines cw @ concat (map (\<lambda>l. [concat (cw_indentations cw) @ insert_line h n l, '''']) ls)"
  "cw_indentations (fold (insert_body h n) ls cw) = cw_indentations cw"
  "cw_indentString (fold (insert_body h n) ls cw) = cw_indentString cw"
  by (induction ls arbitrary: cw) (simp_all add: insert_body_def)

lemma generateInserts_cases:
  assumes "generateInserts opts table d cols cw w = (Inr cw', w')"
  shows "(opt_tableInserts opts \<and> (\<exists>t. d = Some t \<and> trim t \<noteq> []) \<and>
          cw' = writeLine '''' (fold (insert_body
                  (fst (insertInto_loop cols (''INSERT INTO '' @ table @ '' ('') w) @ '' ) VALUES ( '')
                  (length cols)) (split newline (trim (the d))) (writeLine '''' cw)))
         \<or> cw' = cw"
  using assms
  by (auto simp: generateInserts_def Let_def split: if_splits option.splits prod.splits)

lemma extends_generateInserts:
  assumes "generateInserts opts table d cols cw w = (Inr cw', w')"
  shows "extends cw cw'"
  using generateInserts_cases [OF assms]
  by (auto simp: extends_def fold_insert_body)

lemma columnName_fst: "fst (columnName n ts w) = fst (columnName n ts w0)"
  by (simp add: columnName_def Let_def)

lemma columnName_identifier: "columnName (col_name c) (col_tags c) w = (n, w') \<Longrightarrow> n = column_identifier c"
  unfolding column_identifier_def
  by (metis columnName_fst fst_conv)

lemma same_ident_refl [simp]: "same_ident c c"
  by (simp add: same_ident_def)

lemma same_ident_fields:
  assumes "same_ident c c'"
  shows "col_name c' = col_name c" "col_tags c' = col_tags c" "col_primaryKey c' = col_primaryKey c"
    "col_unique c' = col_unique c" "column_identifier c' = column_identifier c"
proof -
  from assms have eq: "c' = c\<lparr>col_type := col_type c', col_is_enum := col_is_enum c'\<rparr>"
    by (simp add: same_ident_def)
  show "col_name c' = col_name c" by (subst eq) simp
  show "col_tags c' = col_tags c" by (subst eq) simp
  show "col_primaryKey c' = col_primaryKey c" by (subst eq) simp
  show "col_unique c' = col_unique c" by (subst eq) simp
  show "column_identifier c' = column_identifier c"
    unfolding column_identifier_def by (subst (1 2) eq) simp
qed

lemma same_ident_trans: "same_ident a b \<Longrightarrow> same_ident b c \<Longrightarrow> same_ident a c"
  unfolding same_ident_def
  by (metis (no_types, lifting) column.surjective column.update_convs(3,10))

lemma same_ident_names:
  assumes "list_all2 same_ident cols cols'"
  shows "primaryKey_names cols' = primaryKey_names cols" "unique_names cols' = unique_names cols"
    "map column_identifier cols' = map column_identifier cols"
  using assms
  by (induction rule: list_all2_induct)
    (auto simp: primaryKey_names_def unique_names_def same_ident_fields)

lemma enums_body_step:
  assumes "enums_body cg table col (cw, de, acc) w = (Inr (cw1, de1, acc1), w1)"
  shows "extends cw cw1 \<and> (\<exists>c'. acc1 = acc @ [c'] \<and> same_ident col c')"
proof (cases "dataType col")
  case (Inl e)
  with assms show ?thesis
    by (simp add: enums_body_def)
next
  case (Inr ty)
  show ?thesis
  proof (cases "ty \<noteq> '''' \<and> toLowerCase ty = ''enum'' \<and> stringTag ty (col_tags col) \<noteq> ''''")
    case True
    obtain n w2 where n: "columnName (col_name col) (col_tags col) w = (n, w2)"
      by (cases "columnName (col_name col) (col_tags col) w")
    from assms Inr True n
    have "acc1 = acc @ [col\<lparr>col_type := table @ ''_'' @ n, col_is_enum := True\<rparr>]"
      and "extends cw cw1"
      by (auto simp: enums_body_def Let_def extends_def)
    then show ?thesis
      by (auto simp: same_ident_def)
  next
    case False
    with assms Inr have "acc1 = acc @ [col]" "cw1 = cw"
      by (auto simp: enums_body_def)
    then show ?thesis
      by simp
  qed
qed

lemma enums_loop:
  assumes "forEach (enums_body cg table) cols (cw, de, acc) w = (Inr (cw', de', acc'), w')"
  shows "extends cw cw' \<and> (\<exists>cols'. acc' = acc @ cols' \<and> list_all2 same_ident cols cols')"
  using assms
proof (induction cols arbitrary: cw de acc w)
  case Nil
  then show ?case by simp
next
  case (Cons col cols)
  from Cons.prems obtain cw1 de1 acc1 w1
    where step: "enums_body cg table col (cw, de, acc) w = (Inr (cw1, de1, acc1), w1)"
      and rest: "forEach (enums_body cg table) cols (cw1, de1, acc1) w1 = (Inr (cw', de', acc'), w')"
    by (auto split: prod.splits sum.splits)
  from enums_body_step [OF step] obtain c' where
    c': "extends cw cw1" "acc1 = acc @ [c']" "same_ident col c'"
    by blast
  from Cons.IH [OF rest] obtain cols' where
    cols': "extends cw1 cw'" "acc' = acc1 @ cols'" "list_all2 same_ident cols cols'"
    by blast
  from c' cols' have "acc' = acc @ (c' # cols')" "list_all2 same_ident (col # cols) (c' # cols')"
    by simp_all
  with c'(1) cols'(1) show ?case
    by (blast intro: extends_trans)
qed

lemma columnDeclaration_line:
  assumes "columnDeclaration cg n c cs d = Inr (line, c', cs')"
  shows "line \<noteq> [] \<and> same_ident c c'"
  using assms
  by (auto simp: columnDeclaration_def Let_def same_ident_def split: sum.splits if_splits)

lemma columns_body_step:
  assumes "columns_body cg opts col tv w = (Inr tv', w')"
  shows "tv_primaryKeys tv' = tv_primaryKeys tv @ primaryKey_names [col]
     \<and> tv_uniques tv' = tv_uniques tv @ unique_names [col]
     \<and> (\<exists>ls. tv_lines tv' = tv_lines tv @ ls \<and> list_all (\<lambda>l. l \<noteq> []) ls
           \<and> length ls = length (named_columns [col]))
     \<and> (\<exists>c'. tv_columns tv' = tv_columns tv @ [c'] \<and> same_ident col c')"
proof -
  obtain n w1 where n: "columnName (col_name col) (col_tags col) w = (n, w1)"
    by (cases "columnName (col_name col) (col_tags col) w")
  then have id: "n = column_identifier col"
    by (rule columnName_identifier)
  show ?thesis
  proof (cases "n = ''''")
    case True
    with assms n have "tv' = tv\<lparr>tv_columns := tv_columns tv @ [col]\<rparr>"
      by (auto simp: columns_body_def Let_def)
    with True id show ?thesis
      by (simp add: primaryKey_names_def unique_names_def named_columns_def)
  next
    case False
    define tv1 where "tv1 =
      (if n \<noteq> '''' then
         (if col_primaryKey col then tv\<lparr>tv_primaryKeys := tv_primaryKeys tv @ [n]\<rparr>
          else if col_unique col then tv\<lparr>tv_uniques := tv_uniques tv @ [n]\<rparr>
          else if n \<noteq> '''' \<and> col_foreignKey col \<and> \<not> col_primaryKey col
          then tv\<lparr>tv_foreignKeys := tv_foreignKeys tv @ [n]\<rparr> else tv)
       else tv)"
    define tv2 where "tv2 =
      (if n \<noteq> '''' \<and> opt_foreignKeyConstraint opts \<and> col_referenceTo col \<noteq> None
       then tv1\<lparr>tv_foreignKeyCtr := tv_foreignKeyCtr tv1 @ [col]\<rparr> else tv1)"
    have body: "columns_body cg opts col tv w =
      (case columnDeclaration cg n col (tv_comments tv2) (columnDefault col) of
         Inl e \<Rightarrow> (Inl e, w1)
       | Inr (line, col', comments') \<Rightarrow>
           (Inr (tv2\<lparr>tv_lines := tv_lines tv2 @ [line], tv_comments := comments',
                     tv_columns := tv_columns tv2 @ [col']\<rparr>), w1))"
      unfolding columns_body_def Let_def tv1_def tv2_def using n False by simp
    from assms obtain line c' cs' where
      decl: "columnDeclaration cg n col (tv_comments tv2) (columnDefault col) = Inr (line, c', cs')"
      and tv': "tv' = tv2\<lparr>tv_lines := tv_lines tv2 @ [line], tv_comments := cs',
                          tv_columns := tv_columns tv2 @ [c']\<rparr>"
      unfolding body by (auto split: sum.splits)
    from columnDeclaration_line [OF decl] have line: "line \<noteq> []" "same_ident col c'"
      by simp_all
    have "tv_primaryKeys tv2 = tv_primaryKeys tv @ primaryKey_names [col]"
      "tv_uniques tv2 = tv_uniques tv @ unique_names [col]"
      "tv_lines tv2 = tv_lines tv" "tv_columns tv2 = tv_columns tv"
      using False id by (auto simp: tv1_def tv2_def primaryKey_names_def unique_names_def)
    with tv' line False id show ?thesis
      by (simp add: named_columns_def)
  qed
qed

lemma names_Cons:
  "primaryKey_names (c # cs) = primaryKey_names [c] @ primaryKey_names cs"
  "unique_names (c # cs) = unique_names [c] @ unique_names cs"
  by (simp_all add: primaryKey_names_def unique_names_def)

lemma columns_loop:
  assumes "forEach (columns_body cg opts) cols tv w = (Inr tv', w')"
  shows "tv_primaryKeys tv' = tv_primaryKeys tv @ primaryKey_names cols
     \<and> tv_uniques tv' = tv_uniques tv @ unique_names cols
     \<and> (\<exists>ls. tv_lines tv' = tv_lines tv @ ls \<and> list_all (\<lambda>l. l \<noteq> []) ls
           \<and> length ls = length (named_columns cols))
     \<and> (\<exists>cols'. tv_columns tv' = tv_columns tv @ cols' \<and> list_all2 same_ident cols cols')"
  using assms
proof (induction cols arbitrary: tv w)
  case Nil
  then show ?case
    by (simp add: primaryKey_names_def unique_names_def named_columns_def)
next
  case (Cons col cols)
  from Cons.prems obtain tv1 w1
    where step: "columns_body cg opts col tv w = (Inr tv1, w1)"
      and rest: "forEach (columns_body cg opts) cols tv1 w1 = (Inr tv', w')"
    by (auto split: prod.splits sum.splits)
  from columns_body_step [OF step] obtain ls1 c' where s1:
    "tv_primaryKeys tv1 = tv_primaryKeys tv @ primaryKey_names [col]"
    "tv_uniques tv1 = tv_uniques tv @ unique_names [col]"
    "tv_lines tv1 = tv_lines tv @ ls1" "list_all (\<lambda>l. l \<noteq> []) ls1"
    "length ls1 = length (named_columns [col])"
    "tv_columns tv1 = tv_columns tv @ [c']" "same_ident col c'"
    by blast
  from Cons.IH [OF rest] obtain ls2 cols' where s2:
    "tv_primaryKeys tv' = tv_primaryKeys tv1 @ primaryKey_names cols"
    "tv_uniques tv' = tv_uniques tv1 @ unique_names cols"
    "tv_lines tv' = tv_lines tv1 @ ls2" "list_all (\<lambda>l. l \<noteq> []) ls2"
    "length ls2 = length (named_columns cols)"
    "tv_columns tv' = tv_columns tv1 @ cols'" "list_all2 same_ident cols cols'"
    by blast
  have "tv_lines tv' = tv_lines tv @ (ls1 @ ls2)" "list_all (\<lambda>l. l \<noteq> []) (ls1 @ ls2)"
    "length (ls1 @ ls2) = length (named_columns (col # cols))"
    "tv_columns tv' = tv_columns tv @ (c' # cols')" "list_all2 same_ident (col # cols) (c' # cols')"
    using s1 s2 by (simp_all add: named_columns_def)
  moreover have "tv_primaryKeys tv' = tv_primaryKeys tv @ primaryKey_names (col # cols)"
    "tv_uniques tv' = tv_uniques tv @ unique_names (col # cols)"
    using s1 s2 names_Cons [of col cols] by simp_all
  ultimately show ?case
    by blast
qed

lemma toasts_grow_refl [simp]: "toasts_grow w w"
  by (simp add: toasts_grow_def)

lemma toasts_grow_trans: "toasts_grow a b \<Longrightarrow> toasts_grow b c \<Longrightarrow> toasts_grow a c"
  by (auto simp: toasts_grow_def)

lemma toasts_grow_toast [simp]: "toasts_grow w (toast sev msg w)"
  by (simp add: toasts_grow_def toast_def)

lemma columnName_grow: "columnName n ts w = (x, w') \<Longrightarrow> toasts_grow w w'"
  by (auto simp: columnName_def Let_def split: if_splits)

lemma tableName_grow: "tableName n ts w = (x, w') \<Longrightarrow> toasts_grow w w'"
  by (auto simp: tableName_def Let_def split: if_splits)

lemma routineName_grow: "routineName t w = (x, w') \<Longrightarrow> toasts_grow w w'"
  by (auto simp: routineName_def Let_def split: if_splits)

lemma schemaName_grow: "schemaName nd w = (x, w') \<Longrightarrow> toasts_grow w w'"
  by (auto simp: schemaName_def Let_def split: if_splits option.splits node.splits elem_kind.splits)

lemma forEach_grow:
  assumes "\<And>x s w r w'. f x s w = (r, w') \<Longrightarrow> toasts_grow w w'"
    and "forEach f xs s w = (r, w')"
  shows "toasts_grow w w'"
  using assms(2)
proof (induction xs arbitrary: s w)
  case Nil
  then show ?case by simp
next
  case (Cons x xs)
  obtain r1 w1 where step: "f x s w = (r1, w1)"
    by (cases "f x s w")
  then have g1: "toasts_grow w w1"
    by (rule assms(1))
  show ?case
  proof (cases r1)
    case (Inl e)
    with Cons.prems step g1 show ?thesis by simp
  next
    case (Inr s1)
    with Cons.prems step have "forEach f xs s1 w1 = (r, w')" by simp
    then have "toasts_grow w1 w'" by (rule Cons.IH)
    with g1 show ?thesis by (rule toasts_grow_trans)
  qed
qed

lemma enums_body_grow: "enums_body cg table col s w = (r, w') \<Longrightarrow> toasts_grow w w'"
  by (cases s) (auto simp: enums_body_def Let_def split: sum.splits if_splits prod.splits
      dest: columnName_grow)

lemma columns_body_grow: "columns_body cg opts col tv w = (r, w') \<Longrightarrow> toasts_grow w w'"
  by (auto simp: columns_body_def Let_def split: sum.splits if_splits prod.splits
      dest: columnName_grow)

lemma refs_body_grow:
  assumes "refs_body table tn col (refs, w) = (refs', w')"
  shows "toasts_grow w w'"
proof (cases "col_referenceTo col")
  case None
  with assms show ?thesis by (simp add: refs_body_def)
next
  case (Some rc)
  obtain a w1 where 1: "columnName (col_name col) (col_tags col) w = (a, w1)"
    by (cases "columnName (col_name col) (col_tags col) w")
  obtain b w2 where 2: "columnName (rt_column_name rc) (rt_column_tags rc) w1 = (b, w2)"
    by (cases "columnName (rt_column_name rc) (rt_column_tags rc) w1")
  obtain c w3 where 3: "tableName (rt_table_name rc) (rt_table_tags rc) w2 = (c, w3)"
    by (cases "tableName (rt_table_name rc) (rt_table_tags rc) w2")
  obtain d w4 where 4: "schemaName (rt_table_parent rc) w3 = (d, w4)"
    by (cases "schemaName (rt_table_parent rc) w3")
  from assms Some 1 2 3 4 have "w' = w4"
    by (simp add: refs_body_def Let_def)
  with columnName_grow [OF 1] columnName_grow [OF 2] tableName_grow [OF 3] schemaName_grow [OF 4]
  show ?thesis
    by (blast intro: toasts_grow_trans)
qed

lemma refs_fold_grow: "fold (refs_body table tn) cols (refs, w) = (refs', w') \<Longrightarrow> toasts_grow w w'"
proof (induction cols arbitrary: refs w)
  case Nil
  then show ?case by simp
next
  case (Cons c cols)
  obtain r1 w1 where step: "refs_body table tn c (refs, w) = (r1, w1)"
    by (cases "refs_body table tn c (refs, w)")
  with Cons.prems have "fold (refs_body table tn) cols (r1, w1) = (refs', w')"
    by simp
  with refs_body_grow [OF step] Cons.IH show ?case
    by (blast intro: toasts_grow_trans)
qed

lemma trigger_fold_grow:
  "fold (trigger_body opts table tn) ts (cw, w) = (cw', w') \<Longrightarrow> toasts_grow w w'"
proof (induction ts arbitrary: cw w)
  case Nil
  then show ?case by simp
next
  case (Cons t ts)
  obtain cw1 w1 where step: "trigger_body opts table tn t (cw, w) = (cw1, w1)"
    by (cases "trigger_body opts table tn t (cw, w)")
  then have "toasts_grow w w1"
    by (auto simp: trigger_body_def Let_def split: if_splits prod.splits dest: routineName_grow)
  moreover from Cons.prems step have "toasts_grow w1 w'"
    by (auto intro: Cons.IH)
  ultimately show ?case
    by (rule toasts_grow_trans)
qed

lemma idxDef_loop_grow: "idxDef_loop cols acc w = (r, w') \<Longrightarrow> toasts_grow w w'"
proof (induction cols arbitrary: acc w)
  case Nil
  then show ?case by simp
next
  case (Cons c cols)
  obtain a w1 where step: "idxDef_body c acc w = (a, w1)"
    by (cases "idxDef_body c acc w")
  then have "toasts_grow w w1"
    by (auto simp: idxDef_body_def Let_def split: prod.splits dest: columnName_grow)
  moreover from Cons.prems step have "toasts_grow w1 w'"
    by (auto intro: Cons.IH)
  ultimately show ?case
    by (rule toasts_grow_trans)
qed

lemma writeUserIndexes_grow:
  assumes "writeUserIndexes cw table cols w = (r, w')"
  shows "toasts_grow w w'"
proof -
  obtain d w1 where d: "idxDef_loop (getIndexColumns cols) [] w = (d, w1)"
    by (cases "idxDef_loop (getIndexColumns cols) [] w")
  obtain r2 w2 where r2: "forEach reduce_body d [] w1 = (r2, w2)"
    by (cases "forEach reduce_body d [] w1")
  have "toasts_grow w1 w2"
    by (rule forEach_grow [OF _ r2]) (auto simp: reduce_body_def split: if_splits)
  moreover from assms d r2 have "w' = w2"
    by (auto simp: writeUserIndexes_def Let_def split: sum.splits)
  ultimately show ?thesis
    using idxDef_loop_grow [OF d] by (blast intro: toasts_grow_trans)
qed

lemma insertInto_loop_grow: "insertInto_loop cols h w = (r, w') \<Longrightarrow> toasts_grow w w'"
proof (induction cols arbitrary: h w)
  case Nil
  then show ?case by simp
next
  case (Cons c cols)
  obtain n w1 where step: "columnName (col_name c) (col_tags c) w = (n, w1)"
    by (cases "columnName (col_name c) (col_tags c) w")
  with Cons.prems Cons.IH columnName_grow [OF step] show ?case
    by (auto intro: toasts_grow_trans)
qed

lemma generateInserts_grow:
  assumes "generateInserts opts table d cols cw w = (r, w')"
  shows "toasts_grow w w'"
proof -
  obtain h w1 where h: "insertInto_loop cols (''INSERT INTO '' @ table @ '' ('') w = (h, w1)"
    by (cases "insertInto_loop cols (''INSERT INTO '' @ table @ '' ('') w")
  from assms h have "w' = w \<or> w' = w1"
    by (auto simp: generateInserts_def Let_def split: if_splits option.splits)
  with insertInto_loop_grow [OF h] show ?thesis
    by auto
qed

lemma generateTable_InrE:
  assumes "generateTable cg cw dw e opts schema prefix refs w = (Inr r, w')"
  obtains tn w1 cw1 de cols1 w2 tv w3 refs1 w4 cw7 w5 cw10 w6 cw11 where
    "tableName (en_name e) (en_tags e) w = (tn, w1)"
    "forEach (enums_body cg (schema @ ''.'' @ prefix @ tn)) (en_columns e) (cw, [], []) w1
       = (Inr (cw1, de, cols1), w2)"
    "forEach (columns_body cg opts) cols1
       \<lparr>tv_lines = [], tv_primaryKeys = [], tv_foreignKeys = [], tv_foreignKeyCtr = [],
        tv_uniques = [], tv_comments = [], tv_columns = []\<rparr> w2 = (Inr tv, w3)"
    "fold (refs_body (schema @ ''.'' @ prefix @ tn) (prefix @ tn)) (tv_foreignKeyCtr tv) (refs, w3)
       = (refs1, w4)"
    "writeUserIndexes
       (writeForeignKeyIndexes (schema @ ''.'' @ prefix @ tn) (tv_foreignKeys tv)
          (writeUniques (schema @ ''.'' @ prefix @ tn) (tv_uniques tv)
             (writeTableBody tv
                (indent (writeLine (''CREATE TABLE '' @ (schema @ ''.'' @ prefix @ tn) @ '' ('') cw1)))))
       (schema @ ''.'' @ prefix @ tn) (tv_columns tv) w4 = (Inr cw7, w5)"
    "fold (trigger_body opts (schema @ ''.'' @ prefix @ tn) (prefix @ tn)) (en_tags e)
       (writeComments cg opts (schema @ ''.'' @ prefix @ tn) (en_documentation e) (tv_comments tv) cw7, w5)
       = (cw10, w6)"
    "generateInserts opts (schema @ ''.'' @ prefix @ tn) (en_documentation e) (tv_columns tv) cw10 w6
       = (Inr cw11, w')"
    "tr_codeWriter r =
       (if \<not> truthy (en_documentation e) \<and> length (tv_comments tv) = 0 then cw11
        else writeLine '''' cw11)"
    "tr_dropWriter r = writeLines de
       (writeLine (''DROP TABLE IF EXISTS '' @ (schema @ ''.'' @ prefix @ tn) @ '' CASCADE;'') dw)"
    "tr_refs r = refs1" "tr_columns r = tv_columns tv"
proof -
  obtain tn w1 where 1: "tableName (en_name e) (en_tags e) w = (tn, w1)"
    by (cases "tableName (en_name e) (en_tags e) w")
  define table where "table = schema @ ''.'' @ prefix @ tn"
  obtain r2 w2 where 2: "forEach (enums_body cg table) (en_columns e) (cw, [], []) w1 = (r2, w2)"
    by (cases "forEach (enums_body cg table) (en_columns e) (cw, [], []) w1")
  from assms 1 2 obtain cw1 de cols1 where r2: "r2 = Inr (cw1, de, cols1)"
    by (cases r2) (auto simp: generateTable_def table_def)
  define tv0 where "tv0 = \<lparr>tv_lines = [], tv_primaryKeys = [], tv_foreignKeys = [],
    tv_foreignKeyCtr = [], tv_uniques = [], tv_comments = ([] :: (string \<times> string) list),
    tv_columns = []\<rparr>"
  obtain r3 w3 where 3: "forEach (columns_body cg opts) cols1 tv0 w2 = (r3, w3)"
    by (cases "forEach (columns_body cg opts) cols1 tv0 w2")
  from assms 1 2 r2 3 obtain tv where r3: "r3 = Inr tv"
    by (cases r3) (auto simp: generateTable_def table_def tv0_def Let_def)
  obtain refs1 w4 where 4: "fold (refs_body table (prefix @ tn)) (tv_foreignKeyCtr tv) (refs, w3) = (refs1, w4)"
    by (cases "fold (refs_body table (prefix @ tn)) (tv_foreignKeyCtr tv) (refs, w3)")
  define cw6 where "cw6 = writeForeignKeyIndexes table (tv_foreignKeys tv)
          (writeUniques table (tv_uniques tv)
             (writeTableBody tv (indent (writeLine (''CREATE TABLE '' @ table @ '' ('') cw1))))"
  obtain r5 w5 where 5: "writeUserIndexes cw6 table (tv_columns tv) w4 = (r5, w5)"
    by (cases "writeUserIndexes cw6 table (tv_columns tv) w4")
  from assms 1 2 r2 3 r3 4 5 obtain cw7 where r5: "r5 = Inr cw7"
    by (cases r5) (auto simp: generateTable_def table_def tv0_def cw6_def Let_def)
  obtain cw10 w6 where 6: "fold (trigger_body opts table (prefix @ tn)) (en_tags e)
       (writeComments cg opts table (en_documentation e) (tv_comments tv) cw7, w5) = (cw10, w6)"
    by (cases "fold (trigger_body opts table (prefix @ tn)) (en_tags e)
       (writeComments cg opts table (en_documentation e) (tv_comments tv) cw7, w5)")
  obtain r7 w7 where 7: "generateInserts opts table (en_documentation e) (tv_columns tv) cw10 w6 = (r7, w7)"
    by (cases "generateInserts opts table (en_documentation e) (tv_columns tv) cw10 w6")
  from assms 1 2 r2 3 r3 4 5 r5 6 7 obtain cw11 where r7: "r7 = Inr cw11"
    by (cases r7) (auto simp: generateTable_def table_def tv0_def cw6_def Let_def)
  from assms 1 2 r2 3 r3 4 5 r5 6 7 r7
  have res: "w' = w7"
    "r = \<lparr>tr_codeWriter = (if \<not> truthy (en_documentation e) \<and> length (tv_comments tv) = 0
                              then cw11 else writeLine '''' cw11),
          tr_dropWriter = writeLines de
             (writeLine (''DROP TABLE IF EXISTS '' @ table @ '' CASCADE;'') dw),
          tr_refs = refs1, tr_columns = tv_columns tv\<rparr>"
    by (simp_all add: generateTable_def table_def tv0_def cw6_def Let_def)
  show thesis
    by (rule that [of tn w1 cw1 de cols1 w2 tv w3 refs1 w4 cw7 w5 cw10 w6 cw11])
      (use 1 2 r2 3 r3 4 5 r5 6 7 r7 res in \<open>simp_all add: table_def tv0_def cw6_def\<close>)
qed

lemma with_commas_snoc: "with_commas (xs @ [x]) = map (\<lambda>l. l @ '','') xs @ [x]"
  by (induction xs rule: with_commas.induct) auto

lemma with_commas_nonempty: "list_all (\<lambda>l. l \<noteq> []) ls \<Longrightarrow> list_all (\<lambda>l. l \<noteq> []) (with_commas ls)"
  by (induction ls rule: with_commas.induct) auto

lemma map_indent_nonempty:
  "list_all (\<lambda>l. l \<noteq> []) ls \<Longrightarrow> map (\<lambda>l. if l = [] then [] else i @ l) ls = map (\<lambda>l. i @ l) ls"
  by (induction ls) auto

lemma writeTableBody_lines:
  assumes "list_all (\<lambda>l. l \<noteq> []) (tv_lines tv)"
  shows "cw_lines (writeTableBody tv cw) =
     cw_lines cw
     @ map (\<lambda>l. concat (cw_indentations cw) @ l)
         (with_commas (tv_lines tv @ (if tv_primaryKeys tv = [] then []
            else [''PRIMARY KEY ('' @ join '', '' (tv_primaryKeys tv) @ '')''])))
     @ [concat (butlast (cw_indentations cw)) @ '');'', '''']"
proof -
  have "list_all (\<lambda>l. l \<noteq> []) (with_commas (tv_lines tv @ (if tv_primaryKeys tv = [] then []
            else [''PRIMARY KEY ('' @ join '', '' (tv_primaryKeys tv) @ '')''])))"
    using assms by (intro with_commas_nonempty) simp
  from map_indent_nonempty [OF this] show ?thesis
    by (simp add: writeTableBody_def Let_def)
qed

lemma writeTableBody_frame:
  "cw_indentations (writeTableBody tv cw) = butlast (cw_indentations cw)"
  "cw_indentString (writeTableBody tv cw) = cw_indentString cw"
  by (simp_all add: writeTableBody_def Let_def)

text \<open>The table statement and the uniques block, as they stand in the output.\<close>

lemma generateTable_statement:
  assumes "generateTable cg cw dw e opts schema prefix refs w = (Inr r, w')"
  shows "\<exists>pre ls post.
     cw_lines (tr_codeWriter r) =
       cw_lines cw @ pre
       @ [concat (cw_indentations cw) @ ''CREATE TABLE '' @ schema @ ''.'' @ prefix
            @ fst (tableName (en_name e) (en_tags e) w) @ '' ('']
       @ map (\<lambda>l. concat (cw_indentations cw) @ cw_indentString cw @ l)
           (with_commas (ls @ (if primaryKey_names (en_columns e) = [] then []
              else [''PRIMARY KEY ('' @ join '', '' (primaryKey_names (en_columns e)) @ '')''])))
       @ [concat (cw_indentations cw) @ '');'', '''']
       @ (if unique_names (en_columns e) = [] then []
          else [concat (cw_indentations cw) @ ''ALTER TABLE '' @ schema @ ''.'' @ prefix
                  @ fst (tableName (en_name e) (en_tags e) w),
                concat (cw_indentations cw) @ cw_indentString cw @ ''ADD UNIQUE (''
                  @ join '', '' (unique_names (en_columns e)) @ '');'',
                ''''])
       @ post
     \<and> length ls = length (named_columns (en_columns e))
     \<and> cw_indentations (tr_codeWriter r) = cw_indentations cw"
proof -
  from assms obtain tn w1 cw1 de cols1 w2 tv w3 refs1 w4 cw7 w5 cw10 w6 cw11 where
    tn: "tableName (en_name e) (en_tags e) w = (tn, w1)" and
    enums: "forEach (enums_body cg (schema @ ''.'' @ prefix @ tn)) (en_columns e) (cw, [], []) w1
       = (Inr (cw1, de, cols1), w2)" and
    cols: "forEach (columns_body cg opts) cols1
       \<lparr>tv_lines = [], tv_primaryKeys = [], tv_foreignKeys = [], tv_foreignKeyCtr = [],
        tv_uniques = [], tv_comments = [], tv_columns = []\<rparr> w2 = (Inr tv, w3)" and
    idx: "writeUserIndexes
       (writeForeignKeyIndexes (schema @ ''.'' @ prefix @ tn) (tv_foreignKeys tv)
          (writeUniques (schema @ ''.'' @ prefix @ tn) (tv_uniques tv)
             (writeTableBody tv
                (indent (writeLine (''CREATE TABLE '' @ (schema @ ''.'' @ prefix @ tn) @ '' ('') cw1)))))
       (schema @ ''.'' @ prefix @ tn) (tv_columns tv) w4 = (Inr cw7, w5)" and
    trig: "fold (trigger_body opts (schema @ ''.'' @ prefix @ tn) (prefix @ tn)) (en_tags e)
       (writeComments cg opts (schema @ ''.'' @ prefix @ tn) (en_documentation e) (tv_comments tv) cw7, w5)
       = (cw10, w6)" and
    ins: "generateInserts opts (schema @ ''.'' @ prefix @ tn) (en_documentation e) (tv_columns tv) cw10 w6
       = (Inr cw11, w')" and
    out: "tr_codeWriter r =
       (if \<not> truthy (en_documentation e) \<and> length (tv_comments tv) = 0 then cw11
        else writeLine '''' cw11)"
    by (rule generateTable_InrE)
  define table where "table = schema @ ''.'' @ prefix @ tn"
  define ind where "ind = concat (cw_indentations cw)"
  note idx = idx [folded table_def]
  note trig = trig [folded table_def]
  note ins = ins [folded table_def]
  note enums = enums [folded table_def]
  from enums_loop [OF enums] obtain cols' where
    e1: "extends cw cw1" and cols': "cols1 = cols'" "list_all2 same_ident (en_columns e) cols'"
    by auto
  from e1 obtain pre where pre: "cw_lines cw1 = cw_lines cw @ pre"
    and fr1: "cw_indentations cw1 = cw_indentations cw" "cw_indentString cw1 = cw_indentString cw"
    by (auto simp: extends_def)
  from columns_loop [OF cols] obtain ls where
    pk: "tv_primaryKeys tv = primaryKey_names cols1" and
    uq: "tv_uniques tv = unique_names cols1" and
    ls: "tv_lines tv = ls" "list_all (\<lambda>l. l \<noteq> []) ls" "length ls = length (named_columns cols1)"
    by auto
  from cols' same_ident_names [of "en_columns e" cols1]
  have names: "primaryKey_names cols1 = primaryKey_names (en_columns e)"
    "unique_names cols1 = unique_names (en_columns e)"
    "map column_identifier cols1 = map column_identifier (en_columns e)"
    by simp_all
  have "length (named_columns cols1) = length (filter (\<lambda>n. n \<noteq> '''') (map column_identifier cols1))"
    by (simp add: named_columns_def filter_map comp_def)
  also have "\<dots> = length (named_columns (en_columns e))"
    by (simp add: names named_columns_def filter_map comp_def)
  finally have len: "length ls = length (named_columns (en_columns e))"
    using ls by simp
  define cw2 where "cw2 = indent (writeLine (''CREATE TABLE '' @ table @ '' ('') cw1)"
  define cw4 where "cw4 = writeTableBody tv cw2"
  define cw5 where "cw5 = writeUniques table (tv_uniques tv) cw4"
  define cw6 where "cw6 = writeForeignKeyIndexes table (tv_foreignKeys tv) cw5"
  define cw9 where "cw9 = writeComments cg opts table (en_documentation e) (tv_comments tv) cw7"
  have l2: "cw_lines cw2 = cw_lines cw @ pre @ [ind @ ''CREATE TABLE '' @ table @ '' ('']"
    and f2: "cw_indentations cw2 = cw_indentations cw @ [cw_indentString cw]"
      "cw_indentString cw2 = cw_indentString cw"
    by (simp_all add: cw2_def pre fr1 ind_def)
  have l4: "cw_lines cw4 = cw_lines cw2
     @ map (\<lambda>l. ind @ cw_indentString cw @ l)
         (with_commas (ls @ (if primaryKey_names (en_columns e) = [] then []
            else [''PRIMARY KEY ('' @ join '', '' (primaryKey_names (en_columns e)) @ '')''])))
     @ [ind @ '');'', '''']"
    using writeTableBody_lines [of tv cw2] ls pk names
    by (simp add: cw4_def f2 ind_def)
  have f4: "cw_indentations cw4 = cw_indentations cw" "cw_indentString cw4 = cw_indentString cw"
    by (simp_all add: cw4_def writeTableBody_frame f2)
  have l5: "cw_lines cw5 = cw_lines cw4
     @ (if unique_names (en_columns e) = [] then []
        else [ind @ ''ALTER TABLE '' @ table,
              ind @ cw_indentString cw @ ''ADD UNIQUE ('' @ join '', '' (unique_names (en_columns e)) @ '');'',
              ''''])"
    and f5: "cw_indentations cw5 = cw_indentations cw" "cw_indentString cw5 = cw_indentString cw"
    by (simp_all add: cw5_def writeUniques_def uq names f4 ind_def)
  have "extends cw5 cw6"
    unfolding cw6_def by (rule extends_writeForeignKeyIndexes)
  moreover have "extends cw6 cw7"
    using idx unfolding cw6_def cw5_def cw4_def cw2_def by (rule extends_writeUserIndexes)
  moreover have "extends cw7 cw9"
    unfolding cw9_def by (rule extends_writeComments)
  moreover have "extends cw9 cw10"
    using trig unfolding cw9_def by (rule trigger_fold_extends)
  moreover have "extends cw10 cw11"
    using ins by (rule extends_generateInserts)
  moreover have "extends cw11 (tr_codeWriter r)"
    by (simp add: out)
  ultimately have "extends cw5 (tr_codeWriter r)"
    by (blast intro: extends_trans)
  then obtain post where post: "cw_lines (tr_codeWriter r) = cw_lines cw5 @ post"
    and fr: "cw_indentations (tr_codeWriter r) = cw_indentations cw5"
    by (auto simp: extends_def)
  have tn_eq: "fst (tableName (en_name e) (en_tags e) w) = tn"
    by (simp add: tn)
  show ?thesis
    apply (rule exI [of _ pre])
    apply (rule exI [of _ ls])
    apply (rule exI [of _ post])
    apply (simp only: post l5 l4 l2 fr f5 len tn_eq)
    apply (simp add: ind_def table_def)
    done
qed

lemma trim_Nil [simp]: "trim [] = []"
  by (simp add: trim_def)

lemma join_comma_snoc:
  "xs \<noteq> [] \<Longrightarrow> join sep (xs @ [x]) = join sep xs @ sep @ x"
  by (induction sep xs rule: join.induct) auto

lemma insertInto_loop_header:
  "fst (insertInto_loop cols h w) = h @ join '','' (map column_identifier cols)"
proof (induction cols arbitrary: h w)
  case Nil
  show ?case by simp
next
  case (Cons c cols)
  obtain n w1 where n: "columnName (col_name c) (col_tags c) w = (n, w1)"
    by (cases "columnName (col_name c) (col_tags c) w")
  then have id: "n = column_identifier c"
    by (rule columnName_identifier)
  show ?case
  proof (cases cols)
    case Nil
    with n id show ?thesis by simp
  next
    case (Cons c' cs)
    with n id Cons.IH [of "h @ n @ '',''" w1] show ?thesis
      by simp
  qed
qed

lemma list_all2_same_ident_trans:
  "list_all2 same_ident xs ys \<Longrightarrow> list_all2 same_ident ys zs \<Longrightarrow> list_all2 same_ident xs zs"
  by (rule list_all2_trans [of same_ident same_ident same_ident]) (rule same_ident_trans)

text \<open>Everything \<^verbatim>\<open>generateTable\<close> does before the insert block, seen from that block.\<close>

lemma generateTable_before_inserts:
  assumes "generateTable cg cw dw e opts schema prefix refs w = (Inr r, w')"
  obtains cw10 w6 cw11 cols' comments where
    "extends cw cw10"
    "list_all2 same_ident (en_columns e) cols'"
    "generateInserts opts (schema @ ''.'' @ prefix @ fst (tableName (en_name e) (en_tags e) w))
       (en_documentation e) cols' cw10 w6 = (Inr cw11, w')"
    "tr_codeWriter r =
       (if \<not> truthy (en_documentation e) \<and> length (comments :: (string \<times> string) list) = 0 then cw11
        else writeLine '''' cw11)"
proof -
  from assms obtain tn w1 cw1 de cols1 w2 tv w3 refs1 w4 cw7 w5 cw10 w6 cw11 where
    tn: "tableName (en_name e) (en_tags e) w = (tn, w1)" and
    enums: "forEach (enums_body cg (schema @ ''.'' @ prefix @ tn)) (en_columns e) (cw, [], []) w1
       = (Inr (cw1, de, cols1), w2)" and
    cols: "forEach (columns_body cg opts) cols1
       \<lparr>tv_lines = [], tv_primaryKeys = [], tv_foreignKeys = [], tv_foreignKeyCtr = [],
        tv_uniques = [], tv_comments = [], tv_columns = []\<rparr> w2 = (Inr tv, w3)" and
    idx: "writeUserIndexes
       (writeForeignKeyIndexes (schema @ ''.'' @ prefix @ tn) (tv_foreignKeys tv)
          (writeUniques (schema @ ''.'' @ prefix @ tn) (tv_uniques tv)
             (writeTableBody tv
                (indent (writeLine (''CREATE TABLE '' @ (schema @ ''.'' @ prefix @ tn) @ '' ('') cw1)))))
       (schema @ ''.'' @ prefix @ tn) (tv_columns tv) w4 = (Inr cw7, w5)" and
    trig: "fold (trigger_body opts (schema @ ''.'' @ prefix @ tn) (prefix @ tn)) (en_tags e)
       (writeComments cg opts (schema @ ''.'' @ prefix @ tn) (en_documentation e) (tv_comments tv) cw7, w5)
       = (cw10, w6)" and
    ins: "generateInserts opts (schema @ ''.'' @ prefix @ tn) (en_documentation e) (tv_columns tv) cw10 w6
       = (Inr cw11, w')" and
    out: "tr_codeWriter r =
       (if \<not> truthy (en_documentation e) \<and> length (tv_comments tv) = 0 then cw11
        else writeLine '''' cw11)"
    by (rule generateTable_InrE)
  define table where "table = schema @ ''.'' @ prefix @ tn"
  note idx = idx [folded table_def]
  note trig = trig [folded table_def]
  note ins = ins [folded table_def]
  note enums = enums [folded table_def]
  from enums_loop [OF enums] have e1: "extends cw cw1" and c1: "list_all2 same_ident (en_columns e) cols1"
    by auto
  from columns_loop [OF cols] have c2: "list_all2 same_ident cols1 (tv_columns tv)"
    by auto
  define cw2 where "cw2 = indent (writeLine (''CREATE TABLE '' @ table @ '' ('') cw1)"
  define cw4 where "cw4 = writeTableBody tv cw2"
  define cw5 where "cw5 = writeUniques table (tv_uniques tv) cw4"
  define cw6 where "cw6 = writeForeignKeyIndexes table (tv_foreignKeys tv) cw5"
  define cw9 where "cw9 = writeComments cg opts table (en_documentation e) (tv_comments tv) cw7"
  have "extends cw1 cw4"
    by (auto simp: extends_def cw4_def cw2_def writeTableBody_def Let_def)
  moreover have "extends cw4 cw5"
    unfolding cw5_def by (rule extends_writeUniques)
  moreover have "extends cw5 cw6"
    unfolding cw6_def by (rule extends_writeForeignKeyIndexes)
  moreover have "extends cw6 cw7"
    using idx unfolding cw6_def cw5_def cw4_def cw2_def by (rule extends_writeUserIndexes)
  moreover have "extends cw7 cw9"
    unfolding cw9_def by (rule extends_writeComments)
  moreover have "extends cw9 cw10"
    using trig unfolding cw9_def by (rule trigger_fold_extends)
  ultimately have "extends cw cw10"
    using e1 by (blast intro: extends_trans)
  moreover from c1 c2 have "list_all2 same_ident (en_columns e) (tv_columns tv)"
    by (rule list_all2_same_ident_trans)
  moreover from ins tn have "generateInserts opts
      (schema @ ''.'' @ prefix @ fst (tableName (en_name e) (en_tags e) w))
      (en_documentation e) (tv_columns tv) cw10 w6 = (Inr cw11, w')"
    by (simp add: table_def)
  ultimately show thesis
    using out by (rule that)
qed

lemma writeComments_falsy:
  "\<not> truthy d \<Longrightarrow> writeComments cg opts table d cs cw = fold (comment_body table) cs cw"
  by (simp add: writeComments_def)

lemma generateTable_grow:
  assumes "generateTable cg cw dw e opts schema prefix refs w = (Inr r, w')"
  shows "toasts_grow (snd (tableName (en_name e) (en_tags e) w)) w'"
proof -
  from assms obtain tn w1 cw1 de cols1 w2 tv w3 refs1 w4 cw7 w5 cw10 w6 cw11 where
    tn: "tableName (en_name e) (en_tags e) w = (tn, w1)" and
    enums: "forEach (enums_body cg (schema @ ''.'' @ prefix @ tn)) (en_columns e) (cw, [], []) w1
       = (Inr (cw1, de, cols1), w2)" and
    cols: "forEach (columns_body cg opts) cols1
       \<lparr>tv_lines = [], tv_primaryKeys = [], tv_foreignKeys = [], tv_foreignKeyCtr = [],
        tv_uniques = [], tv_comments = [], tv_columns = []\<rparr> w2 = (Inr tv, w3)" and
    refs: "fold (refs_body (schema @ ''.'' @ prefix @ tn) (prefix @ tn)) (tv_foreignKeyCtr tv) (refs, w3)
       = (refs1, w4)" and
    idx: "writeUserIndexes
       (writeForeignKeyIndexes (schema @ ''.'' @ prefix @ tn) (tv_foreignKeys tv)
          (writeUniques (schema @ ''.'' @ prefix @ tn) (tv_uniques tv)
             (writeTableBody tv
                (indent (writeLine (''CREATE TABLE '' @ (schema @ ''.'' @ prefix @ tn) @ '' ('') cw1)))))
       (schema @ ''.'' @ prefix @ tn) (tv_columns tv) w4 = (Inr cw7, w5)" and
    trig: "fold (trigger_body opts (schema @ ''.'' @ prefix @ tn) (prefix @ tn)) (en_tags e)
       (writeComments cg opts (schema @ ''.'' @ prefix @ tn) (en_documentation e) (tv_comments tv) cw7, w5)
       = (cw10, w6)" and
    ins: "generateInserts opts (schema @ ''.'' @ prefix @ tn) (en_documentation e) (tv_columns tv) cw10 w6
       = (Inr cw11, w')"
    by (rule generateTable_InrE)
  have "toasts_grow w1 w2"
    using enums_body_grow enums by (rule forEach_grow)
  moreover have "toasts_grow w2 w3"
    using columns_body_grow cols by (rule forEach_grow)
  moreover have "toasts_grow w3 w4"
    using refs by (rule refs_fold_grow)
  moreover have "toasts_grow w4 w5"
    using idx by (rule writeUserIndexes_grow)
  moreover have "toasts_grow w5 w6"
    using trig by (rule trigger_fold_grow)
  moreover have "toasts_grow w6 w'"
    using ins by (rule generateInserts_grow)
  ultimately have "toasts_grow w1 w'"
    by (blast intro: toasts_grow_trans)
  with tn show ?thesis
    by simp
qed

section \<open>Facts about flag changes, appended lines and what a run leaves behind\<close>

lemma generateInserts_Some:
  "generateInserts opts table (Some d) cols cw w =
     (if opt_tableInserts opts \<and> trim d \<noteq> [] then
        (Inr (writeLine '''' (fold (insert_body
                (fst (insertInto_loop cols (''INSERT INTO '' @ table @ '' ('') w) @ '' ) VALUES ( '')
                (length cols)) (split newline (trim d)) (writeLine '''' cw))),
         snd (insertInto_loop cols (''INSERT INTO '' @ table @ '' ('') w))
      else (Inr cw, w))"
  by (simp add: generateInserts_def Let_def case_prod_beta)

lemma same_but_flags_refl [simp]: "same_but_flags c c"
  by (simp add: same_but_flags_def)

lemma same_but_flagsE:
  assumes "same_but_flags c c'"
  obtains u k where "c' = c\<lparr>col_unique := u, col_foreignKey := k\<rparr>"
  using assms unfolding same_but_flags_def by blast

lemma same_but_flagsI [simp]: "same_but_flags c (c\<lparr>col_unique := u, col_foreignKey := k\<rparr>)"
  by (simp add: same_but_flags_def)

lemma list_all2_same_but_flags_refl [simp]: "list_all2 same_but_flags cols cols"
  by (simp add: list_all2_refl)

lemma dataType_flags [simp]:
  "dataType (c\<lparr>col_unique := u, col_foreignKey := k\<rparr>) = dataType c"
  by (simp add: dataType_def dataType_map_def typeOf_def typeOfWithOverride_def varLenFunc_def
      noLenFunc_def)

lemma column_identifier_flags [simp]:
  "column_identifier (c\<lparr>col_unique := u, col_foreignKey := k\<rparr>) = column_identifier c"
  by (simp add: column_identifier_def)

lemma columnDefault_flags [simp]:
  "columnDefault (c\<lparr>col_unique := u, col_foreignKey := k\<rparr>) = columnDefault c"
  by (simp add: columnDefault_def)

lemma columnDeclaration_flags:
  "columnDeclaration cg n (c\<lparr>col_unique := u, col_foreignKey := k\<rparr>) cs d =
     (case columnDeclaration cg n c cs d of
        Inl e \<Rightarrow> Inl e
      | Inr (l, c1, cs1) \<Rightarrow> Inr (l, c1\<lparr>col_unique := u, col_foreignKey := k\<rparr>, cs1))"
  by (simp add: columnDeclaration_def Let_def split: sum.splits)

lemma forEach_sim:
  assumes step: "\<And>x x' s s' w s1 w1. R x x' \<Longrightarrow> S s s' \<Longrightarrow> f x s w = (Inr s1, w1)
      \<Longrightarrow> \<exists>s1'. f x' s' w = (Inr s1', w1) \<and> S s1 s1'"
    and "list_all2 R xs xs'" and "S s s'" and "forEach f xs s w = (Inr t, w')"
  shows "\<exists>t'. forEach f xs' s' w = (Inr t', w') \<and> S t t'"
  using assms(2-)
proof (induction arbitrary: s s' w rule: list_all2_induct)
  case Nil
  then show ?case by simp
next
  case (Cons x xs x' xs')
  from Cons.prems(2) obtain s1 w1 where
    one: "f x s w = (Inr s1, w1)" and rest: "forEach f xs s1 w1 = (Inr t, w')"
    by (auto split: prod.splits sum.splits)
  from step [OF Cons.hyps(1) Cons.prems(1) one] obtain s1' where
    one': "f x' s' w = (Inr s1', w1)" and S1: "S s1 s1'"
    by blast
  from Cons.IH [OF S1 rest] one' show ?case
    by simp
qed

lemma enums_body_sim:
  assumes "same_but_flags col col'" and "list_all2 same_but_flags acc acc'"
    and "enums_body cg table col (cw, de, acc) w = (Inr (cw1, de1, acc1), w1)"
  shows "\<exists>acc1'. enums_body cg table col' (cw, de, acc') w = (Inr (cw1, de1, acc1'), w1)
     \<and> list_all2 same_but_flags acc1 acc1'"
proof -
  from assms(1) obtain u k where col': "col' = col\<lparr>col_unique := u, col_foreignKey := k\<rparr>"
    by (rule same_but_flagsE)
  obtain n w2 where n: "columnName (col_name col) (col_tags col) w = (n, w2)"
    by (cases "columnName (col_name col) (col_tags col) w")
  from assms(3) obtain ty where ty: "dataType col = Inr ty"
    by (cases "dataType col") (auto simp: enums_body_def)
  show ?thesis
  proof (cases "ty \<noteq> '''' \<and> toLowerCase ty = ''enum'' \<and> stringTag ty (col_tags col) \<noteq> ''''")
    case True
    with assms(3) ty n have res: "cw1 = writeLine (''CREATE CAST (CHARACTER VARYING AS ''
          @ (table @ ''_'' @ n) @ '') WITH INOUT AS IMPLICIT;'' @ [newline])
          (writeLine (''CREATE TYPE '' @ (table @ ''_'' @ n) @ '' AS ENUM(''
             @ cg_enumAsList cg (stringTag ty (col_tags col)) @ '');'' @ [newline]) cw)"
      "de1 = de @ [''DROP TYPE '' @ (table @ ''_'' @ n) @ '' CASCADE;'']"
      "acc1 = acc @ [col\<lparr>col_type := table @ ''_'' @ n, col_is_enum := True\<rparr>]" "w1 = w2"
      by (auto simp: enums_body_def Let_def)
    have "enums_body cg table col' (cw, de, acc') w =
      (Inr (cw1, de1, acc' @ [col'\<lparr>col_type := table @ ''_'' @ n, col_is_enum := True\<rparr>]), w1)"
      using True ty n res by (simp add: enums_body_def Let_def col')
    moreover have "list_all2 same_but_flags acc1
        (acc' @ [col'\<lparr>col_type := table @ ''_'' @ n, col_is_enum := True\<rparr>])"
      using assms(2) by (simp add: res col' list_all2_appendI same_but_flags_def)
    ultimately show ?thesis
      by blast
  next
    case False
    with assms(3) ty have res: "cw1 = cw" "de1 = de" "acc1 = acc @ [col]" "w1 = w"
      by (auto simp: enums_body_def)
    have "enums_body cg table col' (cw, de, acc') w = (Inr (cw1, de1, acc' @ [col']), w1)"
      using False ty res by (auto simp: enums_body_def col')
    moreover have "list_all2 same_but_flags acc1 (acc' @ [col'])"
      using assms(1,2) by (simp add: res list_all2_appendI)
    ultimately show ?thesis
      by blast
  qed
qed

lemma enums_loop_sim:
  assumes "list_all2 same_but_flags cols cols'"
    and "forEach (enums_body cg table) cols (cw, [], []) w = (Inr (cw1, de1, cols1), w1)"
  shows "\<exists>cols1'. forEach (enums_body cg table) cols' (cw, [], []) w = (Inr (cw1, de1, cols1'), w1)
     \<and> list_all2 same_but_flags cols1 cols1'"
proof -
  define S where "S = (\<lambda>(s :: code_writer \<times> string list \<times> column list) s'.
     fst s' = fst s \<and> fst (snd s') = fst (snd s) \<and> list_all2 same_but_flags (snd (snd s)) (snd (snd s')))"
  have "\<exists>t'. forEach (enums_body cg table) cols' (cw, [], []) w = (Inr t', w1) \<and> S (cw1, de1, cols1) t'"
  proof (rule forEach_sim [where R = same_but_flags and S = S, OF _ assms(1) _ assms(2)])
    show "S (cw, [], []) (cw, [], [])"
      by (simp add: S_def)
  next
    fix x x' s s' w s1 w1
    assume R: "same_but_flags x x'" and SS: "S s s'"
      and run: "enums_body cg table x s w = (Inr s1, w1)"
    obtain a b c where s: "s = (a, b, c)" by (cases s)
    obtain a1 b1 c1 where s1: "s1 = (a1, b1, c1)" by (cases s1)
    from SS s obtain c' where s': "s' = (a, b, c')" and rel: "list_all2 same_but_flags c c'"
      by (cases s') (auto simp: S_def)
    from enums_body_sim [OF R rel run [unfolded s s1]] s' s1
    show "\<exists>s1'. enums_body cg table x' s' w = (Inr s1', w1) \<and> S s1 s1'"
      by (auto simp: S_def)
  qed
  then show ?thesis
    by (auto simp: S_def)
qed

lemma columns_body_eq:
  assumes "columnName (col_name col) (col_tags col) w = (n, w1)"
  shows "columns_body cg opts col tv w =
    (if n = '''' then (Inr (tv\<lparr>tv_columns := tv_columns tv @ [col]\<rparr>), w1)
     else case columnDeclaration cg n col (tv_comments tv) (columnDefault col) of
            Inl e \<Rightarrow> (Inl e, w1)
          | Inr (line, c', cs') \<Rightarrow>
              (Inr (tv\<lparr>tv_lines := tv_lines tv @ [line],
                       tv_primaryKeys := tv_primaryKeys tv @ (if col_primaryKey col then [n] else []),
                       tv_uniques := tv_uniques tv
                          @ (if \<not> col_primaryKey col \<and> col_unique col then [n] else []),
                       tv_foreignKeys := tv_foreignKeys tv
                          @ (if \<not> col_primaryKey col \<and> \<not> col_unique col \<and> col_foreignKey col
                             then [n] else []),
                       tv_foreignKeyCtr := tv_foreignKeyCtr tv
                          @ (if opt_foreignKeyConstraint opts \<and> col_referenceTo col \<noteq> None
                             then [col] else []),
                       tv_comments := cs',
                       tv_columns := tv_columns tv @ [c']\<rparr>), w1))"
proof (cases "n = ''''")
  case True
  with assms show ?thesis
    by (simp add: columns_body_def)
next
  case False
  show ?thesis
  proof (cases "columnDeclaration cg n col (tv_comments tv) (columnDefault col)")
    case (Inl e)
    with assms False show ?thesis
      by (cases "col_primaryKey col"; cases "col_unique col"; cases "col_foreignKey col";
          cases "opt_foreignKeyConstraint opts \<and> col_referenceTo col \<noteq> None";
          simp add: columns_body_def Let_def)
  next
    case (Inr t)
    obtain line c' cs' where t: "t = (line, c', cs')"
      by (cases t)
    from assms False Inr show ?thesis
      unfolding t
      by (cases "col_primaryKey col"; cases "col_unique col"; cases "col_foreignKey col";
          cases "opt_foreignKeyConstraint opts \<and> col_referenceTo col \<noteq> None";
          simp add: columns_body_def Let_def)
  qed
qed

lemma columns_body_sim:
  assumes R: "same_but_flags col col'"
    and S: "tv_lines tv' = tv_lines tv" "tv_primaryKeys tv' = tv_primaryKeys tv"
      "tv_comments tv' = tv_comments tv"
      "list_all2 same_but_flags (tv_columns tv) (tv_columns tv')"
      "list_all2 same_but_flags (tv_foreignKeyCtr tv) (tv_foreignKeyCtr tv')"
    and run: "columns_body cg opts col tv w = (Inr tv1, w1)"
  shows "\<exists>tv1'. columns_body cg opts col' tv' w = (Inr tv1', w1)
     \<and> tv_lines tv1' = tv_lines tv1 \<and> tv_primaryKeys tv1' = tv_primaryKeys tv1
     \<and> tv_comments tv1' = tv_comments tv1
     \<and> list_all2 same_but_flags (tv_columns tv1) (tv_columns tv1')
     \<and> list_all2 same_but_flags (tv_foreignKeyCtr tv1) (tv_foreignKeyCtr tv1')"
proof -
  from R obtain u k where col': "col' = col\<lparr>col_unique := u, col_foreignKey := k\<rparr>"
    by (rule same_but_flagsE)
  obtain n w2 where n: "columnName (col_name col) (col_tags col) w = (n, w2)"
    by (cases "columnName (col_name col) (col_tags col) w")
  then have n': "columnName (col_name col') (col_tags col') w = (n, w2)"
    by (simp add: col')
  show ?thesis
  proof (cases "n = ''''")
    case True
    from run S R show ?thesis
      unfolding columns_body_eq [OF n] columns_body_eq [OF n'] using True
      by (auto simp: list_all2_appendI)
  next
    case False
    from run False obtain line c1 cs1 where
      decl: "columnDeclaration cg n col (tv_comments tv) (columnDefault col) = Inr (line, c1, cs1)"
      unfolding columns_body_eq [OF n] by (auto split: sum.splits)
    have decl': "columnDeclaration cg n col' (tv_comments tv') (columnDefault col')
        = Inr (line, c1\<lparr>col_unique := u, col_foreignKey := k\<rparr>, cs1)"
      using decl S(3) by (simp add: col' columnDeclaration_flags)
    from run have tv1: "tv_lines tv1 = tv_lines tv @ [line]"
      "tv_primaryKeys tv1 = tv_primaryKeys tv @ (if col_primaryKey col then [n] else [])"
      "tv_comments tv1 = cs1" "tv_columns tv1 = tv_columns tv @ [c1]"
      "tv_foreignKeyCtr tv1 = tv_foreignKeyCtr tv
         @ (if opt_foreignKeyConstraint opts \<and> col_referenceTo col \<noteq> None then [col] else [])"
      "w1 = w2"
      unfolding columns_body_eq [OF n] using False decl by auto
    have pk: "col_primaryKey col' = col_primaryKey col" "col_referenceTo col' = col_referenceTo col"
      by (simp_all add: col')
    obtain tv1' where run': "columns_body cg opts col' tv' w = (Inr tv1', w2)"
      and tv1': "tv_lines tv1' = tv_lines tv' @ [line]"
      "tv_primaryKeys tv1' = tv_primaryKeys tv' @ (if col_primaryKey col then [n] else [])"
      "tv_comments tv1' = cs1"
      "tv_columns tv1' = tv_columns tv' @ [c1\<lparr>col_unique := u, col_foreignKey := k\<rparr>]"
      "tv_foreignKeyCtr tv1' = tv_foreignKeyCtr tv'
         @ (if opt_foreignKeyConstraint opts \<and> col_referenceTo col \<noteq> None then [col'] else [])"
      unfolding columns_body_eq [OF n'] using False decl' pk by simp
    have "tv_lines tv1' = tv_lines tv1" "tv_primaryKeys tv1' = tv_primaryKeys tv1"
      "tv_comments tv1' = tv_comments tv1"
      "list_all2 same_but_flags (tv_columns tv1) (tv_columns tv1')"
      "list_all2 same_but_flags (tv_foreignKeyCtr tv1) (tv_foreignKeyCtr tv1')"
      using S R by (simp_all add: tv1 tv1' list_all2_appendI col')
    with run' tv1(6) show ?thesis
      by blast
  qed
qed

lemma columns_body_foreignKeys:
  assumes "columns_body cg opts col tv w = (Inr tv', w')"
  shows "tv_foreignKeys tv' = tv_foreignKeys tv @ foreignKey_names [col]"
proof -
  obtain n w1 where n: "columnName (col_name col) (col_tags col) w = (n, w1)"
    by (cases "columnName (col_name col) (col_tags col) w")
  then have id: "n = column_identifier col"
    by (rule columnName_identifier)
  from assms show ?thesis
    unfolding columns_body_eq [OF n] using id
    by (auto simp: foreignKey_names_def split: sum.splits if_splits)
qed

lemma columns_loop_foreignKeys:
  assumes "forEach (columns_body cg opts) cols tv w = (Inr tv', w')"
  shows "tv_foreignKeys tv' = tv_foreignKeys tv @ foreignKey_names cols"
  using assms
proof (induction cols arbitrary: tv w)
  case Nil
  then show ?case
    by (simp add: foreignKey_names_def)
next
  case (Cons col cols)
  from Cons.prems obtain tv1 w1
    where step: "columns_body cg opts col tv w = (Inr tv1, w1)"
      and rest: "forEach (columns_body cg opts) cols tv1 w1 = (Inr tv', w')"
    by (auto split: prod.splits sum.splits)
  have "foreignKey_names (col # cols) = foreignKey_names [col] @ foreignKey_names cols"
    by (simp add: foreignKey_names_def)
  with columns_body_foreignKeys [OF step] Cons.IH [OF rest] show ?case
    by simp
qed

lemma columns_loop_sim:
  assumes "list_all2 same_but_flags cols cols'"
    and "tv_lines tv' = tv_lines tv" "tv_primaryKeys tv' = tv_primaryKeys tv"
      "tv_comments tv' = tv_comments tv"
      "list_all2 same_but_flags (tv_columns tv) (tv_columns tv')"
      "list_all2 same_but_flags (tv_foreignKeyCtr tv) (tv_foreignKeyCtr tv')"
    and "forEach (columns_body cg opts) cols tv w = (Inr tv1, w1)"
  shows "\<exists>tv1'. forEach (columns_body cg opts) cols' tv' w = (Inr tv1', w1)
     \<and> tv_lines tv1' = tv_lines tv1 \<and> tv_primaryKeys tv1' = tv_primaryKeys tv1
     \<and> tv_comments tv1' = tv_comments tv1
     \<and> list_all2 same_but_flags (tv_columns tv1) (tv_columns tv1')
     \<and> list_all2 same_but_flags (tv_foreignKeyCtr tv1) (tv_foreignKeyCtr tv1')"
  using assms
proof (induction arbitrary: tv tv' w rule: list_all2_induct)
  case Nil
  then show ?case by simp
next
  case (Cons x xs x' xs')
  from Cons.prems(6) obtain s1 w2 where
    one: "columns_body cg opts x tv w = (Inr s1, w2)"
    and rest: "forEach (columns_body cg opts) xs s1 w2 = (Inr tv1, w1)"
    by (auto split: prod.splits sum.splits)
  from columns_body_sim [OF Cons.hyps(1) Cons.prems(1-5) one] obtain s1' where
    one': "columns_body cg opts x' tv' w = (Inr s1', w2)"
    and S1: "tv_lines s1' = tv_lines s1" "tv_primaryKeys s1' = tv_primaryKeys s1"
      "tv_comments s1' = tv_comments s1"
      "list_all2 same_but_flags (tv_columns s1) (tv_columns s1')"
      "list_all2 same_but_flags (tv_foreignKeyCtr s1) (tv_foreignKeyCtr s1')"
    by blast
  from Cons.IH [OF S1 rest] one' show ?case
    by simp
qed

lemma prepend_fields [simp]:
  "cw_lines (prepend ls cw) = ls @ cw_lines cw"
  "cw_indentations (prepend ls cw) = cw_indentations cw"
  "cw_indentString (prepend ls cw) = cw_indentString cw"
  by (simp_all add: prepend_def)

lemma prepend_writeLine [simp]: "writeLine l (prepend ls cw) = prepend ls (writeLine l cw)"
  by (simp add: prepend_def writeLine_def)

lemma prepend_indent [simp]: "indent (prepend ls cw) = prepend ls (indent cw)"
  by (simp add: prepend_def indent_def)

lemma prepend_outdent [simp]: "outdent (prepend ls cw) = prepend ls (outdent cw)"
  by (simp add: prepend_def outdent_def)

lemma prepend_fold:
  assumes "\<And>x cw. f x (prepend ls cw) = prepend ls (f x cw)"
  shows "fold f xs (prepend ls cw) = prepend ls (fold f xs cw)"
  by (induction xs arbitrary: cw) (simp_all add: assms)

lemma prepend_index_body [simp]:
  "index_body table g (prepend ls cw) = prepend ls (index_body table g cw)"
  by (simp add: index_body_def Let_def)

lemma prepend_comment_body [simp]:
  "comment_body table c (prepend ls cw) = prepend ls (comment_body table c cw)"
  by (simp add: comment_body_def)

lemma prepend_insert_body [simp]:
  "insert_body h n e (prepend ls cw) = prepend ls (insert_body h n e cw)"
  by (simp add: insert_body_def)

lemma prepend_writeUserIndexes:
  "writeUserIndexes (prepend ls cw) table cols w =
     (case writeUserIndexes cw table cols w of
        (Inl e, w') \<Rightarrow> (Inl e, w')
      | (Inr cw', w') \<Rightarrow> (Inr (prepend ls cw'), w'))"
  by (simp add: writeUserIndexes_def Let_def prepend_fold split: prod.splits sum.splits)

lemma prepend_writeComments [simp]:
  "writeComments cg opts table d cs (prepend ls cw) = prepend ls (writeComments cg opts table d cs cw)"
  by (simp add: writeComments_def Let_def prepend_fold)

lemma prepend_trigger_body:
  "trigger_body opts table tn t (prepend ls cw, w) =
     (prepend ls (fst (trigger_body opts table tn t (cw, w))), snd (trigger_body opts table tn t (cw, w)))"
  by (simp add: trigger_body_def Let_def split: prod.splits)

lemma prepend_trigger_fold:
  "fold (trigger_body opts table tn) ts (prepend ls cw, w) =
     (prepend ls (fst (fold (trigger_body opts table tn) ts (cw, w))),
      snd (fold (trigger_body opts table tn) ts (cw, w)))"
proof (induction ts arbitrary: cw w)
  case Nil
  show ?case by simp
next
  case (Cons t ts)
  obtain cw1 w1 where 1: "trigger_body opts table tn t (cw, w) = (cw1, w1)"
    by (cases "trigger_body opts table tn t (cw, w)")
  then have "trigger_body opts table tn t (prepend ls cw, w) = (prepend ls cw1, w1)"
    by (simp add: prepend_trigger_body)
  with 1 Cons.IH [of cw1 w1] show ?case
    by simp
qed

lemma prepend_generateInserts:
  "generateInserts opts table d cols (prepend ls cw) w =
     (case generateInserts opts table d cols cw w of
        (Inl e, w') \<Rightarrow> (Inl e, w')
      | (Inr cw', w') \<Rightarrow> (Inr (prepend ls cw'), w'))"
  by (simp add: generateInserts_def Let_def prepend_fold split: prod.splits option.splits)

lemma prepend_self: "prepend (cw_lines cw) (cw\<lparr>cw_lines := []\<rparr>) = cw"
  by (simp add: prepend_def)

lemma refs_body_flags:
  "same_but_flags c c' \<Longrightarrow> refs_body table tn c' s = refs_body table tn c s"
  by (erule same_but_flagsE) (cases s, cases "col_referenceTo c", simp_all add: refs_body_def)

lemma refs_fold_flags:
  "list_all2 same_but_flags cols cols'
     \<Longrightarrow> fold (refs_body table tn) cols' s = fold (refs_body table tn) cols s"
  by (induction arbitrary: s rule: list_all2_induct) (simp_all add: refs_body_flags)

lemma getIndexColumns_flags:
  "list_all2 same_but_flags cols cols'
     \<Longrightarrow> list_all2 same_but_flags (getIndexColumns cols) (getIndexColumns cols')"
  unfolding getIndexColumns_def
  by (induction rule: list_all2_induct) (auto elim!: same_but_flagsE)

lemma idxDef_loop_flags:
  "list_all2 same_but_flags cols cols' \<Longrightarrow> idxDef_loop cols' acc w = idxDef_loop cols acc w"
  by (induction arbitrary: acc w rule: list_all2_induct)
    (auto simp: idxDef_body_def elim!: same_but_flagsE split: prod.splits)

lemma writeUserIndexes_flags:
  assumes "list_all2 same_but_flags cols cols'"
  shows "writeUserIndexes cw table cols' w = writeUserIndexes cw table cols w"
  by (simp add: writeUserIndexes_def idxDef_loop_flags [OF getIndexColumns_flags [OF assms]])

lemma insertInto_loop_flags:
  "list_all2 same_but_flags cols cols' \<Longrightarrow> insertInto_loop cols' h w = insertInto_loop cols h w"
  by (induction arbitrary: h w rule: list_all2_induct)
    (auto elim!: same_but_flagsE split: prod.splits)

lemma generateInserts_flags:
  assumes "list_all2 same_but_flags cols cols'"
  shows "generateInserts opts table d cols' cw w = generateInserts opts table d cols cw w"
  unfolding generateInserts_def insertInto_loop_flags [OF assms]
    list_all2_lengthD [OF assms, symmetric] by (rule refl)

lemma same_ident_foreignKey:
  assumes "same_ident c c'"
  shows "col_foreignKey c' = col_foreignKey c"
proof -
  from assms have eq: "c' = c\<lparr>col_type := col_type c', col_is_enum := col_is_enum c'\<rparr>"
    by (simp add: same_ident_def)
  show ?thesis by (subst eq) simp
qed

lemma same_ident_foreignKey_names:
  "list_all2 same_ident cols cols' \<Longrightarrow> foreignKey_names cols' = foreignKey_names cols"
  by (induction rule: list_all2_induct)
    (auto simp: foreignKey_names_def same_ident_fields same_ident_foreignKey)

lemma writeForeignKeyIndexes_lines:
  "cw_lines (writeForeignKeyIndexes table fks cw) =
     cw_lines cw @ (if fks = [] then []
        else concat (map (\<lambda>n. [concat (cw_indentations cw) @ ''CREATE INDEX ON '' @ table,
                concat (cw_indentations cw) @ cw_indentString cw @ ''('' @ n @ '');'']) fks) @ [''''])"
  "cw_indentations (writeForeignKeyIndexes table fks cw) = cw_indentations cw"
  "cw_indentString (writeForeignKeyIndexes table fks cw) = cw_indentString cw"
proof -
  have "cw_lines (fold (fk_index_body table) fks cw) =
      cw_lines cw @ concat (map (\<lambda>n. [concat (cw_indentations cw) @ ''CREATE INDEX ON '' @ table,
                concat (cw_indentations cw) @ cw_indentString cw @ ''('' @ n @ '');'']) fks)
    \<and> cw_indentations (fold (fk_index_body table) fks cw) = cw_indentations cw
    \<and> cw_indentString (fold (fk_index_body table) fks cw) = cw_indentString cw"
    by (induction fks arbitrary: cw) (simp_all add: fk_index_body_def)
  then show "cw_lines (writeForeignKeyIndexes table fks cw) =
     cw_lines cw @ (if fks = [] then []
        else concat (map (\<lambda>n. [concat (cw_indentations cw) @ ''CREATE INDEX ON '' @ table,
                concat (cw_indentations cw) @ cw_indentString cw @ ''('' @ n @ '');'']) fks) @ [''''])"
    "cw_indentations (writeForeignKeyIndexes table fks cw) = cw_indentations cw"
    "cw_indentString (writeForeignKeyIndexes table fks cw) = cw_indentString cw"
    by (simp_all add: writeForeignKeyIndexes_def)
qed

lemma writeUniques_lines:
  "cw_lines (writeUniques table us cw) =
     cw_lines cw @ (if us = [] then []
        else [concat (cw_indentations cw) @ ''ALTER TABLE '' @ table,
              concat (cw_indentations cw) @ cw_indentString cw @ ''ADD UNIQUE ('' @ join '', '' us @ '');'',
              ''''])"
  "cw_indentations (writeUniques table us cw) = cw_indentations cw"
  "cw_indentString (writeUniques table us cw) = cw_indentString cw"
  by (simp_all add: writeUniques_def)

lemma generateTable_InrI:
  assumes "tableName (en_name e) (en_tags e) w = (tn, w1)"
    "forEach (enums_body cg (schema @ ''.'' @ prefix @ tn)) (en_columns e) (cw, [], []) w1
       = (Inr (cw1, de, cols1), w2)"
    "forEach (columns_body cg opts) cols1
       \<lparr>tv_lines = [], tv_primaryKeys = [], tv_foreignKeys = [], tv_foreignKeyCtr = [],
        tv_uniques = [], tv_comments = [], tv_columns = []\<rparr> w2 = (Inr tv, w3)"
    "fold (refs_body (schema @ ''.'' @ prefix @ tn) (prefix @ tn)) (tv_foreignKeyCtr tv) (refs, w3)
       = (refs1, w4)"
    "writeUserIndexes
       (writeForeignKeyIndexes (schema @ ''.'' @ prefix @ tn) (tv_foreignKeys tv)
          (writeUniques (schema @ ''.'' @ prefix @ tn) (tv_uniques tv)
             (writeTableBody tv
                (indent (writeLine (''CREATE TABLE '' @ (schema @ ''.'' @ prefix @ tn) @ '' ('') cw1)))))
       (schema @ ''.'' @ prefix @ tn) (tv_columns tv) w4 = (Inr cw7, w5)"
    "fold (trigger_body opts (schema @ ''.'' @ prefix @ tn) (prefix @ tn)) (en_tags e)
       (writeComments cg opts (schema @ ''.'' @ prefix @ tn) (en_documentation e) (tv_comments tv) cw7, w5)
       = (cw10, w6)"
    "generateInserts opts (schema @ ''.'' @ prefix @ tn) (en_documentation e) (tv_columns tv) cw10 w6
       = (Inr cw11, w')"
  shows "generateTable cg cw dw e opts schema prefix refs w =
    (Inr \<lparr>tr_codeWriter =
            (if \<not> truthy (en_documentation e) \<and> length (tv_comments tv) = 0 then cw11
             else writeLine '''' cw11),
          tr_dropWriter = writeLines de
            (writeLine (''DROP TABLE IF EXISTS '' @ (schema @ ''.'' @ prefix @ tn) @ '' CASCADE;'') dw),
          tr_refs = refs1, tr_columns = tv_columns tv\<rparr>, w')"
  using assms by (simp add: generateTable_def Let_def)

lemma writeTableBody_cong:
  "tv_lines tv' = tv_lines tv \<Longrightarrow> tv_primaryKeys tv' = tv_primaryKeys tv
     \<Longrightarrow> writeTableBody tv' cw = writeTableBody tv cw"
  by (simp add: writeTableBody_def)

lemma prepend_base:
  "prepend (cw_lines cw) \<lparr>cw_lines = [], cw_indentations = cw_indentations cw,
      cw_indentString = cw_indentString cw\<rparr> = cw"
  by (simp add: prepend_def)

lemma only_toasts_refl [simp]: "only_toasts w w"
  by (simp add: only_toasts_def)

























lemma wrote_writeLine [simp]: "wrote cw stmt \<Longrightarrow> wrote (writeLine l cw) stmt"
  by (auto simp: wrote_def)

lemma wrote_indent [simp]: "wrote (indent cw) stmt = wrote cw stmt"
  by (simp add: wrote_def)

lemma wrote_outdent [simp]: "wrote (outdent cw) stmt = wrote cw stmt"
  by (simp add: wrote_def)





lemma world_grows_toast [simp]: "world_grows w (toast sev msg w)"
  by (simp add: world_grows_def toast_def)
























section \<open>The example models, evaluated\<close>

lemma outcome_InrE:
  assumes "map_sum id f (fst x) = Inr y"
  obtains r w' where "x = (Inr r, w')" and "f r = y"
proof (cases x)
  case (Pair res w')
  with assms obtain r where "res = Inr r" "f r = y"
    by (cases res) auto
  with Pair that show thesis
    by blast
qed

lemma ex_writer_fields:
  "cw_lines ex_writer = []" "cw_indentations ex_writer = []" "cw_indentString ex_writer = ''  ''"
  by (simp_all add: ex_writer_def CodeWriter_def)

lemma ex_bad_entity_run:
  "map_sum id (cw_lines \<circ> tr_codeWriter)
     (fst (generateTable ex_codegen ex_writer ex_writer ex_bad_entity ex_options ''public'' '''' []
        (toast Info (''Generate table DDL for '' @ en_name ex_bad_entity) ex_world)))
   = Inr [''CREATE TABLE public. ('', ''  id serial NOT NULL,'', ''  PRIMARY KEY (id)'', '');'', '''', '''']"
  by code_simp

lemma ex_bad_entity_name:
  "tag ''table'' (en_tags ex_bad_entity) = None"
  "replaceAll ''Order Item!'' CHR '' '' CHR ''_'' = ''Order_Item!''"
  "\<not> isValidIdentifier ''Order_Item!''"
  "en_name ex_bad_entity = ''Order Item!''"
  by code_simp+

lemma ex_keys_entity_run:
  "map_sum id (cw_lines \<circ> tr_codeWriter)
     (fst (generateTable ex_codegen ex_writer ex_writer ex_keys_entity ex_options ''public'' '''' []
        ex_world))
   = Inr [''CREATE TABLE public.booking ('', ''  room integer NOT NULL,'', ''  day date NOT NULL,'',
          ''  email text,'', ''  code text,'', ''  note text,'', ''  PRIMARY KEY (room, day)'', '');'',
          '''', ''ALTER TABLE public.booking'', ''  ADD UNIQUE (email, code);'', '''', '''']"
  by code_simp

lemma ex_keys_entity_names:
  "primaryKey_names (en_columns ex_keys_entity) = [''room'', ''day'']"
  "unique_names (en_columns ex_keys_entity) = [''email'', ''code'']"
  "length (named_columns (en_columns ex_keys_entity)) = 5"
  "fst (tableName (en_name ex_keys_entity) (en_tags ex_keys_entity) ex_world) = ''booking''"
  by code_simp+

lemma ex_seed_entity_run:
  "map_sum id (cw_lines \<circ> tr_codeWriter)
     (fst (generateTable ex_codegen ex_writer ex_writer ex_seed_entity ex_insert_options ''public'' ''''
        [] ex_world))
   = Inr [''CREATE TABLE public.person ('', ''  name text,'', ''  age integer'', '');'', '''', '''', '''',
          ''INSERT INTO public.person (name,age ) VALUES (  '' @ [CHR 0x27] @ ''Alice'' @ [CHR 0x27]
            @ '' , '' @ [CHR 0x27] @ ''30'' @ [CHR 0x27] @ ''  ); '',
          '''',
          ''INSERT INTO public.person (name,age ) VALUES (  '' @ [CHR 0x27] @ ''Bob'' @ [CHR 0x27]
            @ '' , null  ); '',
          '''', '''', '''']"
  by code_simp

lemma ex_seed_entity_inserts:
  "(if trim (''Alice|30'' @ [newline] @ ''Bob|'') = [] then []
    else ['''']
      @ concat (map (\<lambda>l. [concat (cw_indentations ex_writer)
            @ ''INSERT INTO '' @ ''public'' @ ''.'' @ ''''
            @ fst (tableName (en_name ex_seed_entity) (en_tags ex_seed_entity) ex_world) @ '' (''
            @ join '','' (map column_identifier (en_columns ex_seed_entity)) @ '' ) VALUES ( ''
            @ concat (map (\<lambda>i.
                (if i < length (split CHR ''|'' l) \<and> split CHR ''|'' l ! i \<noteq> []
                 then '' '' @ [CHR 0x27] @ split CHR ''|'' l ! i @ [CHR 0x27] @ '' ''
                 else '' null '')
                @ (if i + 1 < length (en_columns ex_seed_entity) then '','' else ''''))
                [0..<length (en_columns ex_seed_entity)])
            @ '' ); '',
          '''']) (split newline (trim (''Alice|30'' @ [newline] @ ''Bob|''))))
      @ [''''])
   = ['''',
      ''INSERT INTO public.person (name,age ) VALUES (  '' @ [CHR 0x27] @ ''Alice'' @ [CHR 0x27]
        @ '' , '' @ [CHR 0x27] @ ''30'' @ [CHR 0x27] @ ''  ); '',
      '''',
      ''INSERT INTO public.person (name,age ) VALUES (  '' @ [CHR 0x27] @ ''Bob'' @ [CHR 0x27]
        @ '' , null  ); '',
      '''', '''']"
  by code_simp

lemma ex_seed_entity_update:
  "ex_seed_entity\<lparr>en_documentation := Some (''Alice|30'' @ [newline] @ ''Bob|'')\<rparr> = ex_seed_entity"
  "''Alice|30'' @ [newline] @ ''Bob|'' \<noteq> []"
  by code_simp+

lemma ex_seed_entity_fields:
  "opt_tableInserts ex_insert_options"
  "en_documentation ex_seed_entity = Some (''Alice|30'' @ [newline] @ ''Bob|'')"
  "trim (''Alice|30'' @ [newline] @ ''Bob|'') \<noteq> []"
  "en_documentation (ex_seed_entity\<lparr>en_documentation := None\<rparr>) = None"
  by code_simp+

lemma ex_seed_entity_empty_run:
  "map_sum id (cw_lines \<circ> tr_codeWriter)
     (fst (generateTable ex_codegen ex_writer ex_writer
        (ex_seed_entity\<lparr>en_documentation := None, en_documentation := Some ''''\<rparr>)
        ex_insert_options ''public'' '''' [] ex_world))
   = Inr [''CREATE TABLE public.person ('', ''  name text,'', ''  age integer'', '');'', '''', '''']"
  "snd (generateTable ex_codegen ex_writer ex_writer
        (ex_seed_entity\<lparr>en_documentation := None, en_documentation := Some ''''\<rparr>)
        ex_insert_options ''public'' '''' [] ex_world) = ex_world"
  by code_simp+

lemma ex_keys_plain:
  "list_all2 same_but_flags (en_columns ex_keys_entity) ex_keys_plain_columns"
  "unique_names ex_keys_plain_columns = []"
  "foreignKey_names ex_keys_plain_columns = []"
  "foreignKey_names (en_columns ex_keys_entity) = []"
  "ex_keys_entity\<lparr>en_columns := en_columns ex_keys_entity\<rparr> = ex_keys_entity"
  by code_simp+



section \<open>The type mapper and auto-increment\<close>




section \<open>Column lines and the DEFAULT clause\<close>

text \<open>
  Claim C6: the line \<^verbatim>\<open>columnDeclaration\<close> renders for a column, given the default
  clause \<^verbatim>\<open>columnDefault\<close> computes for it, is the name, the mapped type and the
  optional \<^verbatim>\<open>NOT NULL\<close>. When the mapped type contains \<^verbatim>\<open>serial\<close> nothing more is
  appended, whatever the default annotation; otherwise a column with a default annotation
  gets \<^verbatim>\<open>DEFAULT\<close> and the annotation's value appended.
\<close>

theorem columnDeclaration_default:
  assumes "dataType elem = Inr ty"
  shows "\<exists>elem' comments'.
     columnDeclaration cg cn elem comments (columnDefault elem) =
       Inr (cn @ '' '' @ ty
            @ (if col_primaryKey elem \<or> \<not> col_nullable elem then '' NOT NULL'' else '''')
            @ (if \<exists>a b. ty = a @ ''serial'' @ b then ''''
               else case tag ''default'' (col_tags elem) of
                      None \<Rightarrow> '''' | Some t \<Rightarrow> '' DEFAULT '' @ tg_value t),
            elem', comments')"
  using assms indexOf_none [of ty "''serial''"]
  by (auto simp: columnDeclaration_def columnDefault_def Let_def split: option.splits)

theorem columnDeclaration_default_witness:
  "tag ''default'' (col_tags ex_id_column) = Some (ex_tag ''default'' ''5'')
   \<and> fst (projr (columnDeclaration ex_codegen ''id'' ex_id_column [] (columnDefault ex_id_column)))
       = ''id serial NOT NULL''
   \<and> fst (projr (columnDeclaration ex_codegen ''note'' ex_note_column [] (columnDefault ex_note_column)))
       = ''note text DEFAULT 0''"
proof -
  have id_type: "dataType ex_id_column = Inr ''serial''"
    by (simp add: ex_id_column_def ex_column_def dataType_def dataType_map_def
        typeOfWithOverride_def noLenFunc_def)
  have note_type: "dataType ex_note_column = Inr ''text''"
    by (simp add: ex_note_column_def ex_column_def dataType_def dataType_map_def
        typeOf_def noLenFunc_def)
  have serial: "\<exists>a b. ''serial'' = a @ ''serial'' @ b"
    using indexOf_none [of "''serial''" "''serial''"] by (simp add: indexOf_def)
  have plain: "\<not> (\<exists>a b. ''text'' = a @ ''serial'' @ b)"
    using indexOf_none [of "''text''" "''serial''"] by (simp add: indexOf_def)
  have tags: "tag ''default'' (col_tags ex_id_column) = Some (ex_tag ''default'' ''5'')"
    "tag ''default'' (col_tags ex_note_column) = Some (ex_tag ''default'' ''0'')"
    by (simp_all add: ex_id_column_def ex_note_column_def ex_column_def ex_tag_def tag_def)
  have flags: "col_primaryKey ex_id_column" "\<not> col_primaryKey ex_note_column"
    "col_nullable ex_note_column"
    by (simp_all add: ex_id_column_def ex_note_column_def ex_column_def)
  from columnDeclaration_default [OF id_type, of ex_codegen "''id''" "[]"] serial flags
  have l1: "fst (projr (columnDeclaration ex_codegen ''id'' ex_id_column []
      (columnDefault ex_id_column))) = ''id serial NOT NULL''"
    by auto
  from columnDeclaration_default [OF note_type, of ex_codegen "''note''" "[]"] plain tags flags
  have l2: "fst (projr (columnDeclaration ex_codegen ''note'' ex_note_column []
      (columnDefault ex_note_column))) = ''note text DEFAULT 0''"
    by (auto simp: ex_tag_def)
  from tags l1 l2 show ?thesis
    by simp
qed

section \<open>Foreign-key statements across diagrams\<close>

text \<open>
  Claim C1 says that the \<^verbatim>\<open>ALTER TABLE ... ADD CONSTRAINT\<close> statements collected for
  one diagram never reappear in the create output of a later diagram. \<^verbatim>\<open>generateTables\<close>
  creates \<^verbatim>\<open>refs\<close> once, before the loop over the diagrams, and never empties it. On a
  data model with the diagrams \<^verbatim>\<open>Sales\<close> (a table with a foreign key) and \<^verbatim>\<open>Log\<close> (a
  table without one), the statement collected for \<^verbatim>\<open>Sales\<close> is written to the create
  file of \<^verbatim>\<open>Sales\<close> and again to the create file of \<^verbatim>\<open>Log\<close>. Each file is shown as
  its list of lines.
\<close>

theorem generateTables_references_reappear:
  "map (apsnd (split newline))
     (files (snd (generateTables ex_codegen ex_shop ''out'' ex_options ''public'' ''shop'' ex_world)))
   = [(''out/shop_sales_create.sql'',
       [''CREATE TABLE public.orders ('', ''  id serial NOT NULL,'', ''  customer_id integer,'',
        ''  PRIMARY KEY (id)'', '');'', '''', ''CREATE INDEX ON public.orders'', ''  (customer_id);'',
        '''', '''',
        ''ALTER TABLE public.orders ADD CONSTRAINT FK_orders__customer_id FOREIGN KEY (customer_id) REFERENCES public.customer(id);'']),
      (''out/shop_sales_drop.sql'', [''DROP TABLE IF EXISTS public.orders CASCADE;'']),
      (''out/shop_log_create.sql'',
       [''CREATE TABLE public.audit ('', ''  note text'', '');'', '''', '''',
        ''ALTER TABLE public.orders ADD CONSTRAINT FK_orders__customer_id FOREIGN KEY (customer_id) REFERENCES public.customer(id);'']),
      (''out/shop_log_drop.sql'', [''DROP TABLE IF EXISTS public.audit CASCADE;''])]"
  by code_simp

section \<open>User indexes\<close>

text \<open>
  Claim C2 expects \<^verbatim>\<open>CREATE INDEX ON <table> (B DESC, A);\<close> for the columns \<^verbatim>\<open>A\<close>
  (sequence 2) and \<^verbatim>\<open>B\<close> (sequence 1, descending) tagged with the index name
  \<^verbatim>\<open>idx1\<close>. \<^verbatim>\<open>writeUserIndexes\<close> groups the entries in an array indexed by the index
  name and walks the array with \<^verbatim>\<open>forEach\<close>: a group stored under \<^verbatim>\<open>idx1\<close> is a
  property of the array, not an element, and is never visited, so only the closing empty
  line is written. Under the index name \<^verbatim>\<open>1\<close> the same columns give the statement the
  claim describes.
\<close>

theorem writeUserIndexes_named_group_dropped:
  "writeUserIndexes ex_writer ''public.t'' (ex_index_columns ''idx1'') ex_world
     = (Inr \<lparr>cw_lines = [''''], cw_indentations = [], cw_indentString = ''  ''\<rparr>, ex_world)
   \<and> writeUserIndexes ex_writer ''public.t'' (ex_index_columns ''1'') ex_world
     = (Inr \<lparr>cw_lines = ['' -- Index: 1'', ''CREATE INDEX ON public.t'', ''  (b DESC, a);'', ''''],
              cw_indentations = [], cw_indentString = ''  ''\<rparr>, ex_world)"
  by code_simp

section \<open>A table name that fails validation\<close>

text \<open>
  Claim C4 says that for the entity \<^verbatim>\<open>Order Item!\<close> without a \<^verbatim>\<open>table\<close> annotation no
  table statement is produced. \<^verbatim>\<open>tableName\<close> does report the error and return the empty
  string, but \<^verbatim>\<open>generateTable\<close> goes on with it: the statement is written with nothing
  after the schema and the prefix.
\<close>

theorem generateTable_invalid_table_name_counterexample:
  "en_name ex_bad_entity = ''Order Item!''
   \<and> tag ''table'' (en_tags ex_bad_entity) = None
   \<and> map_sum id (cw_lines \<circ> tr_codeWriter)
       (fst (generateTable ex_codegen ex_writer ex_writer ex_bad_entity ex_options ''public'' '''' []
          ex_world))
     = Inr [''CREATE TABLE public. ('', ''  id serial NOT NULL,'', ''  PRIMARY KEY (id)'', '');'', '''', '''']"
  by code_simp

text \<open>
  Claim C4 as amended: for an entity without a \<^verbatim>\<open>table\<close> annotation whose display name
  does not normalise to a valid identifier, the call of \<^verbatim>\<open>generateTable\<close> that the
  diagram loop makes shows the error toast right after the loop's info toast, still
  writes the \<^verbatim>\<open>CREATE TABLE\<close> line, with an empty table name after schema and prefix,
  and the loop goes on to the sibling entities with the writers and references that call
  left behind.
\<close>

theorem generateTable_invalid_table_name:
  assumes "tag ''table'' (en_tags e) = None"
    and "\<not> isValidIdentifier (replaceAll (en_name e) CHR '' '' CHR ''_'')"
    and "generateTable cg cw dw e opts schema prefix refs
           (toast Info (''Generate table DDL for '' @ en_name e) w) = (Inr r, w')"
  shows "(\<exists>ts. toasts w' = toasts w
            @ [(Info, ''Generate table DDL for '' @ en_name e),
               (Error, ''Table name is not valid: '' @ replaceAll (en_name e) CHR '' '' CHR ''_''
                  @ '', please edit the table tag for '' @ en_name e)] @ ts)
     \<and> (\<exists>pre post. cw_lines (tr_codeWriter r) =
            cw_lines cw @ pre
            @ [concat (cw_indentations cw) @ ''CREATE TABLE '' @ schema @ ''.'' @ prefix @ '' ('']
            @ post)
     \<and> forEach (entity_body cg opts schema prefix) (e # es) (cw, dw, refs) w
         = forEach (entity_body cg opts schema prefix) es (tr_codeWriter r, tr_dropWriter r, tr_refs r) w'"
proof -
  define w0 where "w0 = toast Info (''Generate table DDL for '' @ en_name e) w"
  define msg where "msg = ''Table name is not valid: '' @ replaceAll (en_name e) CHR '' '' CHR ''_''
                  @ '', please edit the table tag for '' @ en_name e"
  from assms(1,2) have tn: "tableName (en_name e) (en_tags e) w0 = ('''', toast Error msg w0)"
    by (simp add: tableName_def msg_def)
  from assms(3) have run: "generateTable cg cw dw e opts schema prefix refs w0 = (Inr r, w')"
    by (simp add: w0_def)
  from generateTable_grow [OF run] tn obtain ts where "toasts w' = toasts (toast Error msg w0) @ ts"
    by (auto simp: toasts_grow_def)
  then have "toasts w' = toasts w @ [(Info, ''Generate table DDL for '' @ en_name e), (Error, msg)] @ ts"
    by (simp add: toast_def w0_def)
  then have 1: "\<exists>ts. toasts w' = toasts w
      @ [(Info, ''Generate table DDL for '' @ en_name e), (Error, msg)] @ ts"
    by blast
  from generateTable_statement [OF run] tn
  have 2: "\<exists>pre post. cw_lines (tr_codeWriter r) =
            cw_lines cw @ pre
            @ [concat (cw_indentations cw) @ ''CREATE TABLE '' @ schema @ ''.'' @ prefix @ '' ('']
            @ post"
    by (metis append.assoc append_Nil fst_conv)
  have 3: "forEach (entity_body cg opts schema prefix) (e # es) (cw, dw, refs) w
         = forEach (entity_body cg opts schema prefix) es (tr_codeWriter r, tr_dropWriter r, tr_refs r) w'"
    using run by (simp add: entity_body_def w0_def)
  from 1 2 3 show ?thesis
    unfolding msg_def by blast
qed

theorem generateTable_invalid_table_name_witness:
  "\<exists>r w'. generateTable ex_codegen ex_writer ex_writer ex_bad_entity ex_options ''public'' '''' []
              (toast Info ''Generate table DDL for Order Item!'' ex_world) = (Inr r, w')
     \<and> (\<exists>ts. toasts w' =
            [(Info, ''Generate table DDL for Order Item!''),
             (Error, ''Table name is not valid: Order_Item!, please edit the table tag for Order Item!'')]
            @ ts)
     \<and> (\<exists>pre post. cw_lines (tr_codeWriter r) = pre @ [''CREATE TABLE public. (''] @ post)
     \<and> forEach (entity_body ex_codegen ex_options ''public'' '''') [ex_bad_entity, ex_customer_entity]
           (ex_writer, ex_writer, []) ex_world
         = forEach (entity_body ex_codegen ex_options ''public'' '''') [ex_customer_entity]
             (tr_codeWriter r, tr_dropWriter r, tr_refs r) w'"
proof -
  from ex_bad_entity_run obtain r w' where
    run: "generateTable ex_codegen ex_writer ex_writer ex_bad_entity ex_options ''public'' '''' []
            (toast Info (''Generate table DDL for '' @ en_name ex_bad_entity) ex_world) = (Inr r, w')"
    by (rule outcome_InrE)
  have invalid: "\<not> isValidIdentifier (replaceAll (en_name ex_bad_entity) CHR '' '' CHR ''_'')"
    by (simp add: ex_bad_entity_name)
  from generateTable_invalid_table_name [OF ex_bad_entity_name(1) invalid run, of "[ex_customer_entity]"]
  have "(\<exists>ts. toasts w' =
            [(Info, ''Generate table DDL for Order Item!''),
             (Error, ''Table name is not valid: Order_Item!, please edit the table tag for Order Item!'')]
            @ ts)
     \<and> (\<exists>pre post. cw_lines (tr_codeWriter r) = pre @ [''CREATE TABLE public. (''] @ post)
     \<and> forEach (entity_body ex_codegen ex_options ''public'' '''') [ex_bad_entity, ex_customer_entity]
           (ex_writer, ex_writer, []) ex_world
         = forEach (entity_body ex_codegen ex_options ''public'' '''') [ex_customer_entity]
             (tr_codeWriter r, tr_dropWriter r, tr_refs r) w'"
    by (simp add: ex_bad_entity_name ex_writer_fields ex_world_def)
  with run show ?thesis
    by (simp add: ex_bad_entity_name)
qed

section \<open>A run without a project\<close>





section \<open>The primary key clause\<close>

text \<open>
  Claim C7 says that no column flagged primary key is left out of the
  \<^verbatim>\<open>PRIMARY KEY (...)\<close> clause. The \<^verbatim>\<open>// Columns\<close> loop guards everything it does
  for a column by \<^verbatim>\<open>if (column)\<close>: a column whose name fails validation is skipped,
  key or not. The table \<^verbatim>\<open>Invoice\<close> has one key column, named \<^verbatim>\<open>invoice no!\<close>; its
  statement has no key clause at all.
\<close>

theorem generateTable_primary_key_counterexample:
  "map col_primaryKey (en_columns ex_lost_key_entity) = [True, False]
   \<and> map_sum id (cw_lines \<circ> tr_codeWriter)
       (fst (generateTable ex_codegen ex_writer ex_writer ex_lost_key_entity ex_options ''public'' ''''
          [] ex_world))
     = Inr [''CREATE TABLE public.invoice ('', ''  note text'', '');'', '''', '''']"
  by code_simp

text \<open>
  Claim C7 as amended: when at least one column flagged primary key has a name that
  resolves to a valid identifier, the table statement consists of the
  \<^verbatim>\<open>CREATE TABLE\<close> line, one line (ending in a comma) for each column whose name
  resolves, then the clause \<^verbatim>\<open>PRIMARY KEY (...)\<close>, then the closing line; the clause
  lists the resolved names of exactly the key columns whose name resolves, in declaration
  order.
\<close>

theorem generateTable_primary_key:
  assumes "generateTable cg cw dw e opts schema prefix refs w = (Inr r, w')"
    and "primaryKey_names (en_columns e) \<noteq> []"
  shows "\<exists>pre ls post.
     cw_lines (tr_codeWriter r) =
       cw_lines cw @ pre
       @ [concat (cw_indentations cw) @ ''CREATE TABLE '' @ schema @ ''.'' @ prefix
            @ fst (tableName (en_name e) (en_tags e) w) @ '' ('']
       @ map (\<lambda>l. concat (cw_indentations cw) @ cw_indentString cw @ l @ '','') ls
       @ [concat (cw_indentations cw) @ cw_indentString cw @ ''PRIMARY KEY (''
            @ join '', '' (primaryKey_names (en_columns e)) @ '')'',
          concat (cw_indentations cw) @ '');'']
       @ post
     \<and> length ls = length (named_columns (en_columns e))"
proof -
  from generateTable_statement [OF assms(1)] obtain pre ls post where
    lines: "cw_lines (tr_codeWriter r) =
       cw_lines cw @ pre
       @ [concat (cw_indentations cw) @ ''CREATE TABLE '' @ schema @ ''.'' @ prefix
            @ fst (tableName (en_name e) (en_tags e) w) @ '' ('']
       @ map (\<lambda>l. concat (cw_indentations cw) @ cw_indentString cw @ l)
           (with_commas (ls @ (if primaryKey_names (en_columns e) = [] then []
              else [''PRIMARY KEY ('' @ join '', '' (primaryKey_names (en_columns e)) @ '')''])))
       @ [concat (cw_indentations cw) @ '');'', '''']
       @ (if unique_names (en_columns e) = [] then []
          else [concat (cw_indentations cw) @ ''ALTER TABLE '' @ schema @ ''.'' @ prefix
                  @ fst (tableName (en_name e) (en_tags e) w),
                concat (cw_indentations cw) @ cw_indentString cw @ ''ADD UNIQUE (''
                  @ join '', '' (unique_names (en_columns e)) @ '');'',
                ''''])
       @ post"
    and len: "length ls = length (named_columns (en_columns e))"
    by blast
  define rest where "rest = [''''] @ (if unique_names (en_columns e) = [] then []
          else [concat (cw_indentations cw) @ ''ALTER TABLE '' @ schema @ ''.'' @ prefix
                  @ fst (tableName (en_name e) (en_tags e) w),
                concat (cw_indentations cw) @ cw_indentString cw @ ''ADD UNIQUE (''
                  @ join '', '' (unique_names (en_columns e)) @ '');'',
                '''']) @ post"
  from lines assms(2) have "cw_lines (tr_codeWriter r) =
       cw_lines cw @ pre
       @ [concat (cw_indentations cw) @ ''CREATE TABLE '' @ schema @ ''.'' @ prefix
            @ fst (tableName (en_name e) (en_tags e) w) @ '' ('']
       @ map (\<lambda>l. concat (cw_indentations cw) @ cw_indentString cw @ l @ '','') ls
       @ [concat (cw_indentations cw) @ cw_indentString cw @ ''PRIMARY KEY (''
            @ join '', '' (primaryKey_names (en_columns e)) @ '')'',
          concat (cw_indentations cw) @ '');'']
       @ rest"
    by (simp add: with_commas_snoc rest_def comp_def)
  with len show ?thesis
    by blast
qed

theorem generateTable_primary_key_witness:
  "primaryKey_names (en_columns ex_keys_entity) = [''room'', ''day'']
   \<and> (\<exists>r w' pre ls post.
        generateTable ex_codegen ex_writer ex_writer ex_keys_entity ex_options ''public'' '''' []
          ex_world = (Inr r, w')
        \<and> cw_lines (tr_codeWriter r) =
            pre @ [''CREATE TABLE public.booking ('']
            @ map (\<lambda>l. ''  '' @ l @ '','') ls
            @ [''  PRIMARY KEY (room, day)'', '');''] @ post
        \<and> length ls = 5)"
proof -
  from ex_keys_entity_run obtain r w' where
    run: "generateTable ex_codegen ex_writer ex_writer ex_keys_entity ex_options ''public'' '''' []
            ex_world = (Inr r, w')"
    by (rule outcome_InrE)
  have keys: "primaryKey_names (en_columns ex_keys_entity) \<noteq> []"
    by (simp add: ex_keys_entity_names)
  from generateTable_primary_key [OF run keys]
  have "\<exists>pre ls post.
        cw_lines (tr_codeWriter r) =
            pre @ [''CREATE TABLE public.booking ('']
            @ map (\<lambda>l. ''  '' @ l @ '','') ls
            @ [''  PRIMARY KEY (room, day)'', '');''] @ post
        \<and> length ls = 5"
    by (simp add: ex_keys_entity_names ex_writer_fields)
  with run ex_keys_entity_names(1) show ?thesis
    by blast
qed

section \<open>The unique constraint\<close>

text \<open>
  Claim C9 says that every entity with a unique column that is not a key gets exactly one
  \<^verbatim>\<open>ALTER TABLE ... ADD UNIQUE\<close> statement listing all such columns. The same guard
  \<^verbatim>\<open>if (column)\<close> skips a unique column whose name fails validation. The table
  \<^verbatim>\<open>Member\<close> has one unique column that is not a key, named \<^verbatim>\<open>nick name!\<close>; no
  \<^verbatim>\<open>ADD UNIQUE\<close> statement is written for it.
\<close>

theorem generateTable_unique_constraint_counterexample:
  "map col_unique (en_columns ex_lost_unique_entity) = [False, True]
   \<and> map col_primaryKey (en_columns ex_lost_unique_entity) = [True, False]
   \<and> map_sum id (cw_lines \<circ> tr_codeWriter)
       (fst (generateTable ex_codegen ex_writer ex_writer ex_lost_unique_entity ex_options ''public''
          '''' [] ex_world))
     = Inr [''CREATE TABLE public.member ('', ''  id serial NOT NULL,'', ''  PRIMARY KEY (id)'', '');'',
            '''', '''']"
  by code_simp

text \<open>
  Claim C9 as amended: the \<^verbatim>\<open>unique\<close> flags reach the output at one place only. With
  everything else about the entity fixed, the lines before and after that place are
  the same whatever the \<^verbatim>\<open>unique\<close> and \<^verbatim>\<open>foreignKey\<close> flags of the columns are. Right
  after the closing line of the table statement and its empty line stands exactly one
  \<^verbatim>\<open>ALTER TABLE\<close> statement whose \<^verbatim>\<open>ADD UNIQUE (...)\<close> lists together, in declaration
  order, the resolved names of all columns that are flagged unique, are no primary key
  and have a name that resolves; when there is no such column there is no such
  statement. The simple indexes of the foreign keys that are neither unique nor part of
  the key follow. A column flagged both primary key and unique is not in the list.
\<close>

theorem generateTable_unique_constraint:
  assumes "generateTable cg cw dw e opts schema prefix refs w = (Inr r, w')"
  shows "\<exists>head tail. \<forall>cols'. list_all2 same_but_flags (en_columns e) cols' \<longrightarrow>
     (\<exists>r'. generateTable cg cw dw (e\<lparr>en_columns := cols'\<rparr>) opts schema prefix refs w = (Inr r', w')
        \<and> cw_lines (tr_codeWriter r') =
            cw_lines cw @ head
            @ [concat (cw_indentations cw) @ '');'', '''']
            @ (if unique_names cols' = [] then []
               else [concat (cw_indentations cw) @ ''ALTER TABLE '' @ schema @ ''.'' @ prefix
                       @ fst (tableName (en_name e) (en_tags e) w),
                     concat (cw_indentations cw) @ cw_indentString cw @ ''ADD UNIQUE (''
                       @ join '', '' (unique_names cols') @ '');'',
                     ''''])
            @ (if foreignKey_names cols' = [] then []
               else concat (map (\<lambda>n.
                       [concat (cw_indentations cw) @ ''CREATE INDEX ON '' @ schema @ ''.'' @ prefix
                          @ fst (tableName (en_name e) (en_tags e) w),
                        concat (cw_indentations cw) @ cw_indentString cw @ ''('' @ n @ '');''])
                     (foreignKey_names cols'))
                    @ [''''])
            @ tail)"
proof -
  from assms obtain tn w1 cw1 de cols1 w2 tv w3 refs1 w4 cw7 w5 cw10 w6 cw11 where
    tn: "tableName (en_name e) (en_tags e) w = (tn, w1)" and
    enums: "forEach (enums_body cg (schema @ ''.'' @ prefix @ tn)) (en_columns e) (cw, [], []) w1
       = (Inr (cw1, de, cols1), w2)" and
    cols: "forEach (columns_body cg opts) cols1
       \<lparr>tv_lines = [], tv_primaryKeys = [], tv_foreignKeys = [], tv_foreignKeyCtr = [],
        tv_uniques = [], tv_comments = [], tv_columns = []\<rparr> w2 = (Inr tv, w3)" and
    refs: "fold (refs_body (schema @ ''.'' @ prefix @ tn) (prefix @ tn)) (tv_foreignKeyCtr tv) (refs, w3)
       = (refs1, w4)" and
    idx: "writeUserIndexes
       (writeForeignKeyIndexes (schema @ ''.'' @ prefix @ tn) (tv_foreignKeys tv)
          (writeUniques (schema @ ''.'' @ prefix @ tn) (tv_uniques tv)
             (writeTableBody tv
                (indent (writeLine (''CREATE TABLE '' @ (schema @ ''.'' @ prefix @ tn) @ '' ('') cw1)))))
       (schema @ ''.'' @ prefix @ tn) (tv_columns tv) w4 = (Inr cw7, w5)" and
    trig: "fold (trigger_body opts (schema @ ''.'' @ prefix @ tn) (prefix @ tn)) (en_tags e)
       (writeComments cg opts (schema @ ''.'' @ prefix @ tn) (en_documentation e) (tv_comments tv) cw7, w5)
       = (cw10, w6)" and
    ins: "generateInserts opts (schema @ ''.'' @ prefix @ tn) (en_documentation e) (tv_columns tv) cw10 w6
       = (Inr cw11, w')"
    by (rule generateTable_InrE)
  define table where "table = schema @ ''.'' @ prefix @ tn"
  define ind where "ind = concat (cw_indentations cw)"
  define tv0 where "tv0 = \<lparr>tv_lines = [], tv_primaryKeys = [], tv_foreignKeys = [],
    tv_foreignKeyCtr = ([] :: column list), tv_uniques = [],
    tv_comments = ([] :: (string \<times> string) list), tv_columns = ([] :: column list)\<rparr>"
  note enums = enums [folded table_def]
  note cols = cols [folded tv0_def]
  note refs = refs [folded table_def]
  note idx = idx [folded table_def]
  note trig = trig [folded table_def]
  note ins = ins [folded table_def]
  from enums_loop [OF enums] have e1: "extends cw cw1"
    by auto
  then obtain pre where pre: "cw_lines cw1 = cw_lines cw @ pre"
    and fr1: "cw_indentations cw1 = cw_indentations cw" "cw_indentString cw1 = cw_indentString cw"
    by (auto simp: extends_def)
  from columns_loop [OF cols] have ls: "list_all (\<lambda>l. l \<noteq> []) (tv_lines tv)"
    by (auto simp: tv0_def)
  define cw2 where "cw2 = indent (writeLine (''CREATE TABLE '' @ table @ '' ('') cw1)"
  define cw4 where "cw4 = writeTableBody tv cw2"
  define head where "head = pre @ [ind @ ''CREATE TABLE '' @ table @ '' ('']
     @ map (\<lambda>l. ind @ cw_indentString cw @ l)
         (with_commas (tv_lines tv @ (if tv_primaryKeys tv = [] then []
            else [''PRIMARY KEY ('' @ join '', '' (tv_primaryKeys tv) @ '')''])))"
  have f2: "cw_indentations cw2 = cw_indentations cw @ [cw_indentString cw]"
      "cw_indentString cw2 = cw_indentString cw"
    and l2: "cw_lines cw2 = cw_lines cw @ pre @ [ind @ ''CREATE TABLE '' @ table @ '' ('']"
    by (simp_all add: cw2_def pre fr1 ind_def)
  have l4: "cw_lines cw4 = cw_lines cw @ head @ [ind @ '');'', '''']"
    using writeTableBody_lines [OF ls, of cw2]
    by (simp add: cw4_def f2 l2 head_def ind_def)
  have f4: "cw_indentations cw4 = cw_indentations cw" "cw_indentString cw4 = cw_indentString cw"
    by (simp_all add: cw4_def writeTableBody_frame f2)
  define base where "base = \<lparr>cw_lines = [], cw_indentations = cw_indentations cw,
      cw_indentString = cw_indentString cw\<rparr>"
  have based: "X = prepend (cw_lines X) base"
    if "cw_indentations X = cw_indentations cw" "cw_indentString X = cw_indentString cw" for X
    using prepend_base [of X] that by (simp add: base_def)
  define X where "X = writeForeignKeyIndexes table (tv_foreignKeys tv)
      (writeUniques table (tv_uniques tv) cw4)"
  have X: "X = prepend (cw_lines X) base"
    by (rule based) (simp_all add: X_def writeForeignKeyIndexes_lines writeUniques_lines f4)
  have idxX: "writeUserIndexes (prepend (cw_lines X) base) table (tv_columns tv) w4 = (Inr cw7, w5)"
    using idx X by (simp add: X_def cw4_def cw2_def)
  obtain b7 where b7: "writeUserIndexes base table (tv_columns tv) w4 = (Inr b7, w5)"
    and cw7: "cw7 = prepend (cw_lines X) b7"
    using idxX unfolding prepend_writeUserIndexes by (auto split: prod.splits sum.splits)
  define b9 where "b9 = writeComments cg opts table (en_documentation e) (tv_comments tv) b7"
  define b10 where "b10 = fst (fold (trigger_body opts table (prefix @ tn)) (en_tags e) (b9, w5))"
  have trigb: "cw10 = prepend (cw_lines X) b10"
    "snd (fold (trigger_body opts table (prefix @ tn)) (en_tags e) (b9, w5)) = w6"
    using trig unfolding cw7 by (simp_all add: prepend_trigger_fold b9_def b10_def)
  obtain b11 where b11: "generateInserts opts table (en_documentation e) (tv_columns tv) b10 w6
      = (Inr b11, w')"
    and cw11: "cw11 = prepend (cw_lines X) b11"
    using ins unfolding trigb(1) prepend_generateInserts by (auto split: prod.splits sum.splits)
  define bf where "bf = (if \<not> truthy (en_documentation e) \<and> length (tv_comments tv) = 0 then b11
      else writeLine '''' b11)"
  have tn_eq: "fst (tableName (en_name e) (en_tags e) w) = tn"
    by (simp add: tn)
  have "\<exists>r'. generateTable cg cw dw (e\<lparr>en_columns := cols'\<rparr>) opts schema prefix refs w = (Inr r', w')
        \<and> cw_lines (tr_codeWriter r') =
            cw_lines cw @ head
            @ [ind @ '');'', '''']
            @ (if unique_names cols' = [] then []
               else [ind @ ''ALTER TABLE '' @ table,
                     ind @ cw_indentString cw @ ''ADD UNIQUE (''
                       @ join '', '' (unique_names cols') @ '');'',
                     ''''])
            @ (if foreignKey_names cols' = [] then []
               else concat (map (\<lambda>n.
                       [ind @ ''CREATE INDEX ON '' @ table,
                        ind @ cw_indentString cw @ ''('' @ n @ '');''])
                     (foreignKey_names cols'))
                    @ [''''])
            @ cw_lines bf"
    if rel: "list_all2 same_but_flags (en_columns e) cols'" for cols'
  proof -
    define e' where "e' = e\<lparr>en_columns := cols'\<rparr>"
    have tn': "tableName (en_name e') (en_tags e') w = (tn, w1)"
      by (simp add: e'_def tn)
    from enums_loop_sim [OF rel enums] obtain cols1' where
      enums': "forEach (enums_body cg table) (en_columns e') (cw, [], []) w1 = (Inr (cw1, de, cols1'), w2)"
      and rel1: "list_all2 same_but_flags cols1 cols1'"
      by (auto simp: e'_def)
    from enums_loop [OF enums'] have ident: "list_all2 same_ident cols' cols1'"
      by (auto simp: e'_def)
    from columns_loop_sim [OF rel1 _ _ _ _ _ cols, of tv0] obtain tv' where
      cols': "forEach (columns_body cg opts) cols1' tv0 w2 = (Inr tv', w3)"
      and tv': "tv_lines tv' = tv_lines tv" "tv_primaryKeys tv' = tv_primaryKeys tv"
        "tv_comments tv' = tv_comments tv"
        "list_all2 same_but_flags (tv_columns tv) (tv_columns tv')"
        "list_all2 same_but_flags (tv_foreignKeyCtr tv) (tv_foreignKeyCtr tv')"
      by auto
    from columns_loop [OF cols'] same_ident_names(2) [OF ident]
    have uq: "tv_uniques tv' = unique_names cols'"
      by (simp add: tv0_def)
    from columns_loop_foreignKeys [OF cols'] same_ident_foreignKey_names [OF ident]
    have fk: "tv_foreignKeys tv' = foreignKey_names cols'"
      by (simp add: tv0_def)
    have body: "writeTableBody tv' cw2 = cw4"
      unfolding cw4_def using tv'(1,2) by (rule writeTableBody_cong)
    define Y where "Y = writeForeignKeyIndexes table (tv_foreignKeys tv')
      (writeUniques table (tv_uniques tv') cw4)"
    have Y: "Y = prepend (cw_lines Y) base"
      by (rule based) (simp_all add: Y_def writeForeignKeyIndexes_lines writeUniques_lines f4)
    have lY: "cw_lines Y = cw_lines cw @ head @ [ind @ '');'', '''']
            @ (if unique_names cols' = [] then []
               else [ind @ ''ALTER TABLE '' @ table,
                     ind @ cw_indentString cw @ ''ADD UNIQUE (''
                       @ join '', '' (unique_names cols') @ '');'',
                     ''''])
            @ (if foreignKey_names cols' = [] then []
               else concat (map (\<lambda>n.
                       [ind @ ''CREATE INDEX ON '' @ table,
                        ind @ cw_indentString cw @ ''('' @ n @ '');''])
                     (foreignKey_names cols'))
                    @ [''''])"
      by (simp add: Y_def writeForeignKeyIndexes_lines writeUniques_lines f4 l4 uq fk ind_def)
    have refs': "fold (refs_body table (prefix @ tn)) (tv_foreignKeyCtr tv') (refs, w3) = (refs1, w4)"
      using refs by (simp add: refs_fold_flags [OF tv'(5)])
    have "writeUserIndexes (prepend (cw_lines Y) base) table (tv_columns tv') w4
        = (Inr (prepend (cw_lines Y) b7), w5)"
      by (simp add: writeUserIndexes_flags [OF tv'(4)] prepend_writeUserIndexes b7)
    then have idx': "writeUserIndexes
       (writeForeignKeyIndexes table (tv_foreignKeys tv')
          (writeUniques table (tv_uniques tv')
             (writeTableBody tv' (indent (writeLine (''CREATE TABLE '' @ table @ '' ('') cw1)))))
       table (tv_columns tv') w4 = (Inr (prepend (cw_lines Y) b7), w5)"
      using Y body by (simp add: Y_def cw2_def)
    have trig': "fold (trigger_body opts table (prefix @ tn)) (en_tags e')
       (writeComments cg opts table (en_documentation e') (tv_comments tv') (prepend (cw_lines Y) b7), w5)
       = (prepend (cw_lines Y) b10, w6)"
      using trigb(2) by (simp add: e'_def tv'(3) prepend_trigger_fold b9_def [symmetric] b10_def)
    have ins': "generateInserts opts table (en_documentation e') (tv_columns tv')
        (prepend (cw_lines Y) b10) w6 = (Inr (prepend (cw_lines Y) b11), w')"
      by (simp add: e'_def generateInserts_flags [OF tv'(4)] prepend_generateInserts b11)
    from generateTable_InrI [OF tn' enums' [unfolded table_def] cols' [unfolded tv0_def]
        refs' [unfolded table_def] idx' [unfolded table_def] trig' [unfolded table_def]
        ins' [unfolded table_def], of dw]
    obtain r' where run': "generateTable cg cw dw e' opts schema prefix refs w = (Inr r', w')"
      and out': "tr_codeWriter r' =
        (if \<not> truthy (en_documentation e') \<and> length (tv_comments tv') = 0
         then prepend (cw_lines Y) b11 else writeLine '''' (prepend (cw_lines Y) b11))"
      by simp
    have "tr_codeWriter r' = prepend (cw_lines Y) bf"
      by (simp add: out' bf_def e'_def tv'(3))
    then have "cw_lines (tr_codeWriter r') = cw_lines Y @ cw_lines bf"
      by simp
    with run' show ?thesis
      unfolding lY e'_def by auto
  qed
  then show ?thesis
    unfolding ind_def table_def tn_eq by blast
qed

theorem generateTable_unique_constraint_witness:
  "unique_names (en_columns ex_keys_entity) = [''email'', ''code'']
   \<and> col_unique (hd (en_columns ex_keys_entity)) \<and> col_primaryKey (hd (en_columns ex_keys_entity))
   \<and> list_all2 same_but_flags (en_columns ex_keys_entity) ex_keys_plain_columns
   \<and> unique_names ex_keys_plain_columns = []
   \<and> (\<exists>r w' head tail.
        generateTable ex_codegen ex_writer ex_writer ex_keys_entity ex_options ''public'' '''' []
          ex_world = (Inr r, w')
        \<and> cw_lines (tr_codeWriter r) =
            head @ ['');'', '''', ''ALTER TABLE public.booking'', ''  ADD UNIQUE (email, code);'', '''']
            @ tail
        \<and> (\<exists>r0.
             generateTable ex_codegen ex_writer ex_writer
               (ex_keys_entity\<lparr>en_columns := ex_keys_plain_columns\<rparr>) ex_options ''public'' '''' []
               ex_world = (Inr r0, w')
             \<and> cw_lines (tr_codeWriter r0) = head @ ['');'', ''''] @ tail))"
proof -
  from ex_keys_entity_run obtain r w' where
    run: "generateTable ex_codegen ex_writer ex_writer ex_keys_entity ex_options ''public'' '''' []
            ex_world = (Inr r, w')"
    by (rule outcome_InrE)
  from generateTable_unique_constraint [OF run] obtain head tail where
    every: "\<forall>cols'. list_all2 same_but_flags (en_columns ex_keys_entity) cols' \<longrightarrow>
     (\<exists>r'. generateTable ex_codegen ex_writer ex_writer (ex_keys_entity\<lparr>en_columns := cols'\<rparr>)
             ex_options ''public'' '''' [] ex_world = (Inr r', w')
        \<and> cw_lines (tr_codeWriter r') =
            cw_lines ex_writer @ head
            @ [concat (cw_indentations ex_writer) @ '');'', '''']
            @ (if unique_names cols' = [] then []
               else [concat (cw_indentations ex_writer) @ ''ALTER TABLE '' @ ''public'' @ ''.'' @ ''''
                       @ fst (tableName (en_name ex_keys_entity) (en_tags ex_keys_entity) ex_world),
                     concat (cw_indentations ex_writer) @ cw_indentString ex_writer @ ''ADD UNIQUE (''
                       @ join '', '' (unique_names cols') @ '');'',
                     ''''])
            @ (if foreignKey_names cols' = [] then []
               else concat (map (\<lambda>n.
                       [concat (cw_indentations ex_writer) @ ''CREATE INDEX ON '' @ ''public'' @ ''.'' @ ''''
                          @ fst (tableName (en_name ex_keys_entity) (en_tags ex_keys_entity) ex_world),
                        concat (cw_indentations ex_writer) @ cw_indentString ex_writer @ ''('' @ n @ '');''])
                     (foreignKey_names cols'))
                    @ [''''])
            @ tail)"
    by blast
  from every [THEN spec, of "en_columns ex_keys_entity"] run
  have own: "cw_lines (tr_codeWriter r) =
            head @ ['');'', '''', ''ALTER TABLE public.booking'', ''  ADD UNIQUE (email, code);'', '''']
            @ tail"
    by (simp add: ex_keys_plain(4,5) ex_keys_entity_names ex_writer_fields)
  from every [THEN spec, of ex_keys_plain_columns] ex_keys_plain(1)
  have plain: "\<exists>r0.
             generateTable ex_codegen ex_writer ex_writer
               (ex_keys_entity\<lparr>en_columns := ex_keys_plain_columns\<rparr>) ex_options ''public'' '''' []
               ex_world = (Inr r0, w')
             \<and> cw_lines (tr_codeWriter r0) = head @ ['');'', ''''] @ tail"
    by (simp add: ex_keys_plain(2,3) ex_writer_fields)
  have "col_unique (hd (en_columns ex_keys_entity))"
    "col_primaryKey (hd (en_columns ex_keys_entity))"
    by (simp_all add: ex_keys_entity_def ex_entity_def ex_column_def)
  with run own plain ex_keys_entity_names(2) ex_keys_plain(1,2) show ?thesis
    by blast
qed


section \<open>Seed inserts\<close>

text \<open>
  Claim C8 says that each line of the documentation becomes one \<^verbatim>\<open>INSERT\<close> statement.
  The documentation is trimmed before it is split into lines. A text that starts with
  an empty line has two lines, and only the second becomes a statement.
\<close>

theorem generateTable_seed_inserts_counterexample:
  "split newline ([newline] @ ''Alice|30'') = ['''', ''Alice|30'']
   \<and> map_sum id (cw_lines \<circ> tr_codeWriter)
       (fst (generateTable ex_codegen ex_writer ex_writer
          (ex_seed_entity\<lparr>en_documentation := Some ([newline] @ ''Alice|30'')\<rparr>)
          ex_insert_options ''public'' '''' [] ex_world))
     = Inr [''CREATE TABLE public.person ('', ''  name text,'', ''  age integer'', '');'', '''', '''', '''',
            ''INSERT INTO public.person (name,age ) VALUES (  '' @ [CHR 0x27] @ ''Alice'' @ [CHR 0x27]
              @ '' , '' @ [CHR 0x27] @ ''30'' @ [CHR 0x27] @ ''  ); '',
            '''', '''', '''']"
  by code_simp

text \<open>
  Claim C8 as amended: in seed-insert mode the documentation is trimmed first. When
  nothing is left no \<^verbatim>\<open>INSERT\<close> is written. Otherwise an empty line is written, then
  for each line of the trimmed text one \<^verbatim>\<open>INSERT INTO\<close> statement followed by an empty
  line, then another empty line. The statement names the table and the resolved column
  names joined by commas; then, for each column position in declaration order, it has
  the field of the line at that position (the line split at \<^verbatim>\<open>|\<close>) in single quotes,
  or \<^verbatim>\<open>null\<close> when the line has no field there or an empty one; fields beyond the last
  column are left out. This holds for every documentation text, the lines before the
  block being the same for all of them. The text \<^verbatim>\<open>Alice|30\<close>, \<^verbatim>\<open>Bob|\<close> for the
  columns \<^verbatim>\<open>name\<close> and \<^verbatim>\<open>age\<close> gives two statements, the second with \<^verbatim>\<open>null\<close>
  for \<^verbatim>\<open>age\<close>.
\<close>

theorem generateTable_seed_inserts:
  assumes "opt_tableInserts opts"
    and "generateTable cg cw dw e opts schema prefix refs w = (Inr r0, w0)"
  shows "\<exists>pre c. \<forall>d. \<exists>r w'.
     generateTable cg cw dw (e\<lparr>en_documentation := Some d\<rparr>) opts schema prefix refs w = (Inr r, w')
     \<and> cw_lines (tr_codeWriter r) =
         cw_lines cw @ pre
         @ (if trim d = [] then []
            else ['''']
              @ concat (map (\<lambda>l. [concat (cw_indentations cw)
                    @ ''INSERT INTO '' @ schema @ ''.'' @ prefix
                    @ fst (tableName (en_name e) (en_tags e) w) @ '' (''
                    @ join '','' (map column_identifier (en_columns e)) @ '' ) VALUES ( ''
                    @ concat (map (\<lambda>i.
                        (if i < length (split CHR ''|'' l) \<and> split CHR ''|'' l ! i \<noteq> []
                         then '' '' @ [CHR 0x27] @ split CHR ''|'' l ! i @ [CHR 0x27] @ '' ''
                         else '' null '')
                        @ (if i + 1 < length (en_columns e) then '','' else ''''))
                        [0..<length (en_columns e)])
                    @ '' ); '',
                  '''']) (split newline (trim d)))
              @ [''''])
         @ (if d = [] \<and> c then [] else [''''])"
proof -
  from assms(2) obtain tn w1 cw1 de cols1 w2 tv w3 refs1 w4 cw7 w5 cw10 w6 cw11 where
    tn: "tableName (en_name e) (en_tags e) w = (tn, w1)" and
    enums: "forEach (enums_body cg (schema @ ''.'' @ prefix @ tn)) (en_columns e) (cw, [], []) w1
       = (Inr (cw1, de, cols1), w2)" and
    cols: "forEach (columns_body cg opts) cols1
       \<lparr>tv_lines = [], tv_primaryKeys = [], tv_foreignKeys = [], tv_foreignKeyCtr = [],
        tv_uniques = [], tv_comments = [], tv_columns = []\<rparr> w2 = (Inr tv, w3)" and
    refs: "fold (refs_body (schema @ ''.'' @ prefix @ tn) (prefix @ tn)) (tv_foreignKeyCtr tv) (refs, w3)
       = (refs1, w4)" and
    idx: "writeUserIndexes
       (writeForeignKeyIndexes (schema @ ''.'' @ prefix @ tn) (tv_foreignKeys tv)
          (writeUniques (schema @ ''.'' @ prefix @ tn) (tv_uniques tv)
             (writeTableBody tv
                (indent (writeLine (''CREATE TABLE '' @ (schema @ ''.'' @ prefix @ tn) @ '' ('') cw1)))))
       (schema @ ''.'' @ prefix @ tn) (tv_columns tv) w4 = (Inr cw7, w5)" and
    trig: "fold (trigger_body opts (schema @ ''.'' @ prefix @ tn) (prefix @ tn)) (en_tags e)
       (writeComments cg opts (schema @ ''.'' @ prefix @ tn) (en_documentation e) (tv_comments tv) cw7, w5)
       = (cw10, w6)"
    by (rule generateTable_InrE)
  define table where "table = schema @ ''.'' @ prefix @ tn"
  note idx = idx [folded table_def]
  note trig = trig [folded table_def]
  note enums = enums [folded table_def]
  note refs = refs [folded table_def]
  have comments: "writeComments cg opts table dd (tv_comments tv) cw7
      = fold (comment_body table) (tv_comments tv) cw7" for dd
    using assms(1) by (simp add: writeComments_def)
  from trig have trig': "fold (trigger_body opts table (prefix @ tn)) (en_tags e)
       (fold (comment_body table) (tv_comments tv) cw7, w5) = (cw10, w6)"
    by (simp add: comments)
  \<comment> \<open>the writer before the insert block\<close>
  from enums_loop [OF enums] have e1: "extends cw cw1"
    and c1: "list_all2 same_ident (en_columns e) cols1"
    by auto
  from columns_loop [OF cols] have c2: "list_all2 same_ident cols1 (tv_columns tv)"
    by auto
  from c1 c2 have same: "list_all2 same_ident (en_columns e) (tv_columns tv)"
    by (rule list_all2_same_ident_trans)
  then have ids: "map column_identifier (tv_columns tv) = map column_identifier (en_columns e)"
    and len: "length (tv_columns tv) = length (en_columns e)"
    by (simp_all add: same_ident_names list_all2_lengthD)
  define cw2 where "cw2 = indent (writeLine (''CREATE TABLE '' @ table @ '' ('') cw1)"
  define cw4 where "cw4 = writeTableBody tv cw2"
  define cw5 where "cw5 = writeUniques table (tv_uniques tv) cw4"
  define cw6 where "cw6 = writeForeignKeyIndexes table (tv_foreignKeys tv) cw5"
  define cw9 where "cw9 = fold (comment_body table) (tv_comments tv) cw7"
  have "extends cw1 cw4"
    by (auto simp: extends_def cw4_def cw2_def writeTableBody_def Let_def)
  moreover have "extends cw4 cw5"
    unfolding cw5_def by (rule extends_writeUniques)
  moreover have "extends cw5 cw6"
    unfolding cw6_def by (rule extends_writeForeignKeyIndexes)
  moreover have "extends cw6 cw7"
    using idx unfolding cw6_def cw5_def cw4_def cw2_def by (rule extends_writeUserIndexes)
  moreover have "extends cw7 cw9"
    unfolding cw9_def by (rule extends_fold) (rule extends_comment_body)
  moreover have "extends cw9 cw10"
    using trig' unfolding cw9_def by (rule trigger_fold_extends)
  ultimately have "extends cw cw10"
    using e1 by (blast intro: extends_trans)
  then obtain pre where pre: "cw_lines cw10 = cw_lines cw @ pre"
    and fr: "cw_indentations cw10 = cw_indentations cw"
    by (auto simp: extends_def)
  have tn_eq: "fst (tableName (en_name e) (en_tags e) w) = tn"
    by (simp add: tn)
  have "\<exists>r w'. generateTable cg cw dw (e\<lparr>en_documentation := Some d\<rparr>) opts schema prefix refs w
        = (Inr r, w')
     \<and> cw_lines (tr_codeWriter r) =
         cw_lines cw @ pre
         @ (if trim d = [] then []
            else ['''']
              @ concat (map (\<lambda>l. [concat (cw_indentations cw)
                    @ ''INSERT INTO '' @ schema @ ''.'' @ prefix
                    @ fst (tableName (en_name e) (en_tags e) w) @ '' (''
                    @ join '','' (map column_identifier (en_columns e)) @ '' ) VALUES ( ''
                    @ concat (map (\<lambda>i.
                        (if i < length (split CHR ''|'' l) \<and> split CHR ''|'' l ! i \<noteq> []
                         then '' '' @ [CHR 0x27] @ split CHR ''|'' l ! i @ [CHR 0x27] @ '' ''
                         else '' null '')
                        @ (if i + 1 < length (en_columns e) then '','' else ''''))
                        [0..<length (en_columns e)])
                    @ '' ); '',
                  '''']) (split newline (trim d)))
              @ [''''])
         @ (if d = [] \<and> tv_comments tv = [] then [] else [''''])" for d
  proof -
    define e' where "e' = e\<lparr>en_documentation := Some d\<rparr>"
    have fields: "en_name e' = en_name e" "en_tags e' = en_tags e" "en_columns e' = en_columns e"
      "en_documentation e' = Some d"
      by (simp_all add: e'_def)
    define res where "res = generateInserts opts table (Some d) (tv_columns tv) cw10 w6"
    have res: "res =
      (if trim d \<noteq> [] then
        (Inr (writeLine '''' (fold (insert_body
                (fst (insertInto_loop (tv_columns tv) (''INSERT INTO '' @ table @ '' ('') w6)
                   @ '' ) VALUES ( '')
                (length (tv_columns tv))) (split newline (trim d)) (writeLine '''' cw10))),
         snd (insertInto_loop (tv_columns tv) (''INSERT INTO '' @ table @ '' ('') w6))
      else (Inr cw10, w6))"
      using assms(1) by (simp add: res_def generateInserts_Some)
    obtain cw11 w7 where r7: "res = (Inr cw11, w7)"
      and l11: "cw_lines cw11 = cw_lines cw10
         @ (if trim d = [] then []
            else ['''']
              @ concat (map (\<lambda>l. [concat (cw_indentations cw) @ insert_line
                    (''INSERT INTO '' @ table @ '' ('' @ join '','' (map column_identifier (en_columns e))
                       @ '' ) VALUES ( '') (length (en_columns e)) l, ''''])
                  (split newline (trim d)))
              @ [''''])"
      by (cases "trim d = []")
        (simp_all add: res fold_insert_body insertInto_loop_header ids len fr)
    have tn': "tableName (en_name e') (en_tags e') w = (tn, w1)"
      using tn by (simp add: fields)
    have enums': "forEach (enums_body cg table) (en_columns e') (cw, [], []) w1
         = (Inr (cw1, de, cols1), w2)"
      using enums by (simp add: fields)
    have trig'': "fold (trigger_body opts table (prefix @ tn)) (en_tags e')
         (writeComments cg opts table (en_documentation e') (tv_comments tv) cw7, w5) = (cw10, w6)"
      using trig' by (simp add: fields comments)
    have ins: "generateInserts opts table (en_documentation e') (tv_columns tv) cw10 w6 = (Inr cw11, w7)"
      using r7 by (simp add: res_def fields)
    have truthy: "truthy (en_documentation e') \<longleftrightarrow> d \<noteq> []"
      by (simp add: fields truthy_def)
    have run: "generateTable cg cw dw e' opts schema prefix refs w =
      (Inr \<lparr>tr_codeWriter = (if d = [] \<and> tv_comments tv = [] then cw11 else writeLine '''' cw11),
            tr_dropWriter = writeLines de
              (writeLine (''DROP TABLE IF EXISTS '' @ table @ '' CASCADE;'') dw),
            tr_refs = refs1, tr_columns = tv_columns tv\<rparr>, w7)"
      using tn' enums' cols refs idx trig'' ins truthy
      unfolding table_def by (simp add: generateTable_def Let_def)
    have line: "insert_line h n l =
       h @ concat (map (\<lambda>i.
                        (if i < length (split CHR ''|'' l) \<and> split CHR ''|'' l ! i \<noteq> []
                         then '' '' @ [CHR 0x27] @ split CHR ''|'' l ! i @ [CHR 0x27] @ '' ''
                         else '' null '')
                        @ (if i + 1 < n then '','' else '''')) [0..<n]) @ '' ); ''" for h n l
      by (simp add: insert_line_def insert_field_def cong: map_cong)
    show ?thesis
      unfolding e'_def [symmetric]
      by (rule exI, rule exI, rule conjI, rule run)
        (simp add: l11 pre line table_def tn_eq)
  qed
  then show ?thesis
    by blast
qed

theorem generateTable_seed_inserts_witness:
  "opt_tableInserts ex_insert_options
   \<and> (\<exists>r w' pre.
     generateTable ex_codegen ex_writer ex_writer ex_seed_entity ex_insert_options ''public'' '''' []
       ex_world = (Inr r, w')
     \<and> cw_lines (tr_codeWriter r) =
         pre
         @ ['''',
            ''INSERT INTO public.person (name,age ) VALUES (  '' @ [CHR 0x27] @ ''Alice'' @ [CHR 0x27]
              @ '' , '' @ [CHR 0x27] @ ''30'' @ [CHR 0x27] @ ''  ); '',
            '''',
            ''INSERT INTO public.person (name,age ) VALUES (  '' @ [CHR 0x27] @ ''Bob'' @ [CHR 0x27]
              @ '' , null  ); '',
            '''', '''', ''''])"
proof -
  from ex_seed_entity_run obtain r w' where
    run: "generateTable ex_codegen ex_writer ex_writer ex_seed_entity ex_insert_options ''public'' ''''
            [] ex_world = (Inr r, w')"
    by (rule outcome_InrE)
  from generateTable_seed_inserts [OF ex_seed_entity_fields(1) run] obtain pre c where
    every: "\<forall>d. \<exists>r w'.
          generateTable ex_codegen ex_writer ex_writer (ex_seed_entity\<lparr>en_documentation := Some d\<rparr>)
            ex_insert_options ''public'' '''' [] ex_world = (Inr r, w')
          \<and> cw_lines (tr_codeWriter r) =
              cw_lines ex_writer @ pre
              @ (if trim d = [] then []
                 else ['''']
                   @ concat (map (\<lambda>l. [concat (cw_indentations ex_writer)
                         @ ''INSERT INTO '' @ ''public'' @ ''.'' @ ''''
                         @ fst (tableName (en_name ex_seed_entity) (en_tags ex_seed_entity) ex_world) @ '' (''
                         @ join '','' (map column_identifier (en_columns ex_seed_entity)) @ '' ) VALUES ( ''
                         @ concat (map (\<lambda>i.
                             (if i < length (split CHR ''|'' l) \<and> split CHR ''|'' l ! i \<noteq> []
                              then '' '' @ [CHR 0x27] @ split CHR ''|'' l ! i @ [CHR 0x27] @ '' ''
                              else '' null '')
                             @ (if i + 1 < length (en_columns ex_seed_entity) then '','' else ''''))
                             [0..<length (en_columns ex_seed_entity)])
                         @ '' ); '',
                       '''']) (split newline (trim d)))
                   @ [''''])
              @ (if d = [] \<and> c then [] else [''''])"
    by blast
  from every [THEN spec, of "''Alice|30'' @ [newline] @ ''Bob|''"] run
  have "cw_lines (tr_codeWriter r) =
         pre
         @ ['''',
            ''INSERT INTO public.person (name,age ) VALUES (  '' @ [CHR 0x27] @ ''Alice'' @ [CHR 0x27]
              @ '' , '' @ [CHR 0x27] @ ''30'' @ [CHR 0x27] @ ''  ); '',
            '''',
            ''INSERT INTO public.person (name,age ) VALUES (  '' @ [CHR 0x27] @ ''Bob'' @ [CHR 0x27]
              @ '' , null  ); '',
            '''', '''', '''']"
    unfolding ex_seed_entity_inserts ex_seed_entity_update(1)
    using ex_seed_entity_update(2) by (simp add: ex_writer_fields)
  with run ex_seed_entity_fields(1) show ?thesis
    by blast
qed


text \<open>
  Claim C10: with the seed-insert option on and the entity's documentation absent,
  \<^verbatim>\<open>generateTable\<close> throws. When the same call on the entity with an empty
  documentation returns, the exception is the \<^verbatim>\<open>TypeError\<close> of
  \<^verbatim>\<open>elem.documentation.trim()\<close> in the insert block, raised after everything before
  that block has run (the world is the one the other call ends in).
\<close>

theorem generateTable_absent_documentation:
  assumes "opt_tableInserts opts" and "en_documentation e = None"
  shows "(\<exists>err w'. generateTable cg cw dw e opts schema prefix refs w = (Inl err, w'))
    \<and> (\<forall>r w2. generateTable cg cw dw (e\<lparr>en_documentation := Some ''''\<rparr>) opts schema prefix refs w
                 = (Inr r, w2)
          \<longrightarrow> generateTable cg cw dw e opts schema prefix refs w
                 = (Inl (TypeError ''elem.documentation.trim''), w2))"
proof
  show "\<exists>err w'. generateTable cg cw dw e opts schema prefix refs w = (Inl err, w')"
  proof (cases "generateTable cg cw dw e opts schema prefix refs w")
    case (Pair res w')
    show ?thesis
    proof (cases res)
      case (Inl err)
      with Pair show ?thesis by blast
    next
      case (Inr r)
      with Pair have "generateTable cg cw dw e opts schema prefix refs w = (Inr r, w')"
        by simp
      then obtain cw10 w6 cw11 cols' table where
        "generateInserts opts table (en_documentation e) cols' cw10 w6 = (Inr cw11, w')"
        by (rule generateTable_before_inserts)
      with assms show ?thesis
        by (simp add: generateInserts_def)
    qed
  qed
next
  show "\<forall>r w2. generateTable cg cw dw (e\<lparr>en_documentation := Some ''''\<rparr>) opts schema prefix refs w
                 = (Inr r, w2)
          \<longrightarrow> generateTable cg cw dw e opts schema prefix refs w
                 = (Inl (TypeError ''elem.documentation.trim''), w2)"
  proof (intro allI impI)
    fix r w2
    define e' where "e' = e\<lparr>en_documentation := Some ''''\<rparr>"
    assume "generateTable cg cw dw (e\<lparr>en_documentation := Some ''''\<rparr>) opts schema prefix refs w
      = (Inr r, w2)"
    then have run: "generateTable cg cw dw e' opts schema prefix refs w = (Inr r, w2)"
      by (simp add: e'_def)
    have fields: "en_name e' = en_name e" "en_tags e' = en_tags e" "en_columns e' = en_columns e"
      "en_documentation e' = Some ''''"
      by (simp_all add: e'_def)
    from run obtain tn w1 cw1 de cols1 w2' tv w3 refs1 w4 cw7 w5 cw10 w6 cw11 where
      tn: "tableName (en_name e') (en_tags e') w = (tn, w1)" and
      enums: "forEach (enums_body cg (schema @ ''.'' @ prefix @ tn)) (en_columns e') (cw, [], []) w1
         = (Inr (cw1, de, cols1), w2')" and
      cols: "forEach (columns_body cg opts) cols1
         \<lparr>tv_lines = [], tv_primaryKeys = [], tv_foreignKeys = [], tv_foreignKeyCtr = [],
          tv_uniques = [], tv_comments = [], tv_columns = []\<rparr> w2' = (Inr tv, w3)" and
      refs: "fold (refs_body (schema @ ''.'' @ prefix @ tn) (prefix @ tn)) (tv_foreignKeyCtr tv) (refs, w3)
         = (refs1, w4)" and
      idx: "writeUserIndexes
         (writeForeignKeyIndexes (schema @ ''.'' @ prefix @ tn) (tv_foreignKeys tv)
            (writeUniques (schema @ ''.'' @ prefix @ tn) (tv_uniques tv)
               (writeTableBody tv
                  (indent (writeLine (''CREATE TABLE '' @ (schema @ ''.'' @ prefix @ tn) @ '' ('') cw1)))))
         (schema @ ''.'' @ prefix @ tn) (tv_columns tv) w4 = (Inr cw7, w5)" and
      trig: "fold (trigger_body opts (schema @ ''.'' @ prefix @ tn) (prefix @ tn)) (en_tags e')
         (writeComments cg opts (schema @ ''.'' @ prefix @ tn) (en_documentation e') (tv_comments tv) cw7, w5)
         = (cw10, w6)" and
      ins: "generateInserts opts (schema @ ''.'' @ prefix @ tn) (en_documentation e') (tv_columns tv) cw10 w6
         = (Inr cw11, w2)"
      by (rule generateTable_InrE)
    from ins assms(1) fields have w6: "w6 = w2"
      by (simp add: generateInserts_def)
    have comments: "writeComments cg opts (schema @ ''.'' @ prefix @ tn) None (tv_comments tv) cw7
      = writeComments cg opts (schema @ ''.'' @ prefix @ tn) (Some '''') (tv_comments tv) cw7"
      by (simp add: writeComments_falsy truthy_def)
    have tn': "tableName (en_name e) (en_tags e) w = (tn, w1)"
      using tn by (simp add: fields)
    have enums': "forEach (enums_body cg (schema @ ''.'' @ prefix @ tn)) (en_columns e) (cw, [], []) w1
         = (Inr (cw1, de, cols1), w2')"
      using enums by (simp add: fields)
    have trig': "fold (trigger_body opts (schema @ ''.'' @ prefix @ tn) (prefix @ tn)) (en_tags e)
         (writeComments cg opts (schema @ ''.'' @ prefix @ tn) (en_documentation e) (tv_comments tv) cw7, w5)
         = (cw10, w2)"
      using trig w6 by (simp add: fields assms(2) writeComments_falsy truthy_def)
    have ins': "generateInserts opts (schema @ ''.'' @ prefix @ tn) (en_documentation e) (tv_columns tv)
         cw10 w2 = (Inl (TypeError ''elem.documentation.trim''), w2)"
      by (simp add: generateInserts_def assms)
    show "generateTable cg cw dw e opts schema prefix refs w
      = (Inl (TypeError ''elem.documentation.trim''), w2)"
      using tn' enums' cols refs idx trig' ins'
      by (simp add: generateTable_def Let_def)
  qed
qed

theorem generateTable_absent_documentation_witness:
  "opt_tableInserts ex_insert_options
   \<and> en_documentation (ex_seed_entity\<lparr>en_documentation := None\<rparr>) = None
   \<and> generateTable ex_codegen ex_writer ex_writer (ex_seed_entity\<lparr>en_documentation := None\<rparr>)
        ex_insert_options ''public'' '''' [] ex_world
      = (Inl (TypeError ''elem.documentation.trim''), ex_world)"
proof -
  from ex_seed_entity_empty_run(1) obtain r w' where
    run: "generateTable ex_codegen ex_writer ex_writer
            (ex_seed_entity\<lparr>en_documentation := None, en_documentation := Some ''''\<rparr>)
            ex_insert_options ''public'' '''' [] ex_world = (Inr r, w')"
    by (rule outcome_InrE)
  with ex_seed_entity_empty_run(2) have w': "w' = ex_world"
    by simp
  from generateTable_absent_documentation [OF ex_seed_entity_fields(1,4), of ex_codegen ex_writer
      ex_writer "''public''" "''''" "[]" ex_world] run w'
  have "generateTable ex_codegen ex_writer ex_writer (ex_seed_entity\<lparr>en_documentation := None\<rparr>)
        ex_insert_options ''public'' '''' [] ex_world
      = (Inl (TypeError ''elem.documentation.trim''), ex_world)"
    by blast
  with ex_seed_entity_fields(1,4) show ?thesis
    by blast
qed

end
